theory Spec2Isabelle
  imports Main "HOL-Library.Sublist"
begin

section \<open>JavaScript strings\<close>

text \<open>
  A JavaScript string is modelled as a \<^typ>\<open>string\<close>, a list of 8-bit characters; this is
  exact for ASCII text. \<open>Buffer.toString()\<close> is the identity on such text. Indices are
  \<^typ>\<open>int\<close> because \<open>indexOf\<close> and \<open>lastIndexOf\<close> answer \<open>-1\<close> when nothing is found and
  \<open>substring\<close> accepts that value.
\<close>

definition indexOf :: "string \<Rightarrow> char \<Rightarrow> nat \<Rightarrow> int" where
  \<comment> \<open>\<open>s.indexOf(c, from)\<close> for a one-character search string\<close>
  "indexOf s c from =
     (let k = from + length (takeWhile (\<lambda>x. x \<noteq> c) (drop from s))
      in if k < length s then int k else - 1)"

definition lastIndexOf :: "string \<Rightarrow> char \<Rightarrow> int" where
  \<comment> \<open>\<open>s.lastIndexOf(c)\<close> for a one-character search string\<close>
  "lastIndexOf s c =
     (let k = length (takeWhile (\<lambda>x. x \<noteq> c) (rev s))
      in if k < length s then int (length s) - 1 - int k else - 1)"

definition clampIndex :: "string \<Rightarrow> int \<Rightarrow> nat" where
  "clampIndex s i = (if i < 0 then 0 else min (nat i) (length s))"

definition substring :: "string \<Rightarrow> int \<Rightarrow> int \<Rightarrow> string" where
  \<comment> \<open>\<open>s.substring(a, b)\<close>: both arguments clamped to \<open>0..length\<close>, swapped when \<open>a > b\<close>\<close>
  "substring s a b =
     (let lo = min (clampIndex s a) (clampIndex s b);
          hi = max (clampIndex s a) (clampIndex s b)
      in take (hi - lo) (drop lo s))"

definition substringFrom :: "string \<Rightarrow> int \<Rightarrow> string" where
  \<comment> \<open>\<open>s.substring(a)\<close>\<close>
  "substringFrom s a = substring s a (int (length s))"

definition startsWith :: "string \<Rightarrow> string \<Rightarrow> bool" where
  "startsWith s p = (take (length p) s = p)"

fun includesStr :: "string \<Rightarrow> string \<Rightarrow> bool" where
  "includesStr [] p = (p = [])"
| "includesStr (x # xs) p = (startsWith (x # xs) p \<or> includesStr xs p)"

definition lowerChar :: "char \<Rightarrow> char" where
  "lowerChar c =
     (if 65 \<le> (of_char c :: nat) \<and> (of_char c :: nat) \<le> 90
      then char_of ((of_char c :: nat) + 32) else c)"

definition toLowerCase :: "string \<Rightarrow> string" where
  \<comment> \<open>ASCII letters only\<close>
  "toLowerCase s = map lowerChar s"

definition isWhiteSpace :: "char \<Rightarrow> bool" where
  \<comment> \<open>the ASCII members of the white space and line terminator classes\<close>
  "isWhiteSpace c = ((of_char c :: nat) \<in> {9, 10, 11, 12, 13, 32})"

definition isDigit :: "char \<Rightarrow> bool" where
  "isDigit c = (48 \<le> (of_char c :: nat) \<and> (of_char c :: nat) \<le> 57)"

definition digitsValue :: "string \<Rightarrow> int" where
  "digitsValue ds = foldl (\<lambda>acc d. acc * 10 + (int (of_char d) - 48)) 0 ds"

definition parseInt :: "string \<Rightarrow> int option" where
  \<comment> \<open>\<open>parseInt(s, 10)\<close>; \<open>None\<close> is \<open>NaN\<close>. The result is the mathematical integer:
      rounding to a double, which starts above \<open>2^53\<close>, is not modelled.\<close>
  "parseInt s =
     (let s1 = dropWhile isWhiteSpace s;
          neg = (s1 \<noteq> [] \<and> hd s1 = CHR ''-'');
          s2 = (if s1 \<noteq> [] \<and> (hd s1 = CHR ''+'' \<or> hd s1 = CHR ''-'') then tl s1 else s1);
          z = takeWhile isDigit s2
      in if z = [] then None
         else Some (if neg then - digitsValue z else digitsValue z))"

section \<open>Address parsing\<close>

record address =
  host :: string
  port :: "int option"

definition parseAddress :: "string \<Rightarrow> address" where
  "parseAddress addr =
     (if addr \<noteq> [] \<and> hd addr = CHR ''[''
      then (let endi = indexOf addr CHR '']'' 0
            in \<lparr>host = substring addr 1 endi,
                port = parseInt (substringFrom addr (endi + 2))\<rparr>)
      else (let sep = lastIndexOf addr CHR '':''
            in \<lparr>host = substring addr 0 sep,
                port = parseInt (substringFrom addr (sep + 1))\<rparr>))"

section \<open>Name resolver\<close>

text \<open>
  The resolver of the second variant of \<open>index.js\<close> (\<open>resolveDoH\<close>, \<open>queryDoH\<close>). Its state
  is the module-level cache \<open>dnsCache\<close>, the wall clock read by \<open>Date.now()\<close> in
  milliseconds, and a log of the outbound calls made so far. What the network answers is
  an environment: a function of the request.
\<close>

record dns_entry =
  ip :: string
  timestamp :: int

datatype lookup =
    DoHQuery string string  \<comment> \<open>an HTTPS GET to the DoH server, for the host name\<close>
  | SystemDNS string        \<comment> \<open>\<open>dns.resolve4\<close> of the host name\<close>

datatype doh_response =
    Answers "(int \<times> string) list"  \<comment> \<open>a JSON body; its \<open>Answer\<close> records as (type, data)\<close>
  | BadBody string                   \<comment> \<open>a body that \<open>JSON.parse\<close> rejects, with the message\<close>
  | RequestError string              \<comment> \<open>the request emits \<open>error\<close>\<close>
  | RequestTimeout                   \<comment> \<open>the request emits \<open>timeout\<close>\<close>

record resolver_env =
  doh_response_of :: "string \<Rightarrow> string \<Rightarrow> doh_response"
  doh_latency :: "string \<Rightarrow> string \<Rightarrow> nat"
  resolve4 :: "string \<Rightarrow> string list option"  \<comment> \<open>\<open>None\<close>: the system resolver rejects\<close>
  resolve4_latency :: "string \<Rightarrow> nat"

record resolver =
  dnsCache :: "string \<rightharpoonup> dns_entry"
  clock :: int
  lookups :: "lookup list"

definition DOH_SERVERS :: "string list" where
  "DOH_SERVERS =
     [''https://dns.google/dns-query'',
      ''https://cloudflare-dns.com/dns-query'',
      ''https://1.1.1.1/dns-query'']"

definition DNS_CACHE_TTL :: int where
  "DNS_CACHE_TTL = 300000"

definition queryDoH :: "resolver_env \<Rightarrow> string \<Rightarrow> string \<Rightarrow> string + string" where
  \<comment> \<open>\<open>Inr\<close>: the promise resolves with the data of the first answer of type 1;
      \<open>Inl\<close>: it rejects, with the error's message\<close>
  "queryDoH env dohServer hostname =
     (case doh_response_of env dohServer hostname of
        Answers as \<Rightarrow>
          (case filter (\<lambda>a. fst a = 1) as of
             a # _ \<Rightarrow> Inr (snd a)
           | [] \<Rightarrow> Inl ''No A record found'')
      | BadBody m \<Rightarrow> Inl m
      | RequestError m \<Rightarrow> Inl m
      | RequestTimeout \<Rightarrow> Inl ''DoH query timeout'')"

definition cacheSet :: "string \<Rightarrow> string \<Rightarrow> resolver \<Rightarrow> resolver" where
  \<comment> \<open>\<open>dnsCache.set(hostname, { ip, timestamp: Date.now() })\<close>\<close>
  "cacheSet hostname a r =
     r\<lparr>dnsCache := (dnsCache r)(hostname \<mapsto> \<lparr>ip = a, timestamp = clock r\<rparr>)\<rparr>"

fun tryDoHServers ::
  "resolver_env \<Rightarrow> string list \<Rightarrow> string \<Rightarrow> resolver \<Rightarrow> string option \<times> resolver" where
  \<comment> \<open>the loop over \<open>DOH_SERVERS\<close>; \<open>Some\<close> is its early \<open>return ip\<close>\<close>
  "tryDoHServers env [] hostname r = (None, r)"
| "tryDoHServers env (dohServer # rest) hostname r =
     (let r1 = r\<lparr>lookups := lookups r @ [DoHQuery dohServer hostname],
                 clock := clock r + int (doh_latency env dohServer hostname)\<rparr>
      in case queryDoH env dohServer hostname of
           Inr a \<Rightarrow>
             if a \<noteq> [] then (Some a, cacheSet hostname a r1)
             else tryDoHServers env rest hostname r1
         | Inl err \<Rightarrow> tryDoHServers env rest hostname r1)"

definition systemDNS :: "resolver_env \<Rightarrow> string \<Rightarrow> resolver \<Rightarrow> (string + string) \<times> resolver" where
  \<comment> \<open>the fallback to \<open>dns.resolve4\<close> and the final \<open>throw\<close>\<close>
  "systemDNS env hostname r =
     (let r1 = r\<lparr>lookups := lookups r @ [SystemDNS hostname],
                 clock := clock r + int (resolve4_latency env hostname)\<rparr>
      in case resolve4 env hostname of
           Some (a # _) \<Rightarrow> (Inr a, cacheSet hostname a r1)
         | _ \<Rightarrow> (Inl (''Failed to resolve '' @ hostname), r1))"

definition resolveDoH ::
  "(string \<Rightarrow> bool) \<Rightarrow> resolver_env \<Rightarrow> string \<Rightarrow> resolver \<Rightarrow> (string + string) \<times> resolver" where
  \<comment> \<open>\<open>isIP\<close> is \<open>net.isIP\<close> of the Node library, read as a truth value.
      \<open>Inr\<close>: the address returned; \<open>Inl\<close>: the message of the error thrown.\<close>
  "resolveDoH isIP env hostname r =
     (case (case dnsCache r hostname of
              Some cached \<Rightarrow>
                if clock r - timestamp cached < DNS_CACHE_TTL then Some (ip cached) else None
            | None \<Rightarrow> None) of
        Some a \<Rightarrow> (Inr a, r)
      | None \<Rightarrow>
          if isIP hostname then (Inr hostname, r)
          else (case tryDoHServers env DOH_SERVERS hostname r of
                  (Some a, r1) \<Rightarrow> (Inr a, r1)
                | (None, r1) \<Rightarrow> systemDNS env hostname r1))"

text \<open>
  A history of resolver calls, each made at its own time and against its own
  environment. The states it reaches from the empty cache are the reachable ones.
\<close>

record resolver_call =
  call_env :: resolver_env
  call_time :: int
  call_hostname :: string

definition initialResolver :: "int \<Rightarrow> resolver" where
  "initialResolver t = \<lparr>dnsCache = Map.empty, clock = t, lookups = []\<rparr>"

fun resolveAll :: "(string \<Rightarrow> bool) \<Rightarrow> resolver_call list \<Rightarrow> resolver \<Rightarrow> resolver" where
  "resolveAll isIP [] r = r"
| "resolveAll isIP (c # cs) r =
     resolveAll isIP cs
       (snd (resolveDoH isIP (call_env c) (call_hostname c) (r\<lparr>clock := call_time c\<rparr>)))"

section \<open>Sessions\<close>

text \<open>
  \<open>handleSession\<close> keeps two variables, \<open>remoteSocket\<close> and \<open>isClosed\<close>, and registers
  callbacks; \<open>connectToRemote\<close> is an \<open>async\<close> function that suspends at every \<open>await\<close>.
  The model is a state record, a function that runs \<open>connectToRemote\<close> from one program
  point to the next suspension, and one handler per event. Sockets live in a store and
  are named by their index. Every call on the outside world is appended to a trace, and
  so is the assignment \<open>isClosed = true\<close>, to order the calls around it.

  The source file holds two variants of the program. They differ in \<open>connectToRemote\<close>:
  the second resolves a candidate that is not a literal IP address before it dials. The
  field \<open>doh\<close> of the configuration selects the variant.
\<close>

datatype ready_state = CONNECTING | OPEN | CLOSING | CLOSED

datatype effect =
    Resolve string               \<comment> \<open>\<open>resolveDoH(targetHost)\<close> is called\<close>
  | NetConnect string "int option"  \<comment> \<open>\<open>net.connect({host, port, timeout})\<close>\<close>
  | SockWrite nat string         \<comment> \<open>\<open>write\<close> on the socket with this index, with the bytes written\<close>
  | SockDestroy nat              \<comment> \<open>\<open>destroy\<close> on the socket with this index\<close>
  | WsSend string                \<comment> \<open>\<open>webSocket.send\<close>\<close>
  | WsClose                      \<comment> \<open>\<open>ws.close(1000, 'Server closed')\<close>\<close>
  | MarkClosed                   \<comment> \<open>\<open>isClosed = true\<close>\<close>

record socket =
  peer_host :: string  \<comment> \<open>the \<open>host\<close> option it was created with\<close>
  peer_port :: "int option"  \<comment> \<open>the \<open>port\<close> option it was created with\<close>
  destroyed :: bool
  pumps :: nat  \<comment> \<open>how often \<open>pumpRemoteToWebSocket\<close> registered its listeners on it\<close>

datatype stage = AwaitResolve | AwaitConnect nat | Finished

record task =
  t_address :: address  \<comment> \<open>\<open>{ host, port }\<close> of this call of \<open>connectToRemote\<close>\<close>
  t_first :: string     \<comment> \<open>its \<open>firstFrameData\<close>\<close>
  t_index :: nat        \<comment> \<open>its loop index \<open>i\<close>\<close>
  t_stage :: stage      \<comment> \<open>the \<open>await\<close> it is suspended at, if any\<close>

record session =
  isClosed :: bool
  remoteSocket :: "nat option"
  sockets :: "socket list"  \<comment> \<open>every socket \<open>net.connect\<close> has made, in the order of the calls\<close>
  readyState :: ready_state  \<comment> \<open>\<open>webSocket.readyState\<close>\<close>
  tasks :: "task list"  \<comment> \<open>the calls of \<open>connectToRemote\<close>, one for each Connect-request handled\<close>
  trace :: "effect list"

record config =
  doh :: bool
  CF_FALLBACK_IPS :: "string list"
  net_isIP :: "string \<Rightarrow> bool"
  connectThrows :: "string \<Rightarrow> int option \<Rightarrow> string option"
    \<comment> \<open>\<open>net.connect\<close> raises at once for this host and port, with this message\<close>
  sendThrows :: bool
    \<comment> \<open>whether \<open>send\<close> on a closing or closed WebSocket raises (it does up to version 7 of
        the \<open>ws\<close> package) or drops the data\<close>

definition initialSession :: session where
  "initialSession =
     \<lparr>isClosed = False, remoteSocket = None, sockets = [], readyState = OPEN,
      tasks = [], trace = []\<rparr>"

definition emit :: "effect \<Rightarrow> session \<Rightarrow> session" where
  "emit e s = s\<lparr>trace := trace s @ [e]\<rparr>"

definition markDestroyed :: "nat \<Rightarrow> session \<Rightarrow> session" where
  "markDestroyed k s = s\<lparr>sockets := (sockets s)[k := (sockets s ! k)\<lparr>destroyed := True\<rparr>]\<rparr>"

definition socketOpen :: "session \<Rightarrow> nat \<Rightarrow> bool" where
  "socketOpen s k = (k < length (sockets s) \<and> \<not> destroyed (sockets s ! k))"

definition releaseRemote :: "session \<Rightarrow> session" where
  \<comment> \<open>\<open>if (remoteSocket) { try { remoteSocket.destroy(); } catch {} remoteSocket = null; }\<close>\<close>
  "releaseRemote s =
     (case remoteSocket s of
        None \<Rightarrow> s
      | Some k \<Rightarrow> (markDestroyed k (emit (SockDestroy k) s))\<lparr>remoteSocket := None\<rparr>)"

definition safeCloseWebSocket :: "session \<Rightarrow> session" where
  "safeCloseWebSocket s =
     (if readyState s = OPEN \<or> readyState s = CLOSING
      then (emit WsClose s)\<lparr>readyState := CLOSING\<rparr>
      else s)"

definition cleanup :: "session \<Rightarrow> session" where
  "cleanup s =
     (if isClosed s then s
      else safeCloseWebSocket (releaseRemote (emit MarkClosed (s\<lparr>isClosed := True\<rparr>))))"

definition wsNotOpenMessage :: "ready_state \<Rightarrow> string" where
  "wsNotOpenMessage rs =
     ''WebSocket is not open: readyState '' @
       (case rs of CONNECTING \<Rightarrow> ''0 (CONNECTING)'' | OPEN \<Rightarrow> ''1 (OPEN)''
        | CLOSING \<Rightarrow> ''2 (CLOSING)'' | CLOSED \<Rightarrow> ''3 (CLOSED)'')"

definition wsSend :: "config \<Rightarrow> string \<Rightarrow> session \<Rightarrow> string option \<times> session" where
  \<comment> \<open>\<open>webSocket.send(data)\<close>; \<open>Some\<close>: it raises, with this message\<close>
  "wsSend cfg d s =
     (if readyState s = OPEN then (None, emit (WsSend d) s)
      else if readyState s = CONNECTING \<or> sendThrows cfg
      then (Some (wsNotOpenMessage (readyState s)), emit (WsSend d) s)
      else (None, emit (WsSend d) s))"

definition nullWriteMessage :: string where
  "nullWriteMessage = ''Cannot read properties of null (reading 'write')''"

definition nullOnMessage :: string where
  "nullOnMessage = ''Cannot read properties of null (reading 'on')''"

definition remoteWrite :: "string \<Rightarrow> session \<Rightarrow> string option \<times> session" where
  \<comment> \<open>\<open>remoteSocket.write(data)\<close>; on \<open>null\<close> it raises a \<open>TypeError\<close>\<close>
  "remoteWrite d s =
     (case remoteSocket s of
        None \<Rightarrow> (Some nullWriteMessage, s)
      | Some k \<Rightarrow> (None, emit (SockWrite k d) s))"

definition pumpRemoteToWebSocket :: "nat option \<Rightarrow> session \<Rightarrow> string option \<times> session" where
  \<comment> \<open>registers the \<open>data\<close>, \<open>end\<close> and \<open>error\<close> listeners on its argument\<close>
  "pumpRemoteToWebSocket sock s =
     (case sock of
        None \<Rightarrow> (Some nullOnMessage, s)
      | Some k \<Rightarrow>
          (None, s\<lparr>sockets := (sockets s)[k := (sockets s ! k)\<lparr>pumps := Suc (pumps (sockets s ! k))\<rparr>]\<rparr>))"

definition isCFError :: "string \<Rightarrow> bool" where
  \<comment> \<open>an error is modelled by its message\<close>
  "isCFError message =
     (let msg = toLowerCase message
      in includesStr msg ''proxy request'' \<or> includesStr msg ''cannot connect'' \<or>
         includesStr msg ''econnrefused'' \<or> includesStr msg ''etimedout'')"

definition attempts :: "config \<Rightarrow> string option list" where
  \<comment> \<open>\<open>[null, ...CF_FALLBACK_IPS]\<close>\<close>
  "attempts cfg = None # map Some (CF_FALLBACK_IPS cfg)"

definition orElse :: "string option \<Rightarrow> string \<Rightarrow> string" where
  \<comment> \<open>\<open>x || y\<close> for \<open>x\<close> that is \<open>null\<close> or a string: the empty string is falsy too\<close>
  "orElse x y = (case x of None \<Rightarrow> y | Some v \<Rightarrow> if v = [] then y else v)"

definition connectedPath :: "config \<Rightarrow> string \<Rightarrow> session \<Rightarrow> string option \<times> session" where
  \<comment> \<open>the statements of the \<open>try\<close> block after the \<open>connect\<close> event; \<open>Some\<close>: one raises\<close>
  "connectedPath cfg first s =
     (case (if first \<noteq> [] then remoteWrite first s else (None, s)) of
        (Some m, s1) \<Rightarrow> (Some m, s1)
      | (None, s1) \<Rightarrow>
          (case wsSend cfg ''CONNECTED'' s1 of
             (Some m, s2) \<Rightarrow> (Some m, s2)
           | (None, s2) \<Rightarrow> pumpRemoteToWebSocket (remoteSocket s2) s2))"

subsection \<open>The dial loop\<close>

text \<open>
  What an awaited promise does is an environment, indexed by the attempt: the resolver's
  answer and the socket's first event. \<open>Pending\<close> suspends the function there.
\<close>

datatype resolved = ResolvedTo string | ResolveFailed

datatype connected = ConnectOk | ConnectError string

datatype 'a awaited = Pending | Settled 'a

record dial_env =
  resolution_of :: "nat \<Rightarrow> resolved awaited"
  connection_of :: "nat \<Rightarrow> connected awaited"

datatype point =
    Top                        \<comment> \<open>the head of the loop body\<close>
  | AfterResolve resolved      \<comment> \<open>\<open>await resolveDoH(targetHost)\<close> has settled\<close>
  | Dial string                \<comment> \<open>at \<open>net.connect\<close>, with the host to dial\<close>
  | AfterConnect nat connected \<comment> \<open>the awaited socket emitted \<open>connect\<close> or \<open>error\<close>\<close>
  | Caught string              \<comment> \<open>the head of the \<open>catch\<close> block, with the error's message\<close>

datatype dial_result = Returned | Threw string | Suspended nat stage

function dial ::
  "config \<Rightarrow> dial_env \<Rightarrow> address \<Rightarrow> string \<Rightarrow> nat \<Rightarrow> point \<Rightarrow> session
     \<Rightarrow> dial_result \<times> session" where
  "dial cfg env a first i Top s =
     (if length (attempts cfg) \<le> i then (Returned, s)
      else (let targetHost = orElse (attempts cfg ! i) (host a)
            in if doh cfg \<and> \<not> net_isIP cfg targetHost
               then (case resolution_of env i of
                       Pending \<Rightarrow> (Suspended i AwaitResolve, emit (Resolve targetHost) s)
                     | Settled r \<Rightarrow>
                         dial cfg env a first i (AfterResolve r) (emit (Resolve targetHost) s))
               else dial cfg env a first i (Dial targetHost) s))"
| "dial cfg env a first i (AfterResolve r) s =
     (let targetHost = orElse (attempts cfg ! i) (host a);
          resolvedHost = (case r of ResolvedTo x \<Rightarrow> x | ResolveFailed \<Rightarrow> targetHost)
      in dial cfg env a first i (Dial resolvedHost) s)"
| "dial cfg env a first i (Dial resolvedHost) s =
     (case connectThrows cfg resolvedHost (port a) of
        Some m \<Rightarrow> dial cfg env a first i (Caught m) (emit (NetConnect resolvedHost (port a)) s)
      | None \<Rightarrow>
          (let s1 = emit (NetConnect resolvedHost (port a)) s;
               sid = length (sockets s1);
               s2 = s1\<lparr>sockets := sockets s1 @
                         [\<lparr>peer_host = resolvedHost, peer_port = port a,
                           destroyed = False, pumps = 0\<rparr>],
                       remoteSocket := Some sid\<rparr>
           in case connection_of env i of
                Pending \<Rightarrow> (Suspended i (AwaitConnect sid), s2)
              | Settled c \<Rightarrow> dial cfg env a first i (AfterConnect sid c) s2))"
| "dial cfg env a first i (AfterConnect sid ConnectOk) s =
     (case connectedPath cfg first s of
        (Some m, s1) \<Rightarrow> dial cfg env a first i (Caught m) s1
      | (None, s1) \<Rightarrow> (Returned, s1))"
| "dial cfg env a first i (AfterConnect sid (ConnectError m)) s =
     dial cfg env a first i (Caught m) (markDestroyed sid s)"
| "dial cfg env a first i (Caught m) s =
     (if \<not> isCFError m \<or> i = length (attempts cfg) - 1 then (Threw m, releaseRemote s)
      else dial cfg env a first (i + 1) Top (releaseRemote s))"
  by pat_completeness auto
termination
  by (relation "measure (\<lambda>(cfg, env, a, first, i, p, s).
        if p = Top \<and> length (attempts cfg) \<le> i then 0
        else 5 * (length (attempts cfg) - i) +
               (case p of Top \<Rightarrow> 5 | AfterResolve r \<Rightarrow> 4 | Dial h \<Rightarrow> 3
                | AfterConnect k c \<Rightarrow> 2 | Caught m \<Rightarrow> 1))")
     (auto split: if_splits)

definition connectToRemote ::
  "config \<Rightarrow> dial_env \<Rightarrow> string \<Rightarrow> string \<Rightarrow> session \<Rightarrow> dial_result \<times> session" where
  "connectToRemote cfg env targetAddr firstFrameData s =
     dial cfg env (parseAddress targetAddr) firstFrameData 0 Top s"

subsection \<open>Event handlers\<close>

definition noneSettled :: dial_env where
  "noneSettled = \<lparr>resolution_of = (\<lambda>i. Pending), connection_of = (\<lambda>i. Pending)\<rparr>"

definition setStage :: "nat \<Rightarrow> nat \<Rightarrow> stage \<Rightarrow> session \<Rightarrow> session" where
  "setStage tid i st s =
     s\<lparr>tasks := (tasks s)[tid := (tasks s ! tid)\<lparr>t_index := i, t_stage := st\<rparr>]\<rparr>"

definition messageCatch :: "config \<Rightarrow> string \<Rightarrow> session \<Rightarrow> session" where
  \<comment> \<open>\<open>try { webSocket.send('ERROR:' + err.message); } catch {} cleanup();\<close>\<close>
  "messageCatch cfg m s = cleanup (snd (wsSend cfg (''ERROR:'' @ m) s))"

definition afterDial :: "config \<Rightarrow> nat \<Rightarrow> dial_result \<times> session \<Rightarrow> session" where
  \<comment> \<open>the message handler around \<open>await connectToRemote(...)\<close>, for the call \<open>tid\<close>\<close>
  "afterDial cfg tid rs =
     (case rs of
        (Suspended i st, s) \<Rightarrow> setStage tid i st s
      | (Returned, s) \<Rightarrow> setStage tid (t_index (tasks s ! tid)) Finished s
      | (Threw m, s) \<Rightarrow> messageCatch cfg m (setStage tid (t_index (tasks s ! tid)) Finished s))"

definition resume :: "config \<Rightarrow> nat \<Rightarrow> point \<Rightarrow> session \<Rightarrow> session" where
  "resume cfg tid p s =
     (let t = tasks s ! tid
      in afterDial cfg tid (dial cfg noneSettled (t_address t) (t_first t) (t_index t) p s))"

definition awaitingConnect :: "session \<Rightarrow> nat \<Rightarrow> nat list" where
  "awaitingConnect s sid =
     filter (\<lambda>tid. t_stage (tasks s ! tid) = AwaitConnect sid) [0..<length (tasks s)]"

text \<open>
  The data of a \<open>message\<close> event is a String or a \<open>Buffer\<close>: up to version 7 of the \<open>ws\<close>
  package a text frame arrives as a String and a binary frame as a \<open>Buffer\<close>, from
  version 8 on every frame arrives as a \<open>Buffer\<close>. A \<open>Buffer\<close> is the list of its bytes.
  \<open>toString()\<close> of a \<open>Buffer\<close> decodes it as UTF-8 and puts U+FFFD in place of every
  ill-formed sequence, one for each maximal prefix of a well-formed sequence, as the
  decoder of the Encoding Standard does; \<open>write\<close> of a String encodes it as UTF-8. Text
  that is not ASCII is kept in its UTF-8 form: the text of a \<open>Buffer\<close> is the \<open>Buffer\<close>
  with every ill-formed sequence replaced by the bytes \<open>EF BF BD\<close>, and \<open>write\<close> of a text
  puts the list itself on the socket.
\<close>

definition replacementCharacter :: string where
  \<comment> \<open>U+FFFD in UTF-8\<close>
  "replacementCharacter = [CHR 0xEF, CHR 0xBF, CHR 0xBD]"

definition continues :: "nat \<Rightarrow> nat \<Rightarrow> string \<Rightarrow> bool" where
  \<comment> \<open>the next byte exists and lies between \<open>lower\<close> and \<open>upper\<close>\<close>
  "continues lower upper bs =
     (case bs of [] \<Rightarrow> False | b # _ \<Rightarrow> lower \<le> (of_char b :: nat) \<and> (of_char b :: nat) \<le> upper)"

definition bytesNeeded :: "char \<Rightarrow> nat" where
  \<comment> \<open>how many bytes follow this lead byte; 0 when the byte leads no sequence\<close>
  "bytesNeeded b =
     (let n = (of_char b :: nat)
      in if 0xC2 \<le> n \<and> n \<le> 0xDF then 1
         else if 0xE0 \<le> n \<and> n \<le> 0xEF then 2
         else if 0xF0 \<le> n \<and> n \<le> 0xF4 then 3 else 0)"

definition lowerBoundary :: "char \<Rightarrow> nat" where
  \<comment> \<open>the least second byte after this lead byte\<close>
  "lowerBoundary b = (if b = CHR 0xE0 then 0xA0 else if b = CHR 0xF0 then 0x90 else 0x80)"

definition upperBoundary :: "char \<Rightarrow> nat" where
  \<comment> \<open>the greatest second byte after this lead byte\<close>
  "upperBoundary b = (if b = CHR 0xED then 0x9F else if b = CHR 0xF4 then 0x8F else 0xBF)"

function bufferToString :: "string \<Rightarrow> string" where
  \<comment> \<open>\<open>buffer.toString()\<close>, the decoded text in its UTF-8 form\<close>
  "bufferToString [] = []"
| "bufferToString (b # bs) =
     (if (of_char b :: nat) < 0x80 then b # bufferToString bs
      else if bytesNeeded b = 0 then replacementCharacter @ bufferToString bs
      else if \<not> continues (lowerBoundary b) (upperBoundary b) bs
      then replacementCharacter @ bufferToString bs
      else if bytesNeeded b = 1 then b # hd bs # bufferToString (tl bs)
      else if \<not> continues 0x80 0xBF (tl bs) then replacementCharacter @ bufferToString (tl bs)
      else if bytesNeeded b = 2 then b # hd bs # hd (tl bs) # bufferToString (tl (tl bs))
      else if \<not> continues 0x80 0xBF (tl (tl bs))
      then replacementCharacter @ bufferToString (tl (tl bs))
      else b # hd bs # hd (tl bs) # hd (tl (tl bs)) # bufferToString (tl (tl (tl bs))))"
  by pat_completeness auto
termination
  by (relation "measure length") simp_all

definition toString :: "string \<Rightarrow> bool \<Rightarrow> string" where
  \<comment> \<open>\<open>data.toString()\<close>, for a String with these characters or a \<open>Buffer\<close> with these bytes\<close>
  "toString d isBuffer = (if isBuffer then bufferToString d else d)"

definition onMessage :: "config \<Rightarrow> string \<Rightarrow> bool \<Rightarrow> session \<Rightarrow> session" where
  \<comment> \<open>\<open>isBuffer\<close> is \<open>data instanceof Buffer\<close>\<close>
  "onMessage cfg d isBuffer s =
     (if isClosed s then s
      else (let message = toString d isBuffer
            in if startsWith message ''CONNECT:'' then
                 (let sep = indexOf message CHR ''|'' 8;
                      targetAddr = substring message 8 sep;
                      firstFrameData = substringFrom message (sep + 1);
                      tid = length (tasks s);
                      s1 = s\<lparr>tasks := tasks s @
                             [\<lparr>t_address = parseAddress targetAddr, t_first = firstFrameData,
                               t_index = 0, t_stage = Finished\<rparr>]\<rparr>
                  in afterDial cfg tid (connectToRemote cfg noneSettled targetAddr firstFrameData s1))
               else if startsWith message ''DATA:'' then
                 (case remoteSocket s of
                    Some k \<Rightarrow>
                      if socketOpen s k then emit (SockWrite k (substringFrom message 5)) s else s
                  | None \<Rightarrow> s)
               else if message = ''CLOSE'' then cleanup s
               else (case remoteSocket s of
                       Some k \<Rightarrow> if isBuffer \<and> socketOpen s k then emit (SockWrite k d) s else s
                     | None \<Rightarrow> s)))"

definition onSocketData :: "config \<Rightarrow> string \<Rightarrow> session \<Rightarrow> session" where
  "onSocketData cfg d s =
     (if \<not> isClosed s \<and> readyState s = OPEN
      then (case wsSend cfg d s of (Some m, s1) \<Rightarrow> cleanup s1 | (None, s1) \<Rightarrow> s1)
      else s)"

definition onSocketEnd :: "config \<Rightarrow> session \<Rightarrow> session" where
  "onSocketEnd cfg s =
     (if \<not> isClosed s then cleanup (snd (wsSend cfg ''CLOSE'' s)) else s)"

datatype event =
    Message string bool        \<comment> \<open>the WebSocket's \<open>message\<close>: the characters of the String or the
                                    bytes of the \<open>Buffer\<close>, and whether it is a \<open>Buffer\<close>\<close>
  | ClientClose                \<comment> \<open>the WebSocket's \<open>close\<close>\<close>
  | ClientError                \<comment> \<open>the WebSocket's \<open>error\<close>\<close>
  | ResolveSettled nat resolved  \<comment> \<open>the \<open>resolveDoH\<close> that call \<open>tid\<close> awaits settles\<close>
  | SocketConnect nat          \<comment> \<open>a socket's \<open>connect\<close>\<close>
  | SocketError nat string     \<comment> \<open>a socket's \<open>error\<close>; Node has destroyed the socket\<close>
  | SocketData nat string      \<comment> \<open>a socket's \<open>data\<close>\<close>
  | SocketEnd nat              \<comment> \<open>a socket's \<open>end\<close>\<close>
  | SocketClosed nat           \<comment> \<open>a socket was closed by Node; no listener\<close>

definition listeners :: "session \<Rightarrow> nat \<Rightarrow> nat" where
  \<comment> \<open>how many listeners of one kind \<open>pumpRemoteToWebSocket\<close> has registered on a socket\<close>
  "listeners s sid = (if sid < length (sockets s) then pumps (sockets s ! sid) else 0)"

definition handle :: "config \<Rightarrow> event \<Rightarrow> session \<Rightarrow> session" where
  "handle cfg ev s =
     (case ev of
        Message d b \<Rightarrow> onMessage cfg d b s
      | ClientClose \<Rightarrow> cleanup (s\<lparr>readyState := CLOSED\<rparr>)
      | ClientError \<Rightarrow> cleanup s
      | ResolveSettled tid r \<Rightarrow>
          if tid < length (tasks s) \<and> t_stage (tasks s ! tid) = AwaitResolve
          then resume cfg tid (AfterResolve r) s else s
      | SocketConnect sid \<Rightarrow>
          (case awaitingConnect s sid of
             [] \<Rightarrow> s
           | tid # _ \<Rightarrow> resume cfg tid (AfterConnect sid ConnectOk) s)
      | SocketError sid m \<Rightarrow>
          (let s1 = (cleanup ^^ listeners s sid) (markDestroyed sid s)
           in case awaitingConnect s1 sid of
                [] \<Rightarrow> s1
              | tid # _ \<Rightarrow> resume cfg tid (AfterConnect sid (ConnectError m)) s1)
      | SocketData sid d \<Rightarrow> (onSocketData cfg d ^^ listeners s sid) s
      | SocketEnd sid \<Rightarrow> (onSocketEnd cfg ^^ listeners s sid) s
      | SocketClosed sid \<Rightarrow> markDestroyed sid s)"

definition run :: "config \<Rightarrow> event list \<Rightarrow> session \<Rightarrow> session" where
  "run cfg evs s = foldl (\<lambda>st ev. handle cfg ev st) s evs"

subsection \<open>Vocabulary for the properties\<close>

definition candidate :: "config \<Rightarrow> address \<Rightarrow> nat \<Rightarrow> string" where
  \<comment> \<open>\<open>targetHost\<close> in iteration \<open>j\<close>\<close>
  "candidate cfg a j = orElse (attempts cfg ! j) (host a)"

definition dialHost :: "config \<Rightarrow> dial_env \<Rightarrow> address \<Rightarrow> nat \<Rightarrow> string" where
  \<comment> \<open>\<open>resolvedHost\<close> in iteration \<open>j\<close>, once the resolver has answered\<close>
  "dialHost cfg env a j =
     (if doh cfg \<and> \<not> net_isIP cfg (candidate cfg a j)
      then (case resolution_of env j of
              Settled (ResolvedTo x) \<Rightarrow> x
            | _ \<Rightarrow> candidate cfg a j)
      else candidate cfg a j)"

fun dialed :: "effect list \<Rightarrow> (string \<times> int option) list" where
  \<comment> \<open>the calls of \<open>net.connect\<close> in a trace\<close>
  "dialed [] = []"
| "dialed (NetConnect h p # es) = (h, p) # dialed es"
| "dialed (e # es) = dialed es"

datatype outcome = Waits | Fails string | Succeeds

definition attemptOutcome ::
  "config \<Rightarrow> dial_env \<Rightarrow> address \<Rightarrow> ready_state \<Rightarrow> nat \<Rightarrow> outcome" where
  \<comment> \<open>what the environment makes of attempt \<open>j\<close> when nothing else runs in between:
      an awaited promise stays pending, the attempt fails with an error (raised by
      \<open>net.connect\<close>, emitted by the socket, or raised by \<open>send\<close> on a WebSocket in state
      \<open>rs\<close>), or it succeeds\<close>
  "attemptOutcome cfg env a rs j =
     (if doh cfg \<and> \<not> net_isIP cfg (candidate cfg a j) \<and> resolution_of env j = Pending
      then Waits
      else (case connectThrows cfg (dialHost cfg env a j) (port a) of
              Some m \<Rightarrow> Fails m
            | None \<Rightarrow>
                (case connection_of env j of
                   Pending \<Rightarrow> Waits
                 | Settled (ConnectError m) \<Rightarrow> Fails m
                 | Settled ConnectOk \<Rightarrow>
                     if rs = OPEN \<or> (rs \<noteq> CONNECTING \<and> \<not> sendThrows cfg) then Succeeds
                     else Fails (wsNotOpenMessage rs))))"

definition othersDestroyed :: "nat \<Rightarrow> session \<Rightarrow> bool" where
  \<comment> \<open>every socket with index \<open>L\<close> or more, other than the one in \<open>remoteSocket\<close>, is destroyed\<close>
  "othersDestroyed L s =
     (\<forall>k. L \<le> k \<and> k < length (sockets s) \<and> remoteSocket s \<noteq> Some k
          \<longrightarrow> destroyed (sockets s ! k))"

definition entryOk :: "nat \<Rightarrow> point \<Rightarrow> session \<Rightarrow> bool" where
  \<comment> \<open>before \<open>net.connect\<close>, \<open>remoteSocket\<close> holds no socket with index \<open>L\<close> or more\<close>
  "entryOk L p s =
     (case p of
        AfterConnect k c \<Rightarrow> True
      | Caught m \<Rightarrow> True
      | _ \<Rightarrow> (\<forall>k. remoteSocket s = Some k \<longrightarrow> k < L))"

definition singleDial :: "session \<Rightarrow> bool" where
  \<comment> \<open>every socket is destroyed, except the one in \<open>remoteSocket\<close>, and \<open>remoteSocket\<close> holds
      none before the first Connect-request and while a dial awaits the resolver\<close>
  "singleDial s =
     (othersDestroyed 0 s \<and>
      (tasks s = [] \<longrightarrow> remoteSocket s = None) \<and>
      (\<forall>tid < length (tasks s).
         t_stage (tasks s ! tid) = AwaitResolve \<longrightarrow> remoteSocket s = None))"

fun destroys :: "effect list \<Rightarrow> nat list" where
  \<comment> \<open>the sockets on which \<open>destroy\<close> was called, in the order of the calls\<close>
  "destroys [] = []"
| "destroys (SockDestroy k # es) = k # destroys es"
| "destroys (e # es) = destroys es"

definition socketsAccounted :: "session \<Rightarrow> bool" where
  \<comment> \<open>no socket was destroyed twice, only sockets of the store were destroyed, and
      \<open>remoteSocket\<close> holds a socket of the store on which \<open>destroy\<close> was not called\<close>
  "socketsAccounted s =
     (distinct (destroys (trace s)) \<and>
      (\<forall>k \<in> set (destroys (trace s)). k < length (sockets s)) \<and>
      (\<forall>k. remoteSocket s = Some k
           \<longrightarrow> k < length (sockets s) \<and> k \<notin> set (destroys (trace s))))"

fun afterClosed :: "effect list \<Rightarrow> effect list" where
  \<comment> \<open>the part of a trace after the first \<open>isClosed = true\<close>\<close>
  "afterClosed [] = []"
| "afterClosed (e # es) = (if e = MarkClosed then es else afterClosed es)"

subsection \<open>Example configurations\<close>

definition exampleConfig :: "bool \<Rightarrow> string list \<Rightarrow> bool \<Rightarrow> config" where
  \<comment> \<open>the variant, the fallback list and the behaviour of \<open>send\<close>; \<open>net.isIP\<close> is cut
      down to the two literals the examples use, and \<open>net.connect\<close> never raises\<close>
  "exampleConfig secondVariant fallbacks throwing =
     \<lparr>doh = secondVariant, CF_FALLBACK_IPS = fallbacks,
      net_isIP = (\<lambda>h. h = ''93.184.216.34'' \<or> h = ''203.0.113.5''),
      connectThrows = (\<lambda>h p. None), sendThrows = throwing\<rparr>"

definition streamingExample :: session where
  \<comment> \<open>a session of the first variant after its dial succeeded\<close>
  "streamingExample =
     run (exampleConfig False [] True)
       [Message ''CONNECT:93.184.216.34:80|'' False, SocketConnect 0] initialSession"

definition resolvingExample :: session where
  \<comment> \<open>a session of the second variant whose dial awaits the resolver\<close>
  "resolvingExample =
     handle (exampleConfig True [] True) (Message ''CONNECT:example.com:80|hello'' False)
       initialSession"

definition portCheckedConfig :: config where
  \<comment> \<open>the first variant with no fallback, where \<open>net.connect\<close> raises at once for a port
      that is \<open>NaN\<close> or outside 0..65535; the text stands for Node's message\<close>
  "portCheckedConfig =
     \<lparr>doh = False, CF_FALLBACK_IPS = [],
      net_isIP = (\<lambda>h. h = ''93.184.216.34'' \<or> h = ''203.0.113.5''),
      connectThrows =
        (\<lambda>h p. case p of
                 None \<Rightarrow> Some ''Port should be >= 0 and < 65536''
               | Some n \<Rightarrow>
                   if 0 \<le> n \<and> n < 65536 then None else Some ''Port should be >= 0 and < 65536''),
      sendThrows = True\<rparr>"

section \<open>Properties of address parsing\<close>

lemma takeWhile_upto:
  "c \<notin> set h \<Longrightarrow> takeWhile (\<lambda>x. x \<noteq> c) (h @ c # r) = h"
  by (induction h) auto

lemma indexOf_first:
  "c \<notin> set h \<Longrightarrow> indexOf (h @ c # r) c 0 = int (length h)"
  by (simp add: indexOf_def takeWhile_upto Let_def)

lemma lastIndexOf_last:
  "c \<notin> set p \<Longrightarrow> lastIndexOf (h @ c # p) c = int (length h)"
  by (simp add: lastIndexOf_def takeWhile_upto Let_def)

lemma substring_prefix:
  "substring (h @ r) 0 (int (length h)) = h"
  by (simp add: substring_def clampIndex_def Let_def)

lemma substring_mid:
  "substring (c # h @ r) 1 (int (length h) + 1) = h"
  by (simp add: substring_def clampIndex_def Let_def)

lemma substringFrom_suffix:
  "substringFrom (h @ r) (int (length h)) = r"
  by (simp add: substringFrom_def substring_def clampIndex_def Let_def)

lemma parseAddress_bracket:
  assumes "CHR '']'' \<notin> set h"
  shows "parseAddress (''['' @ h @ '']:'' @ p) = \<lparr>host = h, port = parseInt p\<rparr>"
proof -
  let ?a = "''['' @ h @ '']:'' @ p"
  have e: "indexOf ?a CHR '']'' 0 = int (length h) + 1"
    using indexOf_first [of "CHR '']''" "CHR ''['' # h" "CHR '':'' # p"] assms by simp
  have h: "substring ?a 1 (int (length h) + 1) = h"
    using substring_mid [of "CHR ''[''" h "'']:'' @ p"] by simp
  have p: "substringFrom ?a (int (length h) + 1 + 2) = p"
    using substringFrom_suffix [of "''['' @ h @ '']:''" p] by (simp add: add.commute)
  show ?thesis
    unfolding parseAddress_def Let_def e h p by simp
qed

lemma parseAddress_plain:
  assumes "CHR '':'' \<notin> set p" and "h = [] \<or> hd h \<noteq> CHR ''[''"
  shows "parseAddress (h @ '':'' @ p) = \<lparr>host = h, port = parseInt p\<rparr>"
proof -
  let ?a = "h @ '':'' @ p"
  have nb: "\<not> (?a \<noteq> [] \<and> hd ?a = CHR ''['')"
    using assms(2) by (cases h) auto
  have e: "lastIndexOf ?a CHR '':'' = int (length h)"
    using lastIndexOf_last [of "CHR '':''" p h] assms(1) by simp
  have hh: "substring ?a 0 (int (length h)) = h"
    using substring_prefix [of h "'':'' @ p"] by simp
  have pp: "substringFrom ?a (int (length h) + 1) = p"
    using substringFrom_suffix [of "h @ '':''" p] by (simp add: add.commute)
  show ?thesis
    unfolding parseAddress_def Let_def e hh pp using nb by simp
qed

text \<open>
  Claim C10. \<open>parseAddress\<close> maps \<open>"example.com:443"\<close> to host \<open>example.com\<close> and port 443,
  and \<open>"[::1]:8443"\<close> to host \<open>::1\<close> and port 8443. In general, for an address that begins
  with \<open>[\<close>, the host is the text between the brackets and the port is \<open>parseInt\<close> of what
  follows the closing bracket and the colon; for any other address the host is everything
  before the last colon and the port is \<open>parseInt\<close> of everything after it.
\<close>

theorem parseAddress_spec:
  "parseAddress ''example.com:443'' = \<lparr>host = ''example.com'', port = Some 443\<rparr> \<and>
   parseAddress ''[::1]:8443'' = \<lparr>host = ''::1'', port = Some 8443\<rparr> \<and>
   (CHR '']'' \<notin> set h1 \<longrightarrow>
      parseAddress (''['' @ h1 @ '']:'' @ p1) = \<lparr>host = h1, port = parseInt p1\<rparr>) \<and>
   (CHR '':'' \<notin> set p2 \<and> (h2 = [] \<or> hd h2 \<noteq> CHR ''['') \<longrightarrow>
      parseAddress (h2 @ '':'' @ p2) = \<lparr>host = h2, port = parseInt p2\<rparr>)"
proof -
  have "parseAddress ''example.com:443'' = \<lparr>host = ''example.com'', port = Some 443\<rparr>"
    by code_simp
  moreover have "parseAddress ''[::1]:8443'' = \<lparr>host = ''::1'', port = Some 8443\<rparr>"
    by code_simp
  ultimately show ?thesis
    using parseAddress_bracket [of h1 p1] parseAddress_plain [of p2 h2] by blast
qed

theorem parseAddress_spec_witness:
  "CHR '']'' \<notin> set ''2001:db8::7'' \<and>
   parseAddress (''['' @ ''2001:db8::7'' @ '']:'' @ ''8080'')
     = \<lparr>host = ''2001:db8::7'', port = parseInt ''8080''\<rparr> \<and>
   CHR '':'' \<notin> set ''80'' \<and> (''host.example'' = [] \<or> hd ''host.example'' \<noteq> CHR ''['') \<and>
   parseAddress (''host.example'' @ '':'' @ ''80'')
     = \<lparr>host = ''host.example'', port = parseInt ''80''\<rparr>"
  using parseAddress_spec [of "''2001:db8::7''" "''8080''" "''80''" "''host.example''"]
  by simp

section \<open>Properties of the name resolver\<close>

lemma tryDoH_cache_other:
  "tryDoHServers env srvs h r = (res, r') \<Longrightarrow> k \<noteq> h \<Longrightarrow> dnsCache r' k = dnsCache r k"
  by (induction srvs arbitrary: r) (auto simp: Let_def cacheSet_def split: sum.splits if_splits)

lemma tryDoH_Some:
  "tryDoHServers env srvs h r = (Some a, r') \<Longrightarrow> dnsCache r' h = Some \<lparr>ip = a, timestamp = clock r'\<rparr>"
  by (induction srvs arbitrary: r) (auto simp: Let_def cacheSet_def split: sum.splits if_splits)

lemma tryDoH_lookups_prefix:
  "tryDoHServers env srvs h r = (res, r') \<Longrightarrow> \<exists>more. lookups r' = lookups r @ more"
proof (induction srvs arbitrary: r)
  case Nil
  then show ?case by simp
next
  case (Cons srv rest)
  let ?r1 = "r\<lparr>lookups := lookups r @ [DoHQuery srv h],
                 clock := clock r + int (doh_latency env srv h)\<rparr>"
  from Cons.prems have "(\<exists>a. res = Some a \<and> r' = cacheSet h a ?r1) \<or> tryDoHServers env rest h ?r1 = (res, r')"
    by (auto simp: Let_def split: sum.splits if_splits)
  then show ?case
  proof
    assume "\<exists>a. res = Some a \<and> r' = cacheSet h a ?r1"
    then show ?thesis by (auto simp: cacheSet_def)
  next
    assume "tryDoHServers env rest h ?r1 = (res, r')"
    from Cons.IH [OF this] show ?thesis by auto
  qed
qed

lemma tryDoH_first_lookup:
  assumes "tryDoHServers env (srv # rest) h r = (res, r')"
  shows "take (Suc (length (lookups r))) (lookups r') = lookups r @ [DoHQuery srv h]"
proof -
  let ?r1 = "r\<lparr>lookups := lookups r @ [DoHQuery srv h],
                 clock := clock r + int (doh_latency env srv h)\<rparr>"
  from assms have "(\<exists>a. res = Some a \<and> r' = cacheSet h a ?r1) \<or> tryDoHServers env rest h ?r1 = (res, r')"
    by (auto simp: Let_def split: sum.splits if_splits)
  then have "\<exists>more. lookups r' = lookups ?r1 @ more"
    by (auto simp: cacheSet_def dest!: tryDoH_lookups_prefix)
  then show ?thesis by auto
qed

lemma systemDNS_lookups_prefix:
  "systemDNS env h r = (res, r') \<Longrightarrow> \<exists>more. lookups r' = lookups r @ more"
  by (auto simp: systemDNS_def Let_def cacheSet_def split: option.splits list.splits)

lemma resolveDoH_hit:
  assumes "dnsCache r h = Some \<lparr>ip = a, timestamp = T\<rparr>" and "clock r - T < DNS_CACHE_TTL"
  shows "resolveDoH isIP env h r = (Inr a, r)"
  using assms by (simp add: resolveDoH_def)

lemma resolveDoH_stale_first_lookup:
  assumes "dnsCache r h = Some \<lparr>ip = a, timestamp = T\<rparr>" and "DNS_CACHE_TTL \<le> clock r - T"
    and "\<not> isIP h"
  shows "take (Suc (length (lookups r))) (lookups (snd (resolveDoH isIP env h r)))
           = lookups r @ [DoHQuery ''https://dns.google/dns-query'' h]"
proof -
  obtain res r1 where t: "tryDoHServers env DOH_SERVERS h r = (res, r1)"
    by (cases "tryDoHServers env DOH_SERVERS h r")
  then have f: "take (Suc (length (lookups r))) (lookups r1) = lookups r @ [DoHQuery ''https://dns.google/dns-query'' h]"
    using tryDoH_first_lookup unfolding DOH_SERVERS_def by blast
  show ?thesis
  proof (cases res)
    case (Some b)
    with assms t f show ?thesis by (simp add: resolveDoH_def)
  next
    case None
    obtain res2 r2 where s: "systemDNS env h r1 = (res2, r2)" by (cases "systemDNS env h r1")
    then obtain more where "lookups r2 = lookups r1 @ more"
      using systemDNS_lookups_prefix by blast
    moreover have "length (lookups r1) \<ge> Suc (length (lookups r))"
      using f by (metis length_append_singleton length_take min.cobounded1)
    ultimately have "take (Suc (length (lookups r))) (lookups r2) = take (Suc (length (lookups r))) (lookups r1)"
      by simp
    with assms t f None s show ?thesis by (simp add: resolveDoH_def)
  qed
qed

lemma tryDoH_cache_irrelevant:
  "tryDoHServers env srvs h (r\<lparr>dnsCache := c\<rparr>) =
     (case tryDoHServers env srvs h r of
        (res, r') \<Rightarrow>
          (res, r'\<lparr>dnsCache := (case res of
                                    Some a \<Rightarrow> c(h \<mapsto> \<lparr>ip = a, timestamp = clock r'\<rparr>)
                                  | None \<Rightarrow> c)\<rparr>))"
proof (induction srvs arbitrary: r)
  case Nil
  show ?case by simp
next
  case (Cons srv rest)
  let ?r1 = "r\<lparr>lookups := lookups r @ [DoHQuery srv h],
                 clock := clock r + int (doh_latency env srv h)\<rparr>"
  have eq: "r\<lparr>dnsCache := c, lookups := lookups r @ [DoHQuery srv h],
                 clock := clock r + int (doh_latency env srv h)\<rparr> = ?r1\<lparr>dnsCache := c\<rparr>"
    by simp
  show ?case
    using Cons.IH [of ?r1]
    by (cases "queryDoH env srv h") (simp_all add: Let_def cacheSet_def eq del: resolver.simps)
qed

lemma systemDNS_cache_irrelevant:
  "fst (systemDNS env h (r\<lparr>dnsCache := c\<rparr>)) = fst (systemDNS env h r) \<and>
   lookups (snd (systemDNS env h (r\<lparr>dnsCache := c\<rparr>))) = lookups (snd (systemDNS env h r))"
  by (simp add: systemDNS_def Let_def cacheSet_def split: option.splits list.splits)

lemma resolveDoH_stale_as_absent:
  assumes "dnsCache r h = Some \<lparr>ip = a, timestamp = T\<rparr>" and "DNS_CACHE_TTL \<le> clock r - T"
  shows "fst (resolveDoH isIP env h r)
           = fst (resolveDoH isIP env h (r\<lparr>dnsCache := (dnsCache r)(h := None)\<rparr>)) \<and>
         lookups (snd (resolveDoH isIP env h r))
           = lookups (snd (resolveDoH isIP env h (r\<lparr>dnsCache := (dnsCache r)(h := None)\<rparr>)))"
proof -
  obtain res r1 where t: "tryDoHServers env DOH_SERVERS h r = (res, r1)"
    by (cases "tryDoHServers env DOH_SERVERS h r")
  show ?thesis
    using assms t systemDNS_cache_irrelevant [where env = env and h = h and r = r1]
    by (cases res) (simp_all add: resolveDoH_def tryDoH_cache_irrelevant)
qed


lemma systemDNS_cache_other:
  "systemDNS env h r = (res, r') \<Longrightarrow> k \<noteq> h \<Longrightarrow> dnsCache r' k = dnsCache r k"
  by (auto simp: systemDNS_def Let_def cacheSet_def split: option.splits list.splits)

lemma resolveDoH_cache_other:
  assumes "resolveDoH isIP env h r = (res, r')" and "k \<noteq> h"
  shows "dnsCache r' k = dnsCache r k"
proof -
  obtain o1 r1 where t: "tryDoHServers env DOH_SERVERS h r = (o1, r1)"
    by (cases "tryDoHServers env DOH_SERVERS h r")
  from assms(1) have "r' = r \<or> (\<exists>a. r' = r1) \<or> systemDNS env h r1 = (res, r')"
    using t by (auto simp: resolveDoH_def split: option.splits if_splits)
  then show ?thesis
    using tryDoH_cache_other [OF t assms(2)] systemDNS_cache_other [OF _ assms(2)] by auto
qed

lemma resolveDoH_literal:
  "isIP h \<Longrightarrow> dnsCache r h = None \<Longrightarrow> resolveDoH isIP env h r = (Inr h, r)"
  by (simp add: resolveDoH_def)

lemma resolveDoH_keeps_literals_out:
  assumes "\<forall>k. isIP k \<longrightarrow> dnsCache r k = None"
  shows "\<forall>k. isIP k \<longrightarrow> dnsCache (snd (resolveDoH isIP env h r)) k = None"
proof (cases "isIP h")
  case True
  with assms show ?thesis by (simp add: resolveDoH_literal)
next
  case False
  obtain res r' where e: "resolveDoH isIP env h r = (res, r')"
    by (cases "resolveDoH isIP env h r")
  show ?thesis
  proof (intro allI impI)
    fix k assume k: "isIP k"
    with False have "k \<noteq> h" by auto
    from resolveDoH_cache_other [OF e this] assms k e
    show "dnsCache (snd (resolveDoH isIP env h r)) k = None" by simp
  qed
qed

lemma resolveAll_keeps_literals_out:
  "\<forall>k. isIP k \<longrightarrow> dnsCache r k = None \<Longrightarrow>
   \<forall>k. isIP k \<longrightarrow> dnsCache (resolveAll isIP calls r) k = None"
proof (induction calls arbitrary: r)
  case Nil
  then show ?case by simp
next
  case (Cons c cs)
  have "\<forall>k. isIP k \<longrightarrow> dnsCache (r\<lparr>clock := call_time c\<rparr>) k = None"
    using Cons.prems by simp
  from resolveDoH_keeps_literals_out [OF this]
  show ?case using Cons.IH by simp
qed

lemma resolveDoH_caches:
  assumes "resolveDoH isIP env h r = (Inr a, r')" and "lookups r' \<noteq> lookups r"
  shows "dnsCache r' h = Some \<lparr>ip = a, timestamp = clock r'\<rparr>"
proof -
  obtain o1 r1 where t: "tryDoHServers env DOH_SERVERS h r = (o1, r1)"
    by (cases "tryDoHServers env DOH_SERVERS h r")
  from assms have "(o1 = Some a \<and> r' = r1) \<or> (o1 = None \<and> systemDNS env h r1 = (Inr a, r'))"
    using t by (auto simp: resolveDoH_def split: option.splits if_splits)
  then show ?thesis
    using tryDoH_Some t
    by (auto simp: systemDNS_def Let_def cacheSet_def split: option.splits list.splits)
qed

text \<open>
  Claim C5. For every host name \<open>h\<close> that is not a literal IP address and whose
  resolution was cached with timestamp \<open>T\<close>: a call of the resolver at time
  \<open>T + TTL - \<epsilon>\<close> (\<open>TTL\<close> is 5 minutes, \<open>\<epsilon> > 0\<close>) returns the cached address and
  leaves the state as it was, so no DoH query and no system lookup is issued; a call at
  time \<open>T + TTL + \<epsilon>\<close> issues a DoH query to the first server next, and its result and
  its outbound calls are those of the same call with the entry removed from the cache.
\<close>

theorem cache_ttl:
  assumes "dnsCache r h = Some \<lparr>ip = a, timestamp = T\<rparr>" and "0 < \<epsilon>"
  shows "DNS_CACHE_TTL = 5 * 60 * 1000 \<and>
         (clock r = T + DNS_CACHE_TTL - \<epsilon> \<longrightarrow> resolveDoH isIP env h r = (Inr a, r)) \<and>
         (clock r = T + DNS_CACHE_TTL + \<epsilon> \<and> \<not> isIP h \<longrightarrow>
            take (Suc (length (lookups r))) (lookups (snd (resolveDoH isIP env h r)))
              = lookups r @ [DoHQuery (hd DOH_SERVERS) h] \<and>
            fst (resolveDoH isIP env h r)
              = fst (resolveDoH isIP env h (r\<lparr>dnsCache := (dnsCache r)(h := None)\<rparr>)) \<and>
            lookups (snd (resolveDoH isIP env h r))
              = lookups (snd (resolveDoH isIP env h (r\<lparr>dnsCache := (dnsCache r)(h := None)\<rparr>))))"
proof (intro conjI impI)
  show "DNS_CACHE_TTL = 5 * 60 * 1000" by (simp add: DNS_CACHE_TTL_def)
next
  assume "clock r = T + DNS_CACHE_TTL - \<epsilon>"
  with assms(2) have "clock r - T < DNS_CACHE_TTL" by simp
  with assms(1) show "resolveDoH isIP env h r = (Inr a, r)" by (rule resolveDoH_hit)
next
  assume c: "clock r = T + DNS_CACHE_TTL + \<epsilon> \<and> \<not> isIP h"
  with assms(2) have s: "DNS_CACHE_TTL \<le> clock r - T" by simp
  from resolveDoH_stale_first_lookup [OF assms(1) s] c
  show "take (Suc (length (lookups r))) (lookups (snd (resolveDoH isIP env h r)))
          = lookups r @ [DoHQuery (hd DOH_SERVERS) h]"
    by (simp add: DOH_SERVERS_def)
  from resolveDoH_stale_as_absent [OF assms(1) s]
  show "fst (resolveDoH isIP env h r)
          = fst (resolveDoH isIP env h (r\<lparr>dnsCache := (dnsCache r)(h := None)\<rparr>))"
    and "lookups (snd (resolveDoH isIP env h r))
          = lookups (snd (resolveDoH isIP env h (r\<lparr>dnsCache := (dnsCache r)(h := None)\<rparr>)))"
    by simp_all
qed

text \<open>
  Claim C9. For every host name that is a literal IP address, in every cache state
  reached from the empty cache by any history of resolver calls, and at any time,
  \<open>resolveDoH\<close> returns the host name unchanged and leaves the state, and so the log of
  outbound calls, as it was.
\<close>

theorem literal_ip_bypass:
  assumes "isIP h"
  shows "resolveDoH isIP env h ((resolveAll isIP calls (initialResolver t0))\<lparr>clock := t\<rparr>)
           = (Inr h, (resolveAll isIP calls (initialResolver t0))\<lparr>clock := t\<rparr>)"
proof -
  have "\<forall>k. isIP k \<longrightarrow> dnsCache (initialResolver t0) k = None"
    by (simp add: initialResolver_def)
  from resolveAll_keeps_literals_out [OF this]
  have "dnsCache ((resolveAll isIP calls (initialResolver t0))\<lparr>clock := t\<rparr>) h = None"
    using assms by simp
  with assms show ?thesis by (rule resolveDoH_literal)
qed

theorem cache_ttl_witness:
  "dnsCache
     \<lparr>dnsCache = [''example.com'' \<mapsto> \<lparr>ip = ''93.184.216.34'', timestamp = 1000\<rparr>],
      clock = 300999, lookups = []\<rparr> ''example.com''
     = Some \<lparr>ip = ''93.184.216.34'', timestamp = 1000\<rparr> \<and>
   (0::int) < 1 \<and>
   (300999::int) = 1000 + DNS_CACHE_TTL - 1 \<and>
   resolveDoH (\<lambda>h. h = ''203.0.113.5'')
     \<lparr>doh_response_of = (\<lambda>s h. RequestTimeout), doh_latency = (\<lambda>s h. 5000),
      resolve4 = (\<lambda>h. None), resolve4_latency = (\<lambda>h. 3)\<rparr>
     ''example.com''
     \<lparr>dnsCache = [''example.com'' \<mapsto> \<lparr>ip = ''93.184.216.34'', timestamp = 1000\<rparr>],
      clock = 300999, lookups = []\<rparr>
     = (Inr ''93.184.216.34'',
        \<lparr>dnsCache = [''example.com'' \<mapsto> \<lparr>ip = ''93.184.216.34'', timestamp = 1000\<rparr>],
         clock = 300999, lookups = []\<rparr>) \<and>
   (301001::int) = 1000 + DNS_CACHE_TTL + 1 \<and>
   \<not> (''example.com'' = ''203.0.113.5'') \<and>
   take (Suc 0) (lookups (snd (resolveDoH (\<lambda>h. h = ''203.0.113.5'')
     \<lparr>doh_response_of = (\<lambda>s h. RequestTimeout), doh_latency = (\<lambda>s h. 5000),
      resolve4 = (\<lambda>h. None), resolve4_latency = (\<lambda>h. 3)\<rparr>
     ''example.com''
     \<lparr>dnsCache = [''example.com'' \<mapsto> \<lparr>ip = ''93.184.216.34'', timestamp = 1000\<rparr>],
      clock = 301001, lookups = []\<rparr>)))
     = [DoHQuery ''https://dns.google/dns-query'' ''example.com'']"
proof -
  let ?isIP = "\<lambda>h. h = ''203.0.113.5''"
  let ?env = "\<lparr>doh_response_of = (\<lambda>s h. RequestTimeout), doh_latency = (\<lambda>s h. 5000),
      resolve4 = (\<lambda>h. None), resolve4_latency = (\<lambda>h. 3)\<rparr>"
  let ?cache = "[''example.com'' \<mapsto> \<lparr>ip = ''93.184.216.34'', timestamp = 1000\<rparr>]"
  let ?early = "\<lparr>dnsCache = ?cache, clock = 300999, lookups = []\<rparr>"
  let ?late = "\<lparr>dnsCache = ?cache, clock = 301001, lookups = []\<rparr>"
  have pos: "(0::int) < 1" by simp
  have e: "dnsCache ?early ''example.com'' = Some \<lparr>ip = ''93.184.216.34'', timestamp = 1000\<rparr>"
    by simp
  have l: "dnsCache ?late ''example.com'' = Some \<lparr>ip = ''93.184.216.34'', timestamp = 1000\<rparr>"
    by simp
  have te: "clock ?early = 1000 + DNS_CACHE_TTL - 1"
    by (simp add: DNS_CACHE_TTL_def)
  have tl: "clock ?late = 1000 + DNS_CACHE_TTL + 1 \<and> \<not> ?isIP ''example.com''"
    by (simp add: DNS_CACHE_TTL_def)
  have hit: "resolveDoH ?isIP ?env ''example.com'' ?early = (Inr ''93.184.216.34'', ?early)"
    using cache_ttl [OF e pos, where isIP = ?isIP and env = ?env] te by blast
  have "take (Suc (length (lookups ?late)))
          (lookups (snd (resolveDoH ?isIP ?env ''example.com'' ?late)))
        = lookups ?late @ [DoHQuery (hd DOH_SERVERS) ''example.com'']"
    using cache_ttl [OF l pos, where isIP = ?isIP and env = ?env] tl by blast
  then have miss: "take (Suc 0) (lookups (snd (resolveDoH ?isIP ?env ''example.com'' ?late)))
        = [DoHQuery ''https://dns.google/dns-query'' ''example.com'']"
    by (simp add: DOH_SERVERS_def)
  show ?thesis
    using hit miss by (simp add: DNS_CACHE_TTL_def)
qed

theorem literal_ip_bypass_witness:
  "(\<lambda>h. h = ''203.0.113.5'') ''203.0.113.5'' \<and>
   resolveDoH (\<lambda>h. h = ''203.0.113.5'')
     \<lparr>doh_response_of = (\<lambda>s h. RequestTimeout), doh_latency = (\<lambda>s h. 5000),
      resolve4 = (\<lambda>h. None), resolve4_latency = (\<lambda>h. 3)\<rparr>
     ''203.0.113.5''
     ((resolveAll (\<lambda>h. h = ''203.0.113.5'')
        [\<lparr>call_env = \<lparr>doh_response_of = (\<lambda>s h. Answers [(1, ''93.184.216.34'')]),
                       doh_latency = (\<lambda>s h. 40),
                       resolve4 = (\<lambda>h. None), resolve4_latency = (\<lambda>h. 3)\<rparr>,
          call_time = 10, call_hostname = ''example.com''\<rparr>]
        (initialResolver 0))\<lparr>clock := 77\<rparr>)
     = (Inr ''203.0.113.5'',
        \<lparr>dnsCache = [''example.com'' \<mapsto> \<lparr>ip = ''93.184.216.34'', timestamp = 50\<rparr>],
         clock = 77,
         lookups = [DoHQuery ''https://dns.google/dns-query'' ''example.com'']\<rparr>)"
  using
    literal_ip_bypass [where isIP = "\<lambda>h. h = ''203.0.113.5''" and h = "''203.0.113.5''"
      and env = "\<lparr>doh_response_of = (\<lambda>s h. RequestTimeout), doh_latency = (\<lambda>s h. 5000),
        resolve4 = (\<lambda>h. None), resolve4_latency = (\<lambda>h. 3)\<rparr>"
      and ?t0.0 = 0 and t = 77 and calls = "[\<lparr>call_env = \<lparr>doh_response_of = (\<lambda>s h. Answers [(1, ''93.184.216.34'')]),
                       doh_latency = (\<lambda>s h. 40),
                       resolve4 = (\<lambda>h. None), resolve4_latency = (\<lambda>h. 3)\<rparr>,
          call_time = 10, call_hostname = ''example.com''\<rparr>]"]
  by (simp add: resolveDoH_def DOH_SERVERS_def initialResolver_def Let_def queryDoH_def
      cacheSet_def)

section \<open>Properties of the dial loop\<close>


lemma emit_simps [simp]:
  "trace (emit e s) = trace s @ [e]" "isClosed (emit e s) = isClosed s"
  "remoteSocket (emit e s) = remoteSocket s" "sockets (emit e s) = sockets s"
  "readyState (emit e s) = readyState s" "tasks (emit e s) = tasks s"
  by (simp_all add: emit_def)

lemma markDestroyed_simps [simp]:
  "trace (markDestroyed k s) = trace s" "isClosed (markDestroyed k s) = isClosed s"
  "remoteSocket (markDestroyed k s) = remoteSocket s"
  "readyState (markDestroyed k s) = readyState s" "tasks (markDestroyed k s) = tasks s"
  "length (sockets (markDestroyed k s)) = length (sockets s)"
  by (simp_all add: markDestroyed_def)

lemma dialed_append [simp]: "dialed (xs @ ys) = dialed xs @ dialed ys"
  by (induction xs rule: dialed.induct) simp_all

lemma releaseRemote_simps [simp]:
  "isClosed (releaseRemote s) = isClosed s" "remoteSocket (releaseRemote s) = None"
  "readyState (releaseRemote s) = readyState s" "tasks (releaseRemote s) = tasks s"
  "length (sockets (releaseRemote s)) = length (sockets s)"
  "dialed (trace (releaseRemote s)) = dialed (trace s)"
  by (simp_all add: releaseRemote_def split: option.splits)

lemma connectedPath_ok:
  assumes "remoteSocket s = Some k" "readyState s = OPEN \<or> (readyState s \<noteq> CONNECTING \<and> \<not> sendThrows cfg)"
  shows "connectedPath cfg first s =
     (None, s\<lparr>trace := trace s @ (if first \<noteq> [] then [SockWrite k first] else []) @ [WsSend ''CONNECTED''],
              sockets := (sockets s)[k := (sockets s ! k)\<lparr>pumps := Suc (pumps (sockets s ! k))\<rparr>]\<rparr>)"
  using assms
  by (auto simp: connectedPath_def remoteWrite_def wsSend_def pumpRemoteToWebSocket_def emit_def)

lemma connectedPath_fail:
  assumes "remoteSocket s = Some k" "\<not> (readyState s = OPEN \<or> (readyState s \<noteq> CONNECTING \<and> \<not> sendThrows cfg))"
  shows "connectedPath cfg first s =
     (Some (wsNotOpenMessage (readyState s)), s\<lparr>trace := trace s @ (if first \<noteq> [] then [SockWrite k first] else []) @ [WsSend ''CONNECTED'']\<rparr>)"
  using assms
  by (auto simp: connectedPath_def remoteWrite_def wsSend_def pumpRemoteToWebSocket_def emit_def)


declare dial.simps [simp del]

lemmas dial_inner = dial.simps(2-6)

lemma attempts_length [simp]: "length (attempts cfg) = Suc (length (CF_FALLBACK_IPS cfg))"
  by (simp add: attempts_def)

lemma iter_waits:
  assumes "j < length (attempts cfg)"
    and "attemptOutcome cfg env a (readyState s) j = Waits"
  shows "\<exists>st s'. dial cfg env a first j Top s = (Suspended j st, s') \<and>
           (dialed (trace s') = dialed (trace s) \<or>
            dialed (trace s') = dialed (trace s) @ [(dialHost cfg env a j, port a)])"
  using assms
  apply (subst dial.simps(1))
  apply (auto simp: attemptOutcome_def dialHost_def candidate_def Let_def dial_inner
      connectedPath_ok connectedPath_fail
      split: if_splits option.splits awaited.splits connected.splits resolved.splits)
  done

lemma iter_succeeds:
  assumes "j < length (attempts cfg)"
    and "attemptOutcome cfg env a (readyState s) j = Succeeds"
  shows "dial cfg env a first j Top s =
     (Returned,
      s\<lparr>trace := trace s @
           (if doh cfg \<and> \<not> net_isIP cfg (candidate cfg a j) then [Resolve (candidate cfg a j)] else []) @
           [NetConnect (dialHost cfg env a j) (port a)] @
           (if first \<noteq> [] then [SockWrite (length (sockets s)) first] else []) @
           [WsSend ''CONNECTED''],
         sockets := sockets s @
           [\<lparr>peer_host = dialHost cfg env a j, peer_port = port a, destroyed = False, pumps = 1\<rparr>],
         remoteSocket := Some (length (sockets s))\<rparr>)"
  using assms
  apply (subst dial.simps(1))
  apply (auto simp: attemptOutcome_def dialHost_def candidate_def Let_def dial_inner
      connectedPath_ok emit_def
      split: if_splits option.splits awaited.splits connected.splits resolved.splits)
  done


lemma catch_step:
  "dial cfg env a first j (Caught m) s =
     (if \<not> isCFError m \<or> j = length (attempts cfg) - 1 then (Threw m, releaseRemote s)
      else dial cfg env a first (Suc j) Top (releaseRemote s))"
  by (simp add: dial.simps(6))

lemma iter_fails:
  assumes "j < length (attempts cfg)"
    and "attemptOutcome cfg env a (readyState s) j = Fails m"
  shows "\<exists>s1. dial cfg env a first j Top s =
            (if \<not> isCFError m \<or> j = length (attempts cfg) - 1 then (Threw m, s1)
             else dial cfg env a first (Suc j) Top s1) \<and>
          dialed (trace s1) = dialed (trace s) @ [(dialHost cfg env a j, port a)] \<and>
          readyState s1 = readyState s \<and> isClosed s1 = isClosed s \<and> tasks s1 = tasks s \<and>
          remoteSocket s1 = None"
proof -
  have "\<exists>s0. dial cfg env a first j Top s = dial cfg env a first j (Caught m) s0 \<and>
          dialed (trace s0) = dialed (trace s) @ [(dialHost cfg env a j, port a)] \<and>
          readyState s0 = readyState s \<and> isClosed s0 = isClosed s \<and> tasks s0 = tasks s"
    using assms
    apply (subst dial.simps(1))
    apply (auto simp: attemptOutcome_def dialHost_def candidate_def Let_def dial.simps(2-5)
      connectedPath_fail
      split: if_splits option.splits awaited.splits connected.splits resolved.splits)
    done
  then obtain s0 where s0: "dial cfg env a first j Top s = dial cfg env a first j (Caught m) s0"
      "dialed (trace s0) = dialed (trace s) @ [(dialHost cfg env a j, port a)]"
      "readyState s0 = readyState s" "isClosed s0 = isClosed s" "tasks s0 = tasks s"
    by blast
  show ?thesis
    apply (rule exI [of _ "releaseRemote s0"])
    using s0 by (simp add: catch_step)
qed


lemma retryable_prefix:
  assumes "i \<le> k" and "k < length (attempts cfg)"
    and "\<forall>j<k. \<exists>m. attemptOutcome cfg env a (readyState s) j = Fails m \<and> isCFError m"
  shows "\<exists>s1. dial cfg env a first i Top s = dial cfg env a first k Top s1 \<and>
           dialed (trace s1) = dialed (trace s) @ map (\<lambda>j. (dialHost cfg env a j, port a)) [i..<k] \<and>
           readyState s1 = readyState s \<and> isClosed s1 = isClosed s \<and> tasks s1 = tasks s \<and>
           (i < k \<longrightarrow> remoteSocket s1 = None)"
  using assms
proof (induction k)
  case 0
  then show ?case by auto
next
  case (Suc k)
  show ?case
  proof (cases "i = Suc k")
    case True
    then show ?thesis by auto
  next
    case False
    with Suc.prems have ik: "i \<le> k" "k < length (attempts cfg)" by simp_all
    from Suc.prems(3) have "\<forall>j<k. \<exists>m. attemptOutcome cfg env a (readyState s) j = Fails m \<and> isCFError m"
      by simp
    from Suc.IH [OF ik this]
    obtain s1 where s1: "dial cfg env a first i Top s = dial cfg env a first k Top s1"
      "dialed (trace s1) = dialed (trace s) @ map (\<lambda>j. (dialHost cfg env a j, port a)) [i..<k]"
      "readyState s1 = readyState s" "isClosed s1 = isClosed s" "tasks s1 = tasks s"
      by blast
    from Suc.prems(3) s1(3)
    obtain m where m: "attemptOutcome cfg env a (readyState s1) k = Fails m" "isCFError m"
      by auto
    from Suc.prems(2) have "k \<noteq> length (attempts cfg) - 1" by simp
    with iter_fails [OF ik(2) m(1), of first] m(2)
    obtain s2 where s2: "dial cfg env a first k Top s1 = dial cfg env a first (Suc k) Top s2"
      "dialed (trace s2) = dialed (trace s1) @ [(dialHost cfg env a k, port a)]"
      "readyState s2 = readyState s1" "isClosed s2 = isClosed s1" "tasks s2 = tasks s1"
      "remoteSocket s2 = None"
      by auto
    show ?thesis
      apply (rule exI [of _ s2])
      using s1 s2 ik(1) by simp
  qed
qed

lemma dial_succeeds_at:
  assumes "k < length (attempts cfg)"
    and "\<forall>j<k. \<exists>m. attemptOutcome cfg env a (readyState s) j = Fails m \<and> isCFError m"
    and "attemptOutcome cfg env a (readyState s) k = Succeeds"
  shows "\<exists>s'. dial cfg env a first 0 Top s = (Returned, s') \<and>
           dialed (trace s') = dialed (trace s) @ map (\<lambda>j. (dialHost cfg env a j, port a)) [0..<Suc k] \<and>
           remoteSocket s' = Some (length (sockets s') - 1) \<and>
           last (sockets s') =
             \<lparr>peer_host = dialHost cfg env a k, peer_port = port a, destroyed = False, pumps = 1\<rparr>"
proof -
  from retryable_prefix [OF _ assms(1,2), of 0 first]
  obtain s1 where s1: "dial cfg env a first 0 Top s = dial cfg env a first k Top s1"
      "dialed (trace s1) = dialed (trace s) @ map (\<lambda>j. (dialHost cfg env a j, port a)) [0..<k]"
      "readyState s1 = readyState s"
    by blast
  from assms(3) s1(3) have "attemptOutcome cfg env a (readyState s1) k = Succeeds" by simp
  from iter_succeeds [OF assms(1) this, of first] s1
  show ?thesis by auto
qed

lemma dial_fails_at:
  assumes "k < length (attempts cfg)"
    and "\<forall>j<k. \<exists>m. attemptOutcome cfg env a (readyState s) j = Fails m \<and> isCFError m"
    and "attemptOutcome cfg env a (readyState s) k = Fails m"
    and "\<not> isCFError m \<or> k = length (attempts cfg) - 1"
  shows "\<exists>s'. dial cfg env a first 0 Top s = (Threw m, s') \<and>
           dialed (trace s') = dialed (trace s) @ map (\<lambda>j. (dialHost cfg env a j, port a)) [0..<Suc k] \<and>
           remoteSocket s' = None"
proof -
  from retryable_prefix [OF _ assms(1,2), of 0 first]
  obtain s1 where s1: "dial cfg env a first 0 Top s = dial cfg env a first k Top s1"
      "dialed (trace s1) = dialed (trace s) @ map (\<lambda>j. (dialHost cfg env a j, port a)) [0..<k]"
      "readyState s1 = readyState s"
    by blast
  from assms(3) s1(3) have "attemptOutcome cfg env a (readyState s1) k = Fails m" by simp
  from iter_fails [OF assms(1) this, of first] assms(4) s1
  show ?thesis by auto
qed

lemma dial_prefix:
  "\<exists>k. i \<le> k \<and> k \<le> max i (length (attempts cfg)) \<and>
     dialed (trace (snd (dial cfg env a first i Top s)))
       = dialed (trace s) @ map (\<lambda>j. (dialHost cfg env a j, port a)) [i..<k]"
proof (induction "length (attempts cfg) - i" arbitrary: i s)
  case 0
  then have "length (attempts cfg) \<le> i" by simp
  then have "dial cfg env a first i Top s = (Returned, s)"
    by (subst dial.simps(1)) simp
  then show ?case by (intro exI [of _ i]) simp
next
  case (Suc d)
  then have lt: "i < length (attempts cfg)" by simp
  show ?case
  proof (cases "attemptOutcome cfg env a (readyState s) i")
    case Waits
    from iter_waits [OF lt Waits, of first]
    obtain st s' where w: "dial cfg env a first i Top s = (Suspended i st, s')"
      "dialed (trace s') = dialed (trace s) \<or>
       dialed (trace s') = dialed (trace s) @ [(dialHost cfg env a i, port a)]"
      by blast
    from w(2) show ?thesis
    proof
      assume "dialed (trace s') = dialed (trace s)"
      with w(1) show ?thesis by (intro exI [of _ i]) simp
    next
      assume "dialed (trace s') = dialed (trace s) @ [(dialHost cfg env a i, port a)]"
      with w(1) lt show ?thesis by (intro exI [of _ "Suc i"]) simp
    qed
  next
    case Succeeds
    from iter_succeeds [OF lt Succeeds, of first] lt
    show ?thesis by (intro exI [of _ "Suc i"]) simp
  next
    case (Fails m)
    from iter_fails [OF lt Fails, of first]
    obtain s1 where s1: "dial cfg env a first i Top s =
            (if \<not> isCFError m \<or> i = length (attempts cfg) - 1 then (Threw m, s1)
             else dial cfg env a first (Suc i) Top s1)"
      "dialed (trace s1) = dialed (trace s) @ [(dialHost cfg env a i, port a)]"
      by blast
    show ?thesis
    proof (cases "\<not> isCFError m \<or> i = length (attempts cfg) - 1")
      case True
      with s1 lt show ?thesis by (intro exI [of _ "Suc i"]) simp
    next
      case False
      have "d = length (attempts cfg) - Suc i" using Suc.hyps(2) by simp
      from Suc.hyps(1) [OF this, of s1]
      obtain k where k: "Suc i \<le> k" "k \<le> max (Suc i) (length (attempts cfg))"
        "dialed (trace (snd (dial cfg env a first (Suc i) Top s1)))
           = dialed (trace s1) @ map (\<lambda>j. (dialHost cfg env a j, port a)) [Suc i..<k]"
        by blast
      have "[i..<k] = i # [Suc i..<k]" using k(1) by (simp add: upt_conv_Cons)
      with False s1 k lt show ?thesis by (intro exI [of _ k]) (simp add: max_def)
    qed
  qed
qed

lemma releaseRemote_trace: "prefix (trace s) (trace (releaseRemote s))"
  by (simp add: releaseRemote_def split: option.splits)

lemma connectedPath_trace: "prefix (trace s) (trace (snd (connectedPath cfg first s)))"
  by (auto simp: connectedPath_def remoteWrite_def wsSend_def pumpRemoteToWebSocket_def emit_def
      split: option.splits prod.splits if_splits)

lemma dial_trace_extends:
  "prefix (trace s) (trace (snd (dial cfg env a first i p s)))"
proof (induction cfg env a first i p s rule: dial.induct)
  case (1 cfg env a first i s)
  then show ?case
    by (subst dial.simps(1)) (auto simp: Let_def split: awaited.splits dest: append_prefixD)
next
  case (2 cfg env a first i r s)
  then show ?case by (subst dial.simps(2)) (simp add: Let_def)
next
  case (3 cfg env a first i resolvedHost s)
  let ?s1 = "emit (NetConnect resolvedHost (port a)) s"
  show ?case
  proof (cases "connectThrows cfg resolvedHost (port a)")
    case (Some m)
    from 3(2) [OF Some]
    have "prefix (trace s) (trace (snd (dial cfg env a first i (Caught m) ?s1)))"
      by (auto dest: append_prefixD)
    with Some show ?thesis by (subst dial.simps(3)) simp
  next
    case None
    show ?thesis
    proof (cases "connection_of env i")
      case Pending
      with None show ?thesis by (subst dial.simps(3)) (simp add: Let_def)
    next
      case (Settled c)
      from 3(1) [OF None refl refl refl Settled]
      show ?thesis
        using None Settled by (subst dial.simps(3)) (auto simp: Let_def dest: append_prefixD)
    qed
  qed
next
  case (4 cfg env a first i sid s)
  show ?case
  proof (cases "connectedPath cfg first s")
    case (Pair r s1)
    with connectedPath_trace [of s cfg first] have p: "prefix (trace s) (trace s1)" by simp
    show ?thesis
    proof (cases r)
      case None
      with Pair p show ?thesis by (subst dial.simps(4)) simp
    next
      case (Some m)
      with 4 Pair
      have "prefix (trace s1) (trace (snd (dial cfg env a first i (Caught m) s1)))" by simp
      with p Some Pair show ?thesis
        by (subst dial.simps(4)) (auto intro: prefix_order.trans)
    qed
  qed
next
  case (5 cfg env a first i sid m s)
  then show ?case by (subst dial.simps(5)) simp
next
  case (6 cfg env a first i m s)
  show ?case
  proof (cases "\<not> isCFError m \<or> i = length (attempts cfg) - 1")
    case True
    then show ?thesis
      by (subst dial.simps(6)) (simp add: releaseRemote_trace del: attempts_length)
  next
    case False
    with 6 have "prefix (trace (releaseRemote s))
        (trace (snd (dial cfg env a first (i + 1) Top (releaseRemote s))))" by simp
    with False releaseRemote_trace [of s] show ?thesis
      by (subst dial.simps(6)) (auto simp del: attempts_length intro: prefix_order.trans)
  qed
qed

lemma dial_next_call:
  "take (Suc (length (trace s))) (trace (snd (dial cfg env a first i (Dial h) s)))
     = trace s @ [NetConnect h (port a)]"
proof -
  let ?s1 = "emit (NetConnect h (port a)) s"
  let ?s2 = "?s1\<lparr>sockets := sockets ?s1 @
                     [\<lparr>peer_host = h, peer_port = port a, destroyed = False, pumps = 0\<rparr>],
                   remoteSocket := Some (length (sockets ?s1))\<rparr>"
  have "prefix (trace s @ [NetConnect h (port a)])
          (trace (snd (dial cfg env a first i (Dial h) s)))"
  proof (cases "connectThrows cfg h (port a)")
    case (Some m)
    have "prefix (trace ?s1) (trace (snd (dial cfg env a first i (Caught m) ?s1)))"
      by (rule dial_trace_extends)
    with Some show ?thesis by (subst dial.simps(3)) simp
  next
    case None
    show ?thesis
    proof (cases "connection_of env i")
      case Pending
      with None show ?thesis by (subst dial.simps(3)) (simp add: Let_def)
    next
      case (Settled c)
      have "prefix (trace ?s2)
              (trace (snd (dial cfg env a first i (AfterConnect (length (sockets ?s1)) c) ?s2)))"
        by (rule dial_trace_extends)
      with None Settled show ?thesis by (subst dial.simps(3)) (simp add: Let_def)
    qed
  qed
  then show ?thesis
    by (auto simp: prefix_def)
qed

lemma dial_after_failed_resolution:
  "take (Suc (length (trace s)))
     (trace (snd (dial cfg env a first i (AfterResolve ResolveFailed) s)))
     = trace s @ [NetConnect (candidate cfg a i) (port a)]"
  by (subst dial.simps(2)) (simp add: Let_def candidate_def dial_next_call)

lemma candidate_0: "candidate cfg a 0 = host a"
  by (simp add: candidate_def attempts_def orElse_def)

lemma candidate_Suc:
  "j < length (CF_FALLBACK_IPS cfg) \<Longrightarrow>
   candidate cfg a (Suc j) =
     (if CF_FALLBACK_IPS cfg ! j = [] then host a else CF_FALLBACK_IPS cfg ! j)"
  by (simp add: candidate_def attempts_def orElse_def)

text \<open>
  Claim C2, as amended. For every dial with requested host \<open>H\<close>, port \<open>P\<close> and configured
  fallback list \<open>[F1, ..., Fn]\<close>, \<open>connectToRemote\<close> calls \<open>net.connect\<close> for the candidates
  \<open>H, F1', ..., Fn'\<close> in exactly this order and always with port \<open>P\<close>, where \<open>Fi'\<close> is \<open>Fi\<close>
  when \<open>Fi\<close> is a non-empty string and \<open>H\<close> when \<open>Fi\<close> is the empty string (\<open>attempts[i] || host\<close>);
  in the first variant the host dialed is the candidate itself, in the second it is the
  address the resolver returned for a candidate that is not a literal IP. The calls made
  are always an initial segment of that plan, and the dial stops at the first success:
  when the attempts before the \<open>k\<close>-th fail with an error of the retryable class and the
  \<open>k\<close>-th succeeds, exactly \<open>k + 1\<close> calls are made, the function returns, and the socket
  kept in \<open>remoteSocket\<close> is the one dialed for candidate \<open>k\<close>, open and pumped once. With
  \<open>k = 2\<close>: when \<open>H\<close> and \<open>F1\<close> fail retryably and \<open>F2\<close> is reachable, exactly 3 attempts
  occur, in that order, and the connection kept is the one of \<open>F2\<close>.
\<close>

theorem connectToRemote_attempt_order:
  "let a = parseAddress targetAddr; F = CF_FALLBACK_IPS cfg;
       planned = (\<lambda>j. (dialHost cfg env a j, port a));
       r = connectToRemote cfg env targetAddr firstFrameData s
   in candidate cfg a 0 = host a \<and>
      (\<forall>j<length F. candidate cfg a (Suc j) = (if F ! j = [] then host a else F ! j)) \<and>
      (\<not> doh cfg \<longrightarrow> dialHost cfg env a = candidate cfg a) \<and>
      (\<exists>k\<le>Suc (length F). dialed (trace (snd r)) = dialed (trace s) @ map planned [0..<k]) \<and>
      (\<forall>k\<le>length F.
         (\<forall>j<k. \<exists>m. attemptOutcome cfg env a (readyState s) j = Fails m \<and> isCFError m) \<and>
         attemptOutcome cfg env a (readyState s) k = Succeeds \<longrightarrow>
           fst r = Returned \<and>
           dialed (trace (snd r)) = dialed (trace s) @ map planned [0..<Suc k] \<and>
           remoteSocket (snd r) = Some (length (sockets (snd r)) - 1) \<and>
           last (sockets (snd r)) =
             \<lparr>peer_host = dialHost cfg env a k, peer_port = port a,
              destroyed = False, pumps = 1\<rparr>)"
proof -
  let ?a = "parseAddress targetAddr"
  let ?r = "dial cfg env ?a firstFrameData 0 Top s"
  let ?planned = "\<lambda>j. (dialHost cfg env ?a j, port ?a)"
  have c1: "\<forall>j<length (CF_FALLBACK_IPS cfg). candidate cfg ?a (Suc j) =
      (if CF_FALLBACK_IPS cfg ! j = [] then host ?a else CF_FALLBACK_IPS cfg ! j)"
    by (simp add: candidate_Suc)
  have c2: "\<not> doh cfg \<longrightarrow> dialHost cfg env ?a = candidate cfg ?a"
    by (auto simp: dialHost_def)
  have c3: "\<exists>k\<le>Suc (length (CF_FALLBACK_IPS cfg)).
      dialed (trace (snd ?r)) = dialed (trace s) @ map ?planned [0..<k]"
    using dial_prefix [of 0 cfg env ?a firstFrameData s] by auto
  have c4: "\<forall>k\<le>length (CF_FALLBACK_IPS cfg).
         (\<forall>j<k. \<exists>m. attemptOutcome cfg env ?a (readyState s) j = Fails m \<and> isCFError m) \<and>
         attemptOutcome cfg env ?a (readyState s) k = Succeeds \<longrightarrow>
           fst ?r = Returned \<and>
           dialed (trace (snd ?r)) = dialed (trace s) @ map ?planned [0..<Suc k] \<and>
           remoteSocket (snd ?r) = Some (length (sockets (snd ?r)) - 1) \<and>
           last (sockets (snd ?r)) =
             \<lparr>peer_host = dialHost cfg env ?a k, peer_port = port ?a,
              destroyed = False, pumps = 1\<rparr>"
  proof (intro allI impI)
    fix k
    assume k: "k \<le> length (CF_FALLBACK_IPS cfg)"
      and h: "(\<forall>j<k. \<exists>m. attemptOutcome cfg env ?a (readyState s) j = Fails m \<and> isCFError m) \<and>
         attemptOutcome cfg env ?a (readyState s) k = Succeeds"
    from k have "k < length (attempts cfg)" by simp
    from dial_succeeds_at [OF this, of env ?a s firstFrameData] h
    obtain s' where "?r = (Returned, s')"
      "dialed (trace s') = dialed (trace s) @ map ?planned [0..<Suc k]"
      "remoteSocket s' = Some (length (sockets s') - 1)"
      "last (sockets s') = \<lparr>peer_host = dialHost cfg env ?a k, peer_port = port ?a,
              destroyed = False, pumps = 1\<rparr>"
      by blast
    then show "fst ?r = Returned \<and>
           dialed (trace (snd ?r)) = dialed (trace s) @ map ?planned [0..<Suc k] \<and>
           remoteSocket (snd ?r) = Some (length (sockets (snd ?r)) - 1) \<and>
           last (sockets (snd ?r)) =
             \<lparr>peer_host = dialHost cfg env ?a k, peer_port = port ?a,
              destroyed = False, pumps = 1\<rparr>"
      by simp
  qed
  show ?thesis
    unfolding Let_def connectToRemote_def
    using candidate_0 [of cfg ?a] c1 c2 c3 c4 by blast
qed

theorem connectToRemote_attempt_order_witness:
  "attemptOutcome
      \<lparr>doh = False, CF_FALLBACK_IPS = [''f1.example'', ''f2.example''], net_isIP = (\<lambda>h. False),
       connectThrows = (\<lambda>h p. None), sendThrows = True\<rparr>
      \<lparr>resolution_of = (\<lambda>i. Pending),
       connection_of = (\<lambda>i. if i < 2 then Settled (ConnectError ''connect ECONNREFUSED'')
                              else Settled ConnectOk)\<rparr>
      (parseAddress ''h.example:443'') (readyState initialSession) 0
     = Fails ''connect ECONNREFUSED'' \<and>
   attemptOutcome
      \<lparr>doh = False, CF_FALLBACK_IPS = [''f1.example'', ''f2.example''], net_isIP = (\<lambda>h. False),
       connectThrows = (\<lambda>h p. None), sendThrows = True\<rparr>
      \<lparr>resolution_of = (\<lambda>i. Pending),
       connection_of = (\<lambda>i. if i < 2 then Settled (ConnectError ''connect ECONNREFUSED'')
                              else Settled ConnectOk)\<rparr>
      (parseAddress ''h.example:443'') (readyState initialSession) 1
     = Fails ''connect ECONNREFUSED'' \<and>
   isCFError ''connect ECONNREFUSED'' \<and>
   attemptOutcome
      \<lparr>doh = False, CF_FALLBACK_IPS = [''f1.example'', ''f2.example''], net_isIP = (\<lambda>h. False),
       connectThrows = (\<lambda>h p. None), sendThrows = True\<rparr>
      \<lparr>resolution_of = (\<lambda>i. Pending),
       connection_of = (\<lambda>i. if i < 2 then Settled (ConnectError ''connect ECONNREFUSED'')
                              else Settled ConnectOk)\<rparr>
      (parseAddress ''h.example:443'') (readyState initialSession) 2
     = Succeeds \<and>
   fst (connectToRemote
      \<lparr>doh = False, CF_FALLBACK_IPS = [''f1.example'', ''f2.example''], net_isIP = (\<lambda>h. False),
       connectThrows = (\<lambda>h p. None), sendThrows = True\<rparr>
      \<lparr>resolution_of = (\<lambda>i. Pending),
       connection_of = (\<lambda>i. if i < 2 then Settled (ConnectError ''connect ECONNREFUSED'')
                              else Settled ConnectOk)\<rparr>
      ''h.example:443'' ''hello'' initialSession) = Returned \<and>
   dialed (trace (snd (connectToRemote
      \<lparr>doh = False, CF_FALLBACK_IPS = [''f1.example'', ''f2.example''], net_isIP = (\<lambda>h. False),
       connectThrows = (\<lambda>h p. None), sendThrows = True\<rparr>
      \<lparr>resolution_of = (\<lambda>i. Pending),
       connection_of = (\<lambda>i. if i < 2 then Settled (ConnectError ''connect ECONNREFUSED'')
                              else Settled ConnectOk)\<rparr>
      ''h.example:443'' ''hello'' initialSession)))
     = [(''h.example'', Some 443), (''f1.example'', Some 443), (''f2.example'', Some 443)] \<and>
   last (sockets (snd (connectToRemote
      \<lparr>doh = False, CF_FALLBACK_IPS = [''f1.example'', ''f2.example''], net_isIP = (\<lambda>h. False),
       connectThrows = (\<lambda>h p. None), sendThrows = True\<rparr>
      \<lparr>resolution_of = (\<lambda>i. Pending),
       connection_of = (\<lambda>i. if i < 2 then Settled (ConnectError ''connect ECONNREFUSED'')
                              else Settled ConnectOk)\<rparr>
      ''h.example:443'' ''hello'' initialSession)))
     = \<lparr>peer_host = ''f2.example'', peer_port = Some 443, destroyed = False, pumps = 1\<rparr>"
proof -
  let ?cfg = "\<lparr>doh = False, CF_FALLBACK_IPS = [''f1.example'', ''f2.example''],
       net_isIP = (\<lambda>h. False), connectThrows = (\<lambda>h p. None), sendThrows = True\<rparr>"
  let ?env = "\<lparr>resolution_of = (\<lambda>i. Pending),
       connection_of = (\<lambda>i. if i < 2 then Settled (ConnectError ''connect ECONNREFUSED'')
                              else Settled ConnectOk)\<rparr>"
  let ?a = "parseAddress ''h.example:443''"
  let ?r = "connectToRemote ?cfg ?env ''h.example:443'' ''hello'' initialSession"
  have a: "?a = \<lparr>host = ''h.example'', port = Some 443\<rparr>" by code_simp
  have o0: "attemptOutcome ?cfg ?env ?a (readyState initialSession) 0 = Fails ''connect ECONNREFUSED''"
    by (simp add: attemptOutcome_def dialHost_def)
  have o1: "attemptOutcome ?cfg ?env ?a (readyState initialSession) 1 = Fails ''connect ECONNREFUSED''"
    by (simp add: attemptOutcome_def dialHost_def)
  have o2: "attemptOutcome ?cfg ?env ?a (readyState initialSession) 2 = Succeeds"
    by (simp add: attemptOutcome_def dialHost_def initialSession_def)
  have e: "isCFError ''connect ECONNREFUSED''" by code_simp
  have pre: "\<forall>j<2. \<exists>m. attemptOutcome ?cfg ?env ?a (readyState initialSession) j = Fails m \<and> isCFError m"
    using o0 o1 e by (auto simp: less_Suc_eq numeral_2_eq_2)
  have d: "map (\<lambda>j. (dialHost ?cfg ?env ?a j, port ?a)) [0..<Suc 2]
      = [(''h.example'', Some 443), (''f1.example'', Some 443), (''f2.example'', Some 443)]"
    by (simp add: a dialHost_def candidate_def attempts_def orElse_def upt_rec numeral_2_eq_2)
  have h2: "dialHost ?cfg ?env ?a 2 = ''f2.example''"
    by (simp add: dialHost_def candidate_def attempts_def orElse_def numeral_2_eq_2)
  note all = connectToRemote_attempt_order
    [of "''h.example:443''" ?cfg ?env "''hello''" initialSession, unfolded Let_def]
  note at = all [THEN conjunct2, THEN conjunct2, THEN conjunct2, THEN conjunct2, rule_format, of 2]
  have "fst ?r = Returned \<and>
        dialed (trace (snd ?r)) = dialed (trace initialSession) @
            map (\<lambda>j. (dialHost ?cfg ?env ?a j, port ?a)) [0..<Suc 2] \<and>
        remoteSocket (snd ?r) = Some (length (sockets (snd ?r)) - 1) \<and>
        last (sockets (snd ?r)) = \<lparr>peer_host = dialHost ?cfg ?env ?a 2, peer_port = port ?a,
              destroyed = False, pumps = 1\<rparr>"
  proof (rule at)
    show "2 \<le> length (CF_FALLBACK_IPS ?cfg)" by simp
    show "(\<forall>j<2. \<exists>m. attemptOutcome ?cfg ?env ?a (readyState initialSession) j = Fails m \<and> isCFError m) \<and>
        attemptOutcome ?cfg ?env ?a (readyState initialSession) 2 = Succeeds"
      using pre o2 by blast
  qed
  then show ?thesis
    using o0 o1 o2 e d h2 a by (simp add: initialSession_def)
qed

text \<open>
  The claim as stated (attempts to exactly \<open>H, F1, ..., Fn\<close>) fails when a fallback entry is
  empty, as \<open>PRIP="a.example,"\<close> makes it: the third attempt goes to \<open>H\<close> again.
\<close>

theorem connectToRemote_attempt_order_counterexample:
  "dialed (trace (snd (connectToRemote
      \<lparr>doh = False, CF_FALLBACK_IPS = [''a.example'', ''''], net_isIP = (\<lambda>h. False),
       connectThrows = (\<lambda>h p. None), sendThrows = True\<rparr>
      \<lparr>resolution_of = (\<lambda>i. Pending),
       connection_of = (\<lambda>i. Settled (ConnectError ''connect ECONNREFUSED''))\<rparr>
      ''h.example:443'' ''hello'' initialSession)))
     = [(''h.example'', Some 443), (''a.example'', Some 443), (''h.example'', Some 443)] \<and>
   dialed (trace (snd (connectToRemote
      \<lparr>doh = False, CF_FALLBACK_IPS = [''a.example'', ''''], net_isIP = (\<lambda>h. False),
       connectThrows = (\<lambda>h p. None), sendThrows = True\<rparr>
      \<lparr>resolution_of = (\<lambda>i. Pending),
       connection_of = (\<lambda>i. Settled (ConnectError ''connect ECONNREFUSED''))\<rparr>
      ''h.example:443'' ''hello'' initialSession)))
     \<noteq> map (\<lambda>h. (h, Some 443)) [''h.example'', ''a.example'', '''']"
  by code_simp

text \<open>
  Claim C3. An error is of the retryable class exactly when its lower-cased message
  contains \<open>proxy request\<close>, \<open>cannot connect\<close>, \<open>econnrefused\<close> or \<open>etimedout\<close>. When the
  attempts before the \<open>k\<close>-th fail with a retryable error and the \<open>k\<close>-th fails with an
  error \<open>m\<close> that is not retryable, or is the last candidate's, \<open>connectToRemote\<close> fails
  with \<open>m\<close> after exactly \<open>k + 1\<close> attempts and no socket is left in \<open>remoteSocket\<close>. For
  \<open>k = 0\<close> and a non-retryable error this is exactly 1 attempt; when every candidate
  fails retryably it is the last attempt's error.
\<close>

theorem connectToRemote_failure:
  "let a = parseAddress targetAddr; n = length (attempts cfg);
       planned = (\<lambda>j. (dialHost cfg env a j, port a));
       r = connectToRemote cfg env targetAddr firstFrameData s
   in isCFError m =
        (\<exists>p\<in>set [''proxy request'', ''cannot connect'', ''econnrefused'', ''etimedout''].
           includesStr (toLowerCase m) p) \<and>
      (\<forall>k<n.
         (\<forall>j<k. \<exists>e. attemptOutcome cfg env a (readyState s) j = Fails e \<and> isCFError e) \<and>
         attemptOutcome cfg env a (readyState s) k = Fails m \<and>
         (\<not> isCFError m \<or> k = n - 1) \<longrightarrow>
           fst r = Threw m \<and>
           dialed (trace (snd r)) = dialed (trace s) @ map planned [0..<Suc k] \<and>
           remoteSocket (snd r) = None) \<and>
      (attemptOutcome cfg env a (readyState s) 0 = Fails m \<and> \<not> isCFError m \<longrightarrow>
           fst r = Threw m \<and>
           dialed (trace (snd r)) = dialed (trace s) @ [(dialHost cfg env a 0, port a)])"
proof -
  let ?a = "parseAddress targetAddr"
  let ?r = "dial cfg env ?a firstFrameData 0 Top s"
  let ?planned = "\<lambda>j. (dialHost cfg env ?a j, port ?a)"
  have c1: "isCFError m =
        (\<exists>p\<in>set [''proxy request'', ''cannot connect'', ''econnrefused'', ''etimedout''].
           includesStr (toLowerCase m) p)"
    by (simp add: isCFError_def Let_def)
  have c2: "\<forall>k<length (attempts cfg).
         (\<forall>j<k. \<exists>e. attemptOutcome cfg env ?a (readyState s) j = Fails e \<and> isCFError e) \<and>
         attemptOutcome cfg env ?a (readyState s) k = Fails m \<and>
         (\<not> isCFError m \<or> k = length (attempts cfg) - 1) \<longrightarrow>
           fst ?r = Threw m \<and>
           dialed (trace (snd ?r)) = dialed (trace s) @ map ?planned [0..<Suc k] \<and>
           remoteSocket (snd ?r) = None"
  proof (intro allI impI)
    fix k
    assume k: "k < length (attempts cfg)"
      and h: "(\<forall>j<k. \<exists>e. attemptOutcome cfg env ?a (readyState s) j = Fails e \<and> isCFError e) \<and>
         attemptOutcome cfg env ?a (readyState s) k = Fails m \<and>
         (\<not> isCFError m \<or> k = length (attempts cfg) - 1)"
    from dial_fails_at [OF k, of env ?a s m firstFrameData] h
    obtain s' where "?r = (Threw m, s')"
      "dialed (trace s') = dialed (trace s) @ map ?planned [0..<Suc k]"
      "remoteSocket s' = None"
      by blast
    then show "fst ?r = Threw m \<and>
           dialed (trace (snd ?r)) = dialed (trace s) @ map ?planned [0..<Suc k] \<and>
           remoteSocket (snd ?r) = None"
      by simp
  qed
  have c3: "attemptOutcome cfg env ?a (readyState s) 0 = Fails m \<and> \<not> isCFError m \<longrightarrow>
           fst ?r = Threw m \<and>
           dialed (trace (snd ?r)) = dialed (trace s) @ [(dialHost cfg env ?a 0, port ?a)]"
    using c2 by (auto dest!: spec [of _ 0])
  show ?thesis
    unfolding Let_def connectToRemote_def
    using c1 c2 c3 by blast
qed

theorem connectToRemote_failure_witness:
  "attemptOutcome
      \<lparr>doh = False, CF_FALLBACK_IPS = [''f1.example''], net_isIP = (\<lambda>h. False),
       connectThrows = (\<lambda>h p. None), sendThrows = True\<rparr>
      \<lparr>resolution_of = (\<lambda>i. Pending),
       connection_of = (\<lambda>i. Settled (ConnectError ''getaddrinfo ENOTFOUND h.example''))\<rparr>
      (parseAddress ''h.example:443'') (readyState initialSession) 0
     = Fails ''getaddrinfo ENOTFOUND h.example'' \<and>
   \<not> isCFError ''getaddrinfo ENOTFOUND h.example'' \<and>
   fst (connectToRemote
      \<lparr>doh = False, CF_FALLBACK_IPS = [''f1.example''], net_isIP = (\<lambda>h. False),
       connectThrows = (\<lambda>h p. None), sendThrows = True\<rparr>
      \<lparr>resolution_of = (\<lambda>i. Pending),
       connection_of = (\<lambda>i. Settled (ConnectError ''getaddrinfo ENOTFOUND h.example''))\<rparr>
      ''h.example:443'' ''hello'' initialSession)
     = Threw ''getaddrinfo ENOTFOUND h.example'' \<and>
   dialed (trace (snd (connectToRemote
      \<lparr>doh = False, CF_FALLBACK_IPS = [''f1.example''], net_isIP = (\<lambda>h. False),
       connectThrows = (\<lambda>h p. None), sendThrows = True\<rparr>
      \<lparr>resolution_of = (\<lambda>i. Pending),
       connection_of = (\<lambda>i. Settled (ConnectError ''getaddrinfo ENOTFOUND h.example''))\<rparr>
      ''h.example:443'' ''hello'' initialSession)))
     = [(''h.example'', Some 443)] \<and>
   attemptOutcome
      \<lparr>doh = False, CF_FALLBACK_IPS = [''f1.example''], net_isIP = (\<lambda>h. False),
       connectThrows = (\<lambda>h p. None), sendThrows = True\<rparr>
      \<lparr>resolution_of = (\<lambda>i. Pending),
       connection_of = (\<lambda>i. if i = 0 then Settled (ConnectError ''connect ECONNREFUSED'')
                              else Settled (ConnectError ''connect ETIMEDOUT''))\<rparr>
      (parseAddress ''h.example:443'') (readyState initialSession) 0
     = Fails ''connect ECONNREFUSED'' \<and>
   isCFError ''connect ECONNREFUSED'' \<and>
   attemptOutcome
      \<lparr>doh = False, CF_FALLBACK_IPS = [''f1.example''], net_isIP = (\<lambda>h. False),
       connectThrows = (\<lambda>h p. None), sendThrows = True\<rparr>
      \<lparr>resolution_of = (\<lambda>i. Pending),
       connection_of = (\<lambda>i. if i = 0 then Settled (ConnectError ''connect ECONNREFUSED'')
                              else Settled (ConnectError ''connect ETIMEDOUT''))\<rparr>
      (parseAddress ''h.example:443'') (readyState initialSession) 1
     = Fails ''connect ETIMEDOUT'' \<and>
   isCFError ''connect ETIMEDOUT'' \<and>
   fst (connectToRemote
      \<lparr>doh = False, CF_FALLBACK_IPS = [''f1.example''], net_isIP = (\<lambda>h. False),
       connectThrows = (\<lambda>h p. None), sendThrows = True\<rparr>
      \<lparr>resolution_of = (\<lambda>i. Pending),
       connection_of = (\<lambda>i. if i = 0 then Settled (ConnectError ''connect ECONNREFUSED'')
                              else Settled (ConnectError ''connect ETIMEDOUT''))\<rparr>
      ''h.example:443'' ''hello'' initialSession)
     = Threw ''connect ETIMEDOUT'' \<and>
   dialed (trace (snd (connectToRemote
      \<lparr>doh = False, CF_FALLBACK_IPS = [''f1.example''], net_isIP = (\<lambda>h. False),
       connectThrows = (\<lambda>h p. None), sendThrows = True\<rparr>
      \<lparr>resolution_of = (\<lambda>i. Pending),
       connection_of = (\<lambda>i. if i = 0 then Settled (ConnectError ''connect ECONNREFUSED'')
                              else Settled (ConnectError ''connect ETIMEDOUT''))\<rparr>
      ''h.example:443'' ''hello'' initialSession)))
     = [(''h.example'', Some 443), (''f1.example'', Some 443)]"
proof -
  let ?cfg = "\<lparr>doh = False, CF_FALLBACK_IPS = [''f1.example''], net_isIP = (\<lambda>h. False),
       connectThrows = (\<lambda>h p. None), sendThrows = True\<rparr>"
  let ?fatal = "\<lparr>resolution_of = (\<lambda>i. Pending),
       connection_of = (\<lambda>i. Settled (ConnectError ''getaddrinfo ENOTFOUND h.example''))\<rparr>"
  let ?busy = "\<lparr>resolution_of = (\<lambda>i. Pending),
       connection_of = (\<lambda>i. if i = 0 then Settled (ConnectError ''connect ECONNREFUSED'')
                              else Settled (ConnectError ''connect ETIMEDOUT''))\<rparr>"
  let ?a = "parseAddress ''h.example:443''"
  have a: "?a = \<lparr>host = ''h.example'', port = Some 443\<rparr>" by code_simp
  have f0: "attemptOutcome ?cfg ?fatal ?a (readyState initialSession) 0
              = Fails ''getaddrinfo ENOTFOUND h.example''"
    by (simp add: attemptOutcome_def dialHost_def)
  have nf: "\<not> isCFError ''getaddrinfo ENOTFOUND h.example''" by code_simp
  have b0: "attemptOutcome ?cfg ?busy ?a (readyState initialSession) 0
              = Fails ''connect ECONNREFUSED''"
    by (simp add: attemptOutcome_def dialHost_def)
  have b1: "attemptOutcome ?cfg ?busy ?a (readyState initialSession) 1
              = Fails ''connect ETIMEDOUT''"
    by (simp add: attemptOutcome_def dialHost_def)
  have r0: "isCFError ''connect ECONNREFUSED''" by code_simp
  have r1: "isCFError ''connect ETIMEDOUT''" by code_simp
  have d0: "dialHost ?cfg ?fatal ?a 0 = ''h.example''"
    by (simp add: a dialHost_def candidate_def attempts_def orElse_def)
  have d1: "map (\<lambda>j. (dialHost ?cfg ?busy ?a j, port ?a)) [0..<Suc 1]
      = [(''h.example'', Some 443), (''f1.example'', Some 443)]"
    by (simp add: a dialHost_def candidate_def attempts_def orElse_def upt_rec)
  note fatal = connectToRemote_failure
    [where targetAddr = "''h.example:443''" and cfg = ?cfg and env = ?fatal
       and firstFrameData = "''hello''" and s = initialSession
       and m = "''getaddrinfo ENOTFOUND h.example''", unfolded Let_def]
  note busy = connectToRemote_failure
    [where targetAddr = "''h.example:443''" and cfg = ?cfg and env = ?busy
       and firstFrameData = "''hello''" and s = initialSession
       and m = "''connect ETIMEDOUT''", unfolded Let_def]
  have A: "fst (connectToRemote ?cfg ?fatal ''h.example:443'' ''hello'' initialSession)
             = Threw ''getaddrinfo ENOTFOUND h.example'' \<and>
           dialed (trace (snd (connectToRemote ?cfg ?fatal ''h.example:443'' ''hello'' initialSession)))
             = dialed (trace initialSession) @ [(dialHost ?cfg ?fatal ?a 0, port ?a)]"
    using fatal [THEN conjunct2, THEN conjunct2] f0 nf by blast
  have "fst (connectToRemote ?cfg ?busy ''h.example:443'' ''hello'' initialSession)
             = Threw ''connect ETIMEDOUT'' \<and>
           dialed (trace (snd (connectToRemote ?cfg ?busy ''h.example:443'' ''hello'' initialSession)))
             = dialed (trace initialSession) @
                 map (\<lambda>j. (dialHost ?cfg ?busy ?a j, port ?a)) [0..<Suc 1] \<and>
           remoteSocket (snd (connectToRemote ?cfg ?busy ''h.example:443'' ''hello'' initialSession))
             = None"
  proof (rule busy [THEN conjunct2, THEN conjunct1, rule_format, of 1])
    show "1 < length (attempts ?cfg)" by simp
    show "(\<forall>j<1. \<exists>e. attemptOutcome ?cfg ?busy ?a (readyState initialSession) j = Fails e \<and>
                  isCFError e) \<and>
          attemptOutcome ?cfg ?busy ?a (readyState initialSession) 1 = Fails ''connect ETIMEDOUT'' \<and>
          (\<not> isCFError ''connect ETIMEDOUT'' \<or> 1 = length (attempts ?cfg) - 1)"
      using b0 b1 r0 by simp
  qed
  then show ?thesis
    using A f0 nf b0 b1 r0 r1 d0 d1 a by (simp add: initialSession_def)
qed

lemma take_of_prefix:
  "prefix xs ys \<Longrightarrow> take k xs = zs \<Longrightarrow> length zs = k \<Longrightarrow> take k ys = zs"
  by (auto simp: prefix_def)

lemma safeCloseWebSocket_trace: "prefix (trace s) (trace (safeCloseWebSocket s))"
  by (simp add: safeCloseWebSocket_def)

lemma cleanup_trace: "prefix (trace s) (trace (cleanup s))"
proof (cases "isClosed s")
  case True
  then show ?thesis by (simp add: cleanup_def)
next
  case False
  let ?s1 = "emit MarkClosed (s\<lparr>isClosed := True\<rparr>)"
  have "prefix (trace s) (trace ?s1)" by simp
  also have "prefix (trace ?s1) (trace (releaseRemote ?s1))" by (rule releaseRemote_trace)
  also have "prefix (trace (releaseRemote ?s1)) (trace (safeCloseWebSocket (releaseRemote ?s1)))"
    by (rule safeCloseWebSocket_trace)
  finally show ?thesis using False by (simp add: cleanup_def)
qed

lemma wsSend_trace: "prefix (trace s) (trace (snd (wsSend cfg d s)))"
  by (simp add: wsSend_def)

lemma messageCatch_trace: "prefix (trace s) (trace (messageCatch cfg m s))"
  unfolding messageCatch_def
  using wsSend_trace [of s cfg "''ERROR:'' @ m"] cleanup_trace [of "snd (wsSend cfg (''ERROR:'' @ m) s)"]
  by (rule prefix_order.trans)

lemma setStage_trace [simp]: "trace (setStage tid i st s) = trace s"
  by (simp add: setStage_def)

lemma afterDial_trace: "prefix (trace (snd rs)) (trace (afterDial cfg tid rs))"
proof (cases rs)
  case (Pair r s)
  then show ?thesis
    using messageCatch_trace [of "setStage tid (t_index (tasks s ! tid)) Finished s" cfg]
    by (cases r) (simp_all add: afterDial_def)
qed

text \<open>
  Claim C6. Inside the dial loop of the second variant, for a candidate that is not a
  literal IP address, a failure of the resolver (\<open>resolveDoH\<close> throws) does not end the
  attempt: the next call is \<open>net.connect\<close> with the candidate's own host name and the
  requested port. This holds at the program point after the \<open>await\<close>, for the whole
  iteration run from its head (where the attempt then succeeds if the connection does),
  and for the event handler that resumes a call suspended at the \<open>await\<close>.
\<close>

theorem failed_resolution_dials_original:
  "take (Suc (length (trace s)))
     (trace (snd (dial cfg env a first i (AfterResolve ResolveFailed) s)))
     = trace s @ [NetConnect (candidate cfg a i) (port a)] \<and>
   (doh cfg \<and> \<not> net_isIP cfg (candidate cfg a i) \<and> i < length (attempts cfg) \<and>
    resolution_of env i = Settled ResolveFailed \<longrightarrow>
      dialHost cfg env a i = candidate cfg a i \<and>
      take (Suc (Suc (length (trace s)))) (trace (snd (dial cfg env a first i Top s)))
        = trace s @ [Resolve (candidate cfg a i), NetConnect (candidate cfg a i) (port a)] \<and>
      (connectThrows cfg (candidate cfg a i) (port a) = None \<and>
       connection_of env i = Settled ConnectOk \<and> readyState s = OPEN \<longrightarrow>
         fst (dial cfg env a first i Top s) = Returned \<and>
         last (sockets (snd (dial cfg env a first i Top s)))
           = \<lparr>peer_host = candidate cfg a i, peer_port = port a,
              destroyed = False, pumps = 1\<rparr>)) \<and>
   (tid < length (tasks s) \<and> t_stage (tasks s ! tid) = AwaitResolve \<longrightarrow>
      take (Suc (length (trace s))) (trace (handle cfg (ResolveSettled tid ResolveFailed) s))
        = trace s @
            [NetConnect (candidate cfg (t_address (tasks s ! tid)) (t_index (tasks s ! tid)))
               (port (t_address (tasks s ! tid)))])"
proof (intro conjI impI)
  show "take (Suc (length (trace s)))
     (trace (snd (dial cfg env a first i (AfterResolve ResolveFailed) s)))
     = trace s @ [NetConnect (candidate cfg a i) (port a)]"
    by (rule dial_after_failed_resolution)
next
  assume h: "doh cfg \<and> \<not> net_isIP cfg (candidate cfg a i) \<and> i < length (attempts cfg) \<and>
    resolution_of env i = Settled ResolveFailed"
  then show d: "dialHost cfg env a i = candidate cfg a i"
    by (simp add: dialHost_def)
  let ?s1 = "emit (Resolve (candidate cfg a i)) s"
  from h have top: "dial cfg env a first i Top s
      = dial cfg env a first i (AfterResolve ResolveFailed) ?s1"
    by (subst dial.simps(1)) (simp add: Let_def candidate_def)
  from dial_after_failed_resolution [of ?s1 cfg env a first i]
  show "take (Suc (Suc (length (trace s)))) (trace (snd (dial cfg env a first i Top s)))
        = trace s @ [Resolve (candidate cfg a i), NetConnect (candidate cfg a i) (port a)]"
    by (simp add: top)
  assume c: "connectThrows cfg (candidate cfg a i) (port a) = None \<and>
       connection_of env i = Settled ConnectOk \<and> readyState s = OPEN"
  with h d have "attemptOutcome cfg env a (readyState s) i = Succeeds"
    by (simp add: attemptOutcome_def)
  from iter_succeeds [OF _ this, of first] h d
  show "fst (dial cfg env a first i Top s) = Returned"
    and "last (sockets (snd (dial cfg env a first i Top s)))
           = \<lparr>peer_host = candidate cfg a i, peer_port = port a,
              destroyed = False, pumps = 1\<rparr>"
    by simp_all
next
  assume t: "tid < length (tasks s) \<and> t_stage (tasks s ! tid) = AwaitResolve"
  let ?t = "tasks s ! tid"
  let ?d = "dial cfg noneSettled (t_address ?t) (t_first ?t) (t_index ?t)
              (AfterResolve ResolveFailed) s"
  from t have "handle cfg (ResolveSettled tid ResolveFailed) s = afterDial cfg tid ?d"
    by (simp add: handle_def resume_def Let_def)
  moreover have "prefix (trace (snd ?d)) (trace (afterDial cfg tid ?d))"
    by (rule afterDial_trace)
  moreover note dial_after_failed_resolution
    [of s cfg noneSettled "t_address ?t" "t_first ?t" "t_index ?t"]
  ultimately show "take (Suc (length (trace s)))
        (trace (handle cfg (ResolveSettled tid ResolveFailed) s))
        = trace s @ [NetConnect (candidate cfg (t_address ?t) (t_index ?t)) (port (t_address ?t))]"
    by (simp add: take_of_prefix)
qed

theorem failed_resolution_dials_original_witness:
  "doh (exampleConfig True [] True) \<and>
   \<not> net_isIP (exampleConfig True [] True)
       (candidate (exampleConfig True [] True) \<lparr>host = ''nosuch.example'', port = Some 443\<rparr> 0) \<and>
   0 < length (attempts (exampleConfig True [] True)) \<and>
   resolution_of \<lparr>resolution_of = (\<lambda>i. Settled ResolveFailed),
                  connection_of = (\<lambda>i. Settled ConnectOk)\<rparr> 0 = Settled ResolveFailed \<and>
   take (Suc (Suc 0))
     (trace (snd (dial (exampleConfig True [] True)
        \<lparr>resolution_of = (\<lambda>i. Settled ResolveFailed), connection_of = (\<lambda>i. Settled ConnectOk)\<rparr>
        \<lparr>host = ''nosuch.example'', port = Some 443\<rparr> ''hello'' 0 Top initialSession)))
     = [Resolve ''nosuch.example'', NetConnect ''nosuch.example'' (Some 443)] \<and>
   fst (dial (exampleConfig True [] True)
        \<lparr>resolution_of = (\<lambda>i. Settled ResolveFailed), connection_of = (\<lambda>i. Settled ConnectOk)\<rparr>
        \<lparr>host = ''nosuch.example'', port = Some 443\<rparr> ''hello'' 0 Top initialSession)
     = Returned \<and>
   t_stage (tasks (handle (exampleConfig True [] True)
               (Message ''CONNECT:nosuch.example:443|hello'' False) initialSession) ! 0)
     = AwaitResolve \<and>
   take (Suc (Suc 0))
     (trace (handle (exampleConfig True [] True) (ResolveSettled 0 ResolveFailed)
        (handle (exampleConfig True [] True)
           (Message ''CONNECT:nosuch.example:443|hello'' False) initialSession)))
     = [Resolve ''nosuch.example'', NetConnect ''nosuch.example'' (Some 443)]"
proof -
  let ?cfg = "exampleConfig True [] True"
  let ?env = "\<lparr>resolution_of = (\<lambda>i. Settled ResolveFailed),
               connection_of = (\<lambda>i. Settled ConnectOk)\<rparr>"
  let ?a = "\<lparr>host = ''nosuch.example'', port = Some 443\<rparr>"
  let ?s1 = "handle ?cfg (Message ''CONNECT:nosuch.example:443|hello'' False) initialSession"
  have c: "candidate ?cfg ?a 0 = ''nosuch.example''"
    by (simp add: candidate_def attempts_def orElse_def exampleConfig_def)
  have h: "doh ?cfg \<and> \<not> net_isIP ?cfg (candidate ?cfg ?a 0) \<and> 0 < length (attempts ?cfg) \<and>
      resolution_of ?env 0 = Settled ResolveFailed"
    by (simp add: c) (simp add: exampleConfig_def)
  have k: "connectThrows ?cfg (candidate ?cfg ?a 0) (port ?a) = None \<and>
      connection_of ?env 0 = Settled ConnectOk \<and> readyState initialSession = OPEN"
    by (simp add: exampleConfig_def initialSession_def)
  have s1: "?s1 = \<lparr>isClosed = False, remoteSocket = None, sockets = [], readyState = OPEN,
      tasks = [\<lparr>t_address = ?a, t_first = ''hello'', t_index = 0, t_stage = AwaitResolve\<rparr>],
      trace = [Resolve ''nosuch.example'']\<rparr>"
    by code_simp
  have t: "0 < length (tasks ?s1) \<and> t_stage (tasks ?s1 ! 0) = AwaitResolve"
    by (simp add: s1)
  note first = failed_resolution_dials_original
    [where s = initialSession and cfg = ?cfg and env = ?env and a = ?a and first = "''hello''"
       and i = 0 and tid = 0]
  note second = failed_resolution_dials_original
    [where s = ?s1 and cfg = ?cfg and env = ?env and a = ?a and first = "''hello''"
       and i = 0 and tid = 0]
  from first [THEN conjunct2, THEN conjunct1, rule_format, OF h]
  have A: "take (Suc (Suc (length (trace initialSession))))
            (trace (snd (dial ?cfg ?env ?a ''hello'' 0 Top initialSession)))
        = trace initialSession @ [Resolve (candidate ?cfg ?a 0), NetConnect (candidate ?cfg ?a 0) (port ?a)]"
    and B: "fst (dial ?cfg ?env ?a ''hello'' 0 Top initialSession) = Returned"
    using k by blast+
  from second [THEN conjunct2, THEN conjunct2, rule_format, OF t]
  have C: "take (Suc (length (trace ?s1))) (trace (handle ?cfg (ResolveSettled 0 ResolveFailed) ?s1))
        = trace ?s1 @ [NetConnect (candidate ?cfg (t_address (tasks ?s1 ! 0)) (t_index (tasks ?s1 ! 0)))
               (port (t_address (tasks ?s1 ! 0)))]" .
  have C': "take (Suc (Suc 0)) (trace (handle ?cfg (ResolveSettled 0 ResolveFailed) ?s1))
        = [Resolve ''nosuch.example'', NetConnect ''nosuch.example'' (Some 443)]"
    using C c unfolding s1 by simp
  show ?thesis
    using h A B C' t c by (simp add: initialSession_def)
qed

section \<open>Properties of the session\<close>

lemma startsWith_append [simp]: "startsWith (p @ r) p"
  by (simp add: startsWith_def)

lemma bufferToString_ascii_append:
  "\<forall>c \<in> set p. (of_char c :: nat) < 128 \<Longrightarrow> bufferToString (p @ r) = p @ bufferToString r"
  by (induction p) simp_all

lemma bufferToString_ascii:
  "\<forall>c \<in> set p. (of_char c :: nat) < 128 \<Longrightarrow> bufferToString p = p"
  using bufferToString_ascii_append [of p "[]"] by simp

lemma toString_DATA: "toString (''DATA:'' @ r) b = ''DATA:'' @ toString r b"
  using bufferToString_ascii_append [of "''DATA:''" r] by (simp add: toString_def)

lemma handle_message: "handle cfg (Message d b) s = onMessage cfg d b s"
  by (simp add: handle_def)

lemma onMessage_connect:
  assumes "\<not> isClosed s" and "startsWith (toString d b) ''CONNECT:''"
  shows "onMessage cfg d b s =
     afterDial cfg (length (tasks s))
       (dial cfg noneSettled
          (parseAddress (substring (toString d b) 8 (indexOf (toString d b) CHR ''|'' 8)))
          (substringFrom (toString d b) (indexOf (toString d b) CHR ''|'' 8 + 1)) 0 Top
          (s\<lparr>tasks := tasks s @
               [\<lparr>t_address =
                   parseAddress (substring (toString d b) 8 (indexOf (toString d b) CHR ''|'' 8)),
                 t_first = substringFrom (toString d b) (indexOf (toString d b) CHR ''|'' 8 + 1),
                 t_index = 0, t_stage = Finished\<rparr>]\<rparr>))"
  unfolding onMessage_def Let_def connectToRemote_def using assms by simp

lemma onMessage_data:
  assumes "\<not> isClosed s" and "startsWith (toString d b) ''DATA:''"
  shows "onMessage cfg d b s =
     (case remoteSocket s of
        Some k \<Rightarrow>
          if socketOpen s k then emit (SockWrite k (substringFrom (toString d b) 5)) s else s
      | None \<Rightarrow> s)"
proof -
  from assms(2) have "take 1 (take (length ''DATA:'') (toString d b)) = take 1 ''DATA:''"
    unfolding startsWith_def by (rule arg_cong)
  then have d1: "take 1 (toString d b) = ''D''" by simp
  have "\<not> startsWith (toString d b) ''CONNECT:''"
  proof
    assume "startsWith (toString d b) ''CONNECT:''"
    then have "take 1 (take (length ''CONNECT:'') (toString d b)) = take 1 ''CONNECT:''"
      unfolding startsWith_def by (rule arg_cong)
    then have "take 1 (toString d b) = ''C''" by simp
    with d1 show False by simp
  qed
  with assms show ?thesis unfolding onMessage_def Let_def by simp
qed

lemma onMessage_other:
  assumes "\<not> isClosed s" and "\<not> startsWith (toString d b) ''CONNECT:''"
    and "\<not> startsWith (toString d b) ''DATA:''" and "toString d b \<noteq> ''CLOSE''"
  shows "onMessage cfg d b s =
     (case remoteSocket s of
        Some k \<Rightarrow> if b \<and> socketOpen s k then emit (SockWrite k d) s else s
      | None \<Rightarrow> s)"
  unfolding onMessage_def Let_def using assms by simp

lemma onMessage_no_socket:
  assumes "\<not> isClosed s" and "remoteSocket s = None"
    and "\<not> startsWith (toString d b) ''CONNECT:''" and "toString d b \<noteq> ''CLOSE''"
  shows "onMessage cfg d b s = s"
  unfolding onMessage_def Let_def using assms by simp

lemma orElse_None [simp]: "orElse None y = y"
  by (simp add: orElse_def)

lemma attempts_0 [simp]: "attempts cfg ! 0 = None"
  by (simp add: attempts_def)

lemma setStage_last:
  "setStage (length ts) i st (s\<lparr>tasks := ts @ [t]\<rparr>)
     = s\<lparr>tasks := ts @ [t\<lparr>t_index := i, t_stage := st\<rparr>]\<rparr>"
  by (simp add: setStage_def)

lemma dial_starts_resolution:
  assumes "doh cfg \<and> \<not> net_isIP cfg (host a)"
  shows "dial cfg noneSettled a first 0 Top s = (Suspended 0 AwaitResolve, emit (Resolve (host a)) s)"
  using assms by (subst dial.simps(1)) (simp add: Let_def noneSettled_def)

lemma dial_starts_connect:
  assumes "\<not> (doh cfg \<and> \<not> net_isIP cfg (host a))" and "connectThrows cfg (host a) (port a) = None"
  shows "dial cfg noneSettled a first 0 Top s =
     (Suspended 0 (AwaitConnect (length (sockets s))),
      s\<lparr>sockets := sockets s @
           [\<lparr>peer_host = host a, peer_port = port a, destroyed = False, pumps = 0\<rparr>],
        remoteSocket := Some (length (sockets s)),
        trace := trace s @ [NetConnect (host a) (port a)]\<rparr>)"
  using assms
  by (subst dial.simps(1)) (auto simp: dial.simps(3) Let_def noneSettled_def emit_def)

lemma dial_connect_throws:
  assumes "\<not> (doh cfg \<and> \<not> net_isIP cfg (host a))" and "connectThrows cfg (host a) (port a) = Some e"
  shows "dial cfg noneSettled a first 0 Top s =
     dial cfg noneSettled a first 0 (Caught e) (emit (NetConnect (host a) (port a)) s)"
  using assms by (subst dial.simps(1)) (auto simp: dial.simps(3) Let_def)

lemma dial_caught_last:
  assumes "\<not> isCFError e \<or> CF_FALLBACK_IPS cfg = []"
  shows "dial cfg env a first 0 (Caught e) s = (Threw e, releaseRemote s)"
  using assms by (subst dial.simps(6)) auto

lemma dial_caught_retry:
  assumes "isCFError e" and "CF_FALLBACK_IPS cfg \<noteq> []"
  shows "dial cfg env a first 0 (Caught e) s = dial cfg env a first 1 Top (releaseRemote s)"
  using assms by (subst dial.simps(6)) auto

lemma setStage_same:
  "tid < length (tasks s) \<Longrightarrow> t_stage (tasks s ! tid) = st \<Longrightarrow>
   setStage tid (t_index (tasks s ! tid)) st s = s"
  by (auto simp: setStage_def)

lemma destroyed_after_mark:
  "k < length xs \<Longrightarrow>
   destroyed (xs[j := (xs ! j)\<lparr>destroyed := True\<rparr>] ! k) = (destroyed (xs ! k) \<or> j = k)"
  by (cases "j = k") simp_all

lemma destroyed_after_pump:
  "destroyed (xs[j := (xs ! j)\<lparr>pumps := n\<rparr>] ! k) = destroyed (xs ! k)"
  by (cases "j < length xs") (simp_all add: nth_list_update list_update_beyond)

lemma othersDestroyed_emit [simp]: "othersDestroyed L (emit e s) = othersDestroyed L s"
  by (simp add: othersDestroyed_def)

lemma othersDestroyed_markDestroyed:
  "othersDestroyed L s \<Longrightarrow> othersDestroyed L (markDestroyed k s)"
  by (auto simp: othersDestroyed_def markDestroyed_def destroyed_after_mark)

lemma othersDestroyed_releaseRemote:
  "othersDestroyed L s \<Longrightarrow> othersDestroyed L (releaseRemote s)"
  by (auto simp: othersDestroyed_def releaseRemote_def markDestroyed_def emit_def
      destroyed_after_mark split: option.splits)

lemma connectedPath_sockets:
  "remoteSocket (snd (connectedPath cfg first s)) = remoteSocket s \<and>
   length (sockets (snd (connectedPath cfg first s))) = length (sockets s) \<and>
   (\<forall>k<length (sockets s).
      destroyed (sockets (snd (connectedPath cfg first s)) ! k) = destroyed (sockets s ! k))"
  by (auto simp: connectedPath_def remoteWrite_def wsSend_def pumpRemoteToWebSocket_def emit_def
      destroyed_after_pump split: option.splits prod.splits if_splits)

lemma othersDestroyed_connectedPath:
  "othersDestroyed L s \<Longrightarrow> othersDestroyed L (snd (connectedPath cfg first s))"
  using connectedPath_sockets [of cfg first s] by (auto simp: othersDestroyed_def)

lemma dial_releases:
  "othersDestroyed L s \<Longrightarrow> L \<le> length (sockets s) \<Longrightarrow> entryOk L p s \<Longrightarrow>
   othersDestroyed L (snd (dial cfg env a first i p s))"
proof (induction cfg env a first i p s rule: dial.induct)
  case (1 cfg env a first i s)
  from "1.prems" have e: "entryOk L (AfterResolve r) (emit e s)" "entryOk L (Dial h) s" for r e h
    by (simp_all add: entryOk_def)
  show ?case
    using 1 e
    by (subst dial.simps(1)) (auto simp: Let_def split: awaited.splits)
next
  case (2 cfg env a first i r s)
  from "2.prems" have "entryOk L (Dial h) s" for h by (simp add: entryOk_def)
  with 2 show ?case by (subst dial.simps(2)) (simp add: Let_def)
next
  case (3 cfg env a first i resolvedHost s)
  let ?s1 = "emit (NetConnect resolvedHost (port a)) s"
  let ?s2 = "?s1\<lparr>sockets := sockets ?s1 @
                     [\<lparr>peer_host = resolvedHost, peer_port = port a, destroyed = False, pumps = 0\<rparr>],
                   remoteSocket := Some (length (sockets ?s1))\<rparr>"
  show ?case
  proof (cases "connectThrows cfg resolvedHost (port a)")
    case (Some m)
    have "othersDestroyed L (snd (dial cfg env a first i (Caught m) ?s1))"
      using "3.IH"(2) [OF Some] "3.prems" by (simp add: entryOk_def)
    with Some show ?thesis by (subst dial.simps(3)) simp
  next
    case None
    have o2: "othersDestroyed L ?s2"
      using "3.prems" by (auto simp: othersDestroyed_def entryOk_def nth_append)
    have l2: "L \<le> length (sockets ?s2)" using "3.prems" by simp
    show ?thesis
    proof (cases "connection_of env i")
      case Pending
      with None o2 show ?thesis by (subst dial.simps(3)) (simp add: Let_def)
    next
      case (Settled c)
      have "othersDestroyed L (snd (dial cfg env a first i (AfterConnect (length (sockets ?s1)) c) ?s2))"
        using "3.IH"(1) [OF None refl refl refl Settled o2 l2] by (simp add: entryOk_def)
      with None Settled show ?thesis by (subst dial.simps(3)) (simp add: Let_def)
    qed
  qed
next
  case (4 cfg env a first i sid s)
  show ?case
  proof (cases "connectedPath cfg first s")
    case (Pair r s1)
    have o1: "othersDestroyed L s1"
      using othersDestroyed_connectedPath [OF "4.prems"(1), of cfg first] Pair by simp
    have l1: "L \<le> length (sockets s1)"
      using connectedPath_sockets [of cfg first s] Pair "4.prems"(2) by simp
    show ?thesis
    proof (cases r)
      case None
      with Pair o1 show ?thesis by (subst dial.simps(4)) simp
    next
      case (Some m)
      with "4.IH" Pair o1 l1
      have "othersDestroyed L (snd (dial cfg env a first i (Caught m) s1))"
        by (simp add: entryOk_def)
      with Some Pair show ?thesis by (subst dial.simps(4)) simp
    qed
  qed
next
  case (5 cfg env a first i sid m s)
  have "othersDestroyed L (snd (dial cfg env a first i (Caught m) (markDestroyed sid s)))"
    using "5.IH" "5.prems" othersDestroyed_markDestroyed [of L s sid] by (simp add: entryOk_def)
  then show ?case by (subst dial.simps(5)) simp
next
  case (6 cfg env a first i m s)
  have o: "othersDestroyed L (releaseRemote s)"
    using "6.prems"(1) by (rule othersDestroyed_releaseRemote)
  show ?case
  proof (cases "\<not> isCFError m \<or> i = length (attempts cfg) - 1")
    case True
    with o show ?thesis by (subst dial.simps(6)) (simp del: attempts_length)
  next
    case False
    have "othersDestroyed L (snd (dial cfg env a first (i + 1) Top (releaseRemote s)))"
      using "6.IH" [OF False o] "6.prems"(2) by (simp add: entryOk_def)
    with False show ?thesis by (subst dial.simps(6)) (simp del: attempts_length)
  qed
qed

lemma dial_threw_releases_aux:
  "let r = dial cfg env a first i p s
   in (\<forall>m. fst r \<noteq> Threw m) \<or> remoteSocket (snd r) = None"
proof (induction cfg env a first i p s rule: dial.induct)
  case (1 cfg env a first i s)
  then show ?case
    by (subst dial.simps(1)) (auto simp: Let_def split: awaited.splits)
next
  case (2 cfg env a first i r s)
  then show ?case
    by (subst dial.simps(2)) (simp add: Let_def)
next
  case (3 cfg env a first i resolvedHost s)
  then show ?case
    by (subst dial.simps(3)) (auto simp: Let_def split: awaited.splits option.splits)
next
  case (4 cfg env a first i sid s)
  then show ?case
    by (subst dial.simps(4)) (auto simp: Let_def split: prod.splits option.splits)
next
  case (5 cfg env a first i sid m s)
  then show ?case
    by (subst dial.simps(5)) simp
next
  case (6 cfg env a first i m s)
  then show ?case
    by (subst dial.simps(6)) (auto simp: Let_def simp del: attempts_length)
qed

lemma dial_threw_releases:
  "fst (dial cfg env a first i p s) = Threw m \<Longrightarrow>
   remoteSocket (snd (dial cfg env a first i p s)) = None"
  using dial_threw_releases_aux [of cfg env a first i p s] by (auto simp: Let_def)

lemma streamingExample_value:
  "streamingExample =
     \<lparr>isClosed = False, remoteSocket = Some 0,
      sockets = [\<lparr>peer_host = ''93.184.216.34'', peer_port = Some 80, destroyed = False, pumps = 1\<rparr>],
      readyState = OPEN,
      tasks = [\<lparr>t_address = \<lparr>host = ''93.184.216.34'', port = Some 80\<rparr>, t_first = [],
                t_index = 0, t_stage = Finished\<rparr>],
      trace = [NetConnect ''93.184.216.34'' (Some 80), WsSend ''CONNECTED'']\<rparr>"
  by code_simp

lemma resolvingExample_value:
  "resolvingExample =
     \<lparr>isClosed = False, remoteSocket = None, sockets = [], readyState = OPEN,
      tasks = [\<lparr>t_address = \<lparr>host = ''example.com'', port = Some 80\<rparr>, t_first = ''hello'',
                t_index = 0, t_stage = AwaitResolve\<rparr>],
      trace = [Resolve ''example.com'']\<rparr>"
  by code_simp

lemma tasks_cleanup [simp]: "tasks (cleanup s) = tasks s"
  by (simp add: cleanup_def safeCloseWebSocket_def)

lemma tasks_wsSend [simp]: "tasks (snd (wsSend cfg d s)) = tasks s"
  by (simp add: wsSend_def)

lemma tasks_connectedPath [simp]: "tasks (snd (connectedPath cfg first s)) = tasks s"
  by (auto simp: connectedPath_def remoteWrite_def wsSend_def pumpRemoteToWebSocket_def
      split: option.splits prod.splits if_splits)

lemma tasks_dial [simp]: "tasks (snd (dial cfg env a first i p s)) = tasks s"
proof (induction cfg env a first i p s rule: dial.induct)
  case (1 cfg env a first i s)
  then show ?case by (subst dial.simps(1)) (auto simp: Let_def split: awaited.splits)
next
  case (2 cfg env a first i r s)
  then show ?case by (subst dial.simps(2)) (simp add: Let_def)
next
  case (3 cfg env a first i resolvedHost s)
  then show ?case
    by (subst dial.simps(3)) (auto simp: Let_def split: awaited.splits option.splits)
next
  case (4 cfg env a first i sid s)
  show ?case
  proof (cases "connectedPath cfg first s")
    case (Pair r s1)
    have "tasks s1 = tasks s" using tasks_connectedPath [of cfg first s] Pair by simp
    with 4 Pair show ?thesis by (subst dial.simps(4)) (auto split: option.splits)
  qed
next
  case (5 cfg env a first i sid m s)
  then show ?case by (subst dial.simps(5)) simp
next
  case (6 cfg env a first i m s)
  then show ?case by (subst dial.simps(6)) (auto simp del: attempts_length)
qed

lemma tasks_messageCatch [simp]: "tasks (messageCatch cfg m s) = tasks s"
  by (simp add: messageCatch_def)

lemma length_tasks_setStage [simp]: "length (tasks (setStage tid i st s)) = length (tasks s)"
  by (simp add: setStage_def)

lemma length_tasks_afterDial [simp]:
  "length (tasks (afterDial cfg tid rs)) = length (tasks (snd rs))"
proof (cases rs)
  case (Pair r s)
  then show ?thesis by (cases r) (simp_all add: afterDial_def)
qed

lemma length_tasks_resume [simp]: "length (tasks (resume cfg tid p s)) = length (tasks s)"
  by (simp add: resume_def Let_def)

lemma length_tasks_onMessage:
  "length (tasks (onMessage cfg d b s)) =
     (if \<not> isClosed s \<and> startsWith (toString d b) ''CONNECT:'' then Suc (length (tasks s))
      else length (tasks s))"
  by (auto simp: onMessage_def Let_def connectToRemote_def split: option.splits)

lemma tasks_onSocketData [simp]: "tasks (onSocketData cfg d s) = tasks s"
  by (simp add: onSocketData_def wsSend_def)

lemma tasks_onSocketEnd [simp]: "tasks (onSocketEnd cfg s) = tasks s"
  by (simp add: onSocketEnd_def)

lemma tasks_funpow:
  fixes f :: "session \<Rightarrow> session"
  shows "(\<And>x. tasks (f x) = tasks x) \<Longrightarrow> tasks ((f ^^ n) s) = tasks s"
  by (induction n) simp_all

lemma length_tasks_handle: "length (tasks s) \<le> length (tasks (handle cfg ev s))"
proof (cases ev)
  case (Message d b)
  then show ?thesis by (simp add: handle_def length_tasks_onMessage)
next
  case (SocketError sid m)
  have "tasks ((cleanup ^^ listeners s sid) (markDestroyed sid s)) = tasks s"
    by (simp add: tasks_funpow)
  with SocketError show ?thesis by (simp add: handle_def Let_def split: list.splits)
next
  case (SocketData sid d)
  then show ?thesis by (simp add: handle_def tasks_funpow)
next
  case (SocketEnd sid)
  then show ?thesis by (simp add: handle_def tasks_funpow)
qed (simp_all add: handle_def split: list.splits)

lemma othersDestroyed_fields [simp]:
  "othersDestroyed L (s\<lparr>tasks := ts\<rparr>) = othersDestroyed L s"
  "othersDestroyed L (s\<lparr>isClosed := c\<rparr>) = othersDestroyed L s"
  "othersDestroyed L (s\<lparr>readyState := rs\<rparr>) = othersDestroyed L s"
  "othersDestroyed L (s\<lparr>trace := tr\<rparr>) = othersDestroyed L s"
  by (simp_all add: othersDestroyed_def)

lemma singleDial_fields [simp]:
  "singleDial (s\<lparr>isClosed := c\<rparr>) = singleDial s"
  "singleDial (s\<lparr>readyState := rs\<rparr>) = singleDial s"
  "singleDial (emit e s) = singleDial s"
  by (simp_all add: singleDial_def)

lemma singleDial_markDestroyed: "singleDial s \<Longrightarrow> singleDial (markDestroyed k s)"
  by (simp add: singleDial_def othersDestroyed_markDestroyed)

lemma singleDial_releaseRemote: "singleDial s \<Longrightarrow> singleDial (releaseRemote s)"
  by (simp add: singleDial_def othersDestroyed_releaseRemote)

lemma singleDial_cleanup: "singleDial s \<Longrightarrow> singleDial (cleanup s)"
  by (simp add: cleanup_def safeCloseWebSocket_def singleDial_releaseRemote)

lemma singleDial_wsSend: "singleDial s \<Longrightarrow> singleDial (snd (wsSend cfg d s))"
  by (simp add: wsSend_def)

lemma singleDial_onSocketData: "singleDial s \<Longrightarrow> singleDial (onSocketData cfg d s)"
  using singleDial_wsSend [of s cfg d]
  by (auto simp: onSocketData_def singleDial_cleanup split: prod.splits option.splits)

lemma singleDial_onSocketEnd: "singleDial s \<Longrightarrow> singleDial (onSocketEnd cfg s)"
  by (simp add: onSocketEnd_def singleDial_cleanup singleDial_wsSend)

lemma singleDial_funpow:
  "(\<And>x. singleDial x \<Longrightarrow> singleDial (f x)) \<Longrightarrow> singleDial s \<Longrightarrow> singleDial ((f ^^ n) s)"
  by (induction n) simp_all

lemma dial_resolving_aux:
  "(p = Top \<longrightarrow> remoteSocket s = None) \<Longrightarrow>
   (let r = dial cfg env a first i p s
    in (\<forall>j. fst r \<noteq> Suspended j AwaitResolve) \<or> remoteSocket (snd r) = None)"
proof (induction cfg env a first i p s rule: dial.induct)
  case (1 cfg env a first i s)
  then show ?case
    by (subst dial.simps(1)) (auto simp: Let_def split: awaited.splits)
next
  case (2 cfg env a first i r s)
  then show ?case
    by (subst dial.simps(2)) (simp add: Let_def)
next
  case (3 cfg env a first i resolvedHost s)
  then show ?case
    by (subst dial.simps(3)) (auto simp: Let_def split: awaited.splits option.splits)
next
  case (4 cfg env a first i sid s)
  then show ?case
    by (subst dial.simps(4)) (auto simp: Let_def split: prod.splits option.splits)
next
  case (5 cfg env a first i sid m s)
  then show ?case
    by (subst dial.simps(5)) simp
next
  case (6 cfg env a first i m s)
  then show ?case
    by (subst dial.simps(6)) (auto simp: Let_def simp del: attempts_length)
qed

lemma singleDial_afterDial:
  assumes t: "tasks s = [t]" and o: "othersDestroyed 0 s" and e: "entryOk 0 p s"
    and n: "p = Top \<longrightarrow> remoteSocket s = None"
  shows "singleDial (afterDial cfg 0 (dial cfg env a first i p s))"
proof (cases "dial cfg env a first i p s")
  case (Pair r s')
  have t': "tasks s' = [t]"
    using tasks_dial [of cfg env a first i p s] Pair t by simp
  have o': "othersDestroyed 0 s'"
    using dial_releases [of 0 s p cfg env a first i] o e Pair by simp
  have z: "remoteSocket s' = None" if "r = Suspended j AwaitResolve" for j
    using dial_resolving_aux [OF n, of cfg env a first i] Pair that by (auto simp: Let_def)
  show ?thesis
  proof (cases r)
    case Returned
    with Pair t' o' show ?thesis
      by (simp add: afterDial_def setStage_def singleDial_def)
  next
    case (Threw m)
    have "singleDial (setStage 0 (t_index (tasks s' ! 0)) Finished s')"
      using t' o' by (simp add: setStage_def singleDial_def)
    then have "singleDial (messageCatch cfg m (setStage 0 (t_index (tasks s' ! 0)) Finished s'))"
      unfolding messageCatch_def by (intro singleDial_cleanup singleDial_wsSend)
    with Pair Threw show ?thesis by (simp add: afterDial_def)
  next
    case (Suspended j st)
    with Pair t' o' z [of j] show ?thesis
      by (auto simp: afterDial_def setStage_def singleDial_def)
  qed
qed

lemma singleDial_resume:
  assumes "singleDial s" and "length (tasks s) \<le> 1" and "tid < length (tasks s)"
    and "entryOk 0 p s" and "p \<noteq> Top"
  shows "singleDial (resume cfg tid p s)"
proof -
  from assms(2,3) have tid: "tid = 0" by simp
  with assms(2,3) obtain t where t: "tasks s = [t]" by (cases "tasks s") simp_all
  from assms(1) have o: "othersDestroyed 0 s" by (simp add: singleDial_def)
  from singleDial_afterDial [OF t o assms(4), of cfg noneSettled] assms(5)
  show ?thesis by (simp add: resume_def Let_def tid)
qed

lemma set_awaitingConnect: "tid \<in> set (awaitingConnect s sid) \<Longrightarrow> tid < length (tasks s)"
  by (simp add: awaitingConnect_def)

lemma singleDial_onMessage:
  assumes "singleDial s" and "length (tasks (onMessage cfg d b s)) \<le> 1"
  shows "singleDial (onMessage cfg d b s)"
proof (cases "\<not> isClosed s \<and> startsWith (toString d b) ''CONNECT:''")
  case True
  with assms(2) have e: "tasks s = []" by (simp add: length_tasks_onMessage)
  with assms(1) have n: "remoteSocket s = None" and o: "othersDestroyed 0 s"
    by (simp_all add: singleDial_def)
  let ?a = "parseAddress (substring (toString d b) 8 (indexOf (toString d b) CHR ''|'' 8))"
  let ?f = "substringFrom (toString d b) (indexOf (toString d b) CHR ''|'' 8 + 1)"
  let ?t = "\<lparr>t_address = ?a, t_first = ?f, t_index = 0, t_stage = Finished\<rparr>"
  let ?s1 = "s\<lparr>tasks := tasks s @ [?t]\<rparr>"
  have "singleDial (afterDial cfg 0 (dial cfg noneSettled ?a ?f 0 Top ?s1))"
    using e n o by (intro singleDial_afterDial [where t = ?t]) (simp_all add: entryOk_def)
  with True e show ?thesis using onMessage_connect [of s d b cfg] by simp
next
  case False
  with assms(1) show ?thesis
    by (auto simp: onMessage_def Let_def singleDial_cleanup split: option.splits)
qed

lemma singleDial_handle:
  assumes "singleDial s" and "length (tasks (handle cfg ev s)) \<le> 1"
  shows "singleDial (handle cfg ev s)"
proof -
  from assms(2) length_tasks_handle [of s cfg ev] have l: "length (tasks s) \<le> 1" by simp
  show ?thesis
  proof (cases ev)
    case (Message d b)
    with assms show ?thesis by (simp add: handle_def singleDial_onMessage)
  next
    case ClientClose
    with assms show ?thesis by (simp add: handle_def singleDial_cleanup)
  next
    case ClientError
    with assms show ?thesis by (simp add: handle_def singleDial_cleanup)
  next
    case (ResolveSettled tid r)
    show ?thesis
    proof (cases "tid < length (tasks s) \<and> t_stage (tasks s ! tid) = AwaitResolve")
      case True
      with assms(1) have "entryOk 0 (AfterResolve r) s"
        by (auto simp: singleDial_def entryOk_def)
      with True assms(1) l have "singleDial (resume cfg tid (AfterResolve r) s)"
        by (intro singleDial_resume) simp_all
      with True ResolveSettled show ?thesis by (simp add: handle_def)
    next
      case False
      with ResolveSettled assms(1) show ?thesis by (auto simp: handle_def)
    qed
  next
    case (SocketConnect sid)
    show ?thesis
    proof (cases "awaitingConnect s sid")
      case Nil
      with SocketConnect assms(1) show ?thesis by (simp add: handle_def)
    next
      case (Cons tid rest)
      then have "tid < length (tasks s)" using set_awaitingConnect [of tid s sid] by simp
      with assms(1) l have "singleDial (resume cfg tid (AfterConnect sid ConnectOk) s)"
        by (intro singleDial_resume) (simp_all add: entryOk_def)
      with Cons SocketConnect show ?thesis by (simp add: handle_def)
    qed
  next
    case (SocketError sid m)
    let ?s1 = "(cleanup ^^ listeners s sid) (markDestroyed sid s)"
    have i1: "singleDial ?s1"
      using assms(1) by (intro singleDial_funpow singleDial_cleanup singleDial_markDestroyed)
    have t1: "tasks ?s1 = tasks s" by (simp add: tasks_funpow)
    show ?thesis
    proof (cases "awaitingConnect ?s1 sid")
      case Nil
      with SocketError i1 show ?thesis by (simp add: handle_def Let_def)
    next
      case (Cons tid rest)
      then have "tid < length (tasks ?s1)" using set_awaitingConnect [of tid ?s1 sid] by simp
      with i1 l t1 have "singleDial (resume cfg tid (AfterConnect sid (ConnectError m)) ?s1)"
        by (intro singleDial_resume) (simp_all add: entryOk_def)
      with Cons SocketError show ?thesis by (simp add: handle_def Let_def)
    qed
  next
    case (SocketData sid d)
    have "singleDial ((onSocketData cfg d ^^ listeners s sid) s)"
      using assms(1) by (intro singleDial_funpow singleDial_onSocketData)
    with SocketData show ?thesis by (simp add: handle_def)
  next
    case (SocketEnd sid)
    have "singleDial ((onSocketEnd cfg ^^ listeners s sid) s)"
      using assms(1) by (intro singleDial_funpow singleDial_onSocketEnd)
    with SocketEnd show ?thesis by (simp add: handle_def)
  next
    case (SocketClosed sid)
    with assms(1) show ?thesis by (simp add: handle_def singleDial_markDestroyed)
  qed
qed

lemma run_snoc: "run cfg (evs @ [ev]) s = handle cfg ev (run cfg evs s)"
  by (simp add: run_def)

lemma singleDial_run:
  "length (tasks (run cfg evs initialSession)) \<le> 1 \<Longrightarrow> singleDial (run cfg evs initialSession)"
proof (induction evs rule: rev_induct)
  case Nil
  show ?case by (simp add: run_def singleDial_def othersDestroyed_def initialSession_def)
next
  case (snoc ev evs)
  from snoc.prems length_tasks_handle [of "run cfg evs initialSession" cfg ev]
  have "length (tasks (run cfg evs initialSession)) \<le> 1" by (simp add: run_snoc)
  with snoc.IH have "singleDial (run cfg evs initialSession)" by simp
  with snoc.prems show ?case by (simp add: run_snoc singleDial_handle)
qed

text \<open>
  Claim C7, as amended. For every frame received while the session is not closed and
  \<open>remoteSocket\<close> holds a socket that is not destroyed: a frame whose text,
  \<open>data.toString()\<close>, starts with \<open>DATA:\<close> causes exactly the rest of that text to be
  written to the socket. For a String \<open>DATA:\<close> followed by \<open>bytes\<close> this is \<open>bytes\<close>. For a
  \<open>Buffer\<close> \<open>DATA:\<close> followed by \<open>bytes\<close> it is the text of \<open>bytes\<close>: \<open>bytes\<close> itself when
  they are ASCII, and in general \<open>bytes\<close> with \<open>EF BF BD\<close> in place of every sequence that
  is not well-formed UTF-8. A \<open>Buffer\<close> whose text does not start with \<open>CONNECT:\<close> or
  \<open>DATA:\<close> and is not \<open>CLOSE\<close> is written to the socket as it is, byte for byte. In all
  these cases nothing else changes.
\<close>

theorem frame_forwarding:
  assumes "\<not> isClosed s" and "remoteSocket s = Some k" and "socketOpen s k"
  shows "(startsWith (toString d b) ''DATA:'' \<longrightarrow>
            handle cfg (Message d b) s
              = s\<lparr>trace := trace s @ [SockWrite k (substringFrom (toString d b) 5)]\<rparr>) \<and>
         handle cfg (Message (''DATA:'' @ bytes) False) s
           = s\<lparr>trace := trace s @ [SockWrite k bytes]\<rparr> \<and>
         handle cfg (Message (''DATA:'' @ bytes) True) s
           = s\<lparr>trace := trace s @ [SockWrite k (bufferToString bytes)]\<rparr> \<and>
         ((\<forall>c \<in> set bytes. (of_char c :: nat) < 128) \<longrightarrow> bufferToString bytes = bytes) \<and>
         (\<not> startsWith (toString e True) ''CONNECT:'' \<and> \<not> startsWith (toString e True) ''DATA:'' \<and>
          toString e True \<noteq> ''CLOSE'' \<longrightarrow>
            handle cfg (Message e True) s = s\<lparr>trace := trace s @ [SockWrite k e]\<rparr>)"
proof (intro conjI impI)
  assume "startsWith (toString d b) ''DATA:''"
  from onMessage_data [OF assms(1) this, of cfg] assms(2,3)
  show "handle cfg (Message d b) s
      = s\<lparr>trace := trace s @ [SockWrite k (substringFrom (toString d b) 5)]\<rparr>"
    by (simp add: handle_message emit_def)
next
  have r: "substringFrom (''DATA:'' @ t) 5 = t" for t
    using substringFrom_suffix [of "''DATA:''" t] by simp
  have y: "startsWith (toString (''DATA:'' @ bytes) c) ''DATA:''" for c
    unfolding toString_DATA by (rule startsWith_append)
  from onMessage_data [OF assms(1) y, of cfg False] assms(2,3)
  show "handle cfg (Message (''DATA:'' @ bytes) False) s
      = s\<lparr>trace := trace s @ [SockWrite k bytes]\<rparr>"
    unfolding toString_DATA r by (simp add: handle_message emit_def toString_def)
  from onMessage_data [OF assms(1) y, of cfg True] assms(2,3)
  show "handle cfg (Message (''DATA:'' @ bytes) True) s
      = s\<lparr>trace := trace s @ [SockWrite k (bufferToString bytes)]\<rparr>"
    unfolding toString_DATA r by (simp add: handle_message emit_def toString_def)
next
  assume "\<forall>c \<in> set bytes. (of_char c :: nat) < 128"
  then show "bufferToString bytes = bytes" by (rule bufferToString_ascii)
next
  assume "\<not> startsWith (toString e True) ''CONNECT:'' \<and> \<not> startsWith (toString e True) ''DATA:'' \<and>
          toString e True \<noteq> ''CLOSE''"
  with onMessage_other [OF assms(1), of e True cfg] assms(2,3)
  show "handle cfg (Message e True) s = s\<lparr>trace := trace s @ [SockWrite k e]\<rparr>"
    by (simp add: handle_message emit_def)
qed

theorem frame_forwarding_witness:
  "\<not> isClosed streamingExample \<and> remoteSocket streamingExample = Some 0 \<and>
   socketOpen streamingExample 0 \<and>
   startsWith (toString ''DATA:abc'' True) ''DATA:'' \<and>
   handle (exampleConfig False [] True) (Message ''DATA:abc'' True) streamingExample
     = streamingExample\<lparr>trace := trace streamingExample @
         [SockWrite 0 (substringFrom (toString ''DATA:abc'' True) 5)]\<rparr> \<and>
   handle (exampleConfig False [] True) (Message (''DATA:'' @ ''abc'') False) streamingExample
     = streamingExample\<lparr>trace := trace streamingExample @ [SockWrite 0 ''abc'']\<rparr> \<and>
   handle (exampleConfig False [] True) (Message (''DATA:'' @ ''abc'') True) streamingExample
     = streamingExample\<lparr>trace := trace streamingExample @ [SockWrite 0 (bufferToString ''abc'')]\<rparr> \<and>
   bufferToString ''abc'' = ''abc'' \<and>
   \<not> startsWith (toString ''GET / HTTP/1.0'' True) ''CONNECT:'' \<and>
   \<not> startsWith (toString ''GET / HTTP/1.0'' True) ''DATA:'' \<and>
   toString ''GET / HTTP/1.0'' True \<noteq> ''CLOSE'' \<and>
   handle (exampleConfig False [] True) (Message ''GET / HTTP/1.0'' True) streamingExample
     = streamingExample\<lparr>trace := trace streamingExample @ [SockWrite 0 ''GET / HTTP/1.0'']\<rparr>"
proof -
  have a: "\<not> isClosed streamingExample" "remoteSocket streamingExample = Some 0"
    "socketOpen streamingExample 0"
    by (simp_all add: streamingExample_value socketOpen_def)
  have t: "toString ''DATA:abc'' True = ''DATA:abc''"
    "toString ''GET / HTTP/1.0'' True = ''GET / HTTP/1.0''"
    by code_simp+
  have y: "startsWith (toString ''DATA:abc'' True) ''DATA:''"
    unfolding t by (simp add: startsWith_def)
  have n: "\<not> startsWith (toString ''GET / HTTP/1.0'' True) ''CONNECT:'' \<and>
      \<not> startsWith (toString ''GET / HTTP/1.0'' True) ''DATA:'' \<and>
      toString ''GET / HTTP/1.0'' True \<noteq> ''CLOSE''"
    unfolding t by (simp add: startsWith_def)
  have c: "\<forall>c \<in> set ''abc''. (of_char c :: nat) < 128" by simp
  from frame_forwarding
    [OF a, where cfg = "exampleConfig False [] True" and d = "''DATA:abc''" and b = True
       and bytes = "''abc''" and e = "''GET / HTTP/1.0''"] y n c a
  show ?thesis by blast
qed

text \<open>
  The claim as stated fails in two ways. A binary frame whose text is a command is not
  forwarded verbatim: of \<open>DATA:abc\<close> only \<open>abc\<close> is written, and \<open>CLOSE\<close> tears the session
  down and is not forwarded, because the handler looks at \<open>data.toString()\<close> first and at
  the kind of the frame last. And a \<open>DATA:\<close> frame that arrives as a \<open>Buffer\<close> does not
  have exactly its bytes written when they are not well-formed UTF-8: for \<open>DATA:\<close>
  followed by the bytes \<open>FF FE\<close>, the bytes \<open>EF BF BD EF BF BD\<close> are written.
\<close>

theorem frame_forwarding_counterexample:
  "trace (run (exampleConfig False [] True)
      [Message ''CONNECT:93.184.216.34:80|'' False, SocketConnect 0, Message ''DATA:abc'' True]
      initialSession)
     = [NetConnect ''93.184.216.34'' (Some 80), WsSend ''CONNECTED'', SockWrite 0 ''abc''] \<and>
   trace (run (exampleConfig False [] True)
      [Message ''CONNECT:93.184.216.34:80|'' False, SocketConnect 0, Message ''CLOSE'' True]
      initialSession)
     = [NetConnect ''93.184.216.34'' (Some 80), WsSend ''CONNECTED'', MarkClosed, SockDestroy 0,
        WsClose] \<and>
   trace (run (exampleConfig False [] True)
      [Message ''CONNECT:93.184.216.34:80|'' False, SocketConnect 0,
       Message (''DATA:'' @ [CHR 0xFF, CHR 0xFE]) True]
      initialSession)
     = [NetConnect ''93.184.216.34'' (Some 80), WsSend ''CONNECTED'',
        SockWrite 0 [CHR 0xEF, CHR 0xBF, CHR 0xBD, CHR 0xEF, CHR 0xBF, CHR 0xBD]]"
  by code_simp

text \<open>
  Claim C8, as amended. A \<open>DATA:\<close> frame or other data frame that arrives while the
  session is connecting is handled by the guard used in every state. While
  \<open>remoteSocket\<close> holds no socket, which in the second variant is the case while the
  candidate's name is being resolved, every frame whose text is neither a
  Connect-request nor \<open>CLOSE\<close> is discarded and the session is left exactly as it was:
  nothing is written, queued or sent to the client. Once \<open>net.connect\<close> has made the
  socket, which in the first variant happens in the handler of the Connect-request
  itself, a frame whose text starts with \<open>DATA:\<close> has the rest of that text passed to
  \<open>write\<close> on that socket at once, and a \<open>Buffer\<close> whose text is no command is passed to
  \<open>write\<close> as it is.
\<close>

theorem data_while_connecting:
  fixes cfg :: config and s :: session and c :: string and cb :: bool
  defines "message \<equiv> toString c cb"
    and "a \<equiv> parseAddress (substring (toString c cb) 8 (indexOf (toString c cb) CHR ''|'' 8))"
    and "s1 \<equiv> handle cfg (Message c cb) s"
  assumes "\<not> isClosed s"
  shows
    "(remoteSocket s = None \<and> \<not> startsWith (toString d b) ''CONNECT:'' \<and>
      toString d b \<noteq> ''CLOSE'' \<longrightarrow>
        handle cfg (Message d b) s = s) \<and>
     (remoteSocket s = Some k \<and> socketOpen s k \<and> startsWith (toString d b) ''DATA:'' \<longrightarrow>
        handle cfg (Message d b) s
          = s\<lparr>trace := trace s @ [SockWrite k (substringFrom (toString d b) 5)]\<rparr>) \<and>
     (remoteSocket s = Some k \<and> socketOpen s k \<and>
      \<not> startsWith (toString d True) ''CONNECT:'' \<and> \<not> startsWith (toString d True) ''DATA:'' \<and>
      toString d True \<noteq> ''CLOSE'' \<longrightarrow>
        handle cfg (Message d True) s = s\<lparr>trace := trace s @ [SockWrite k d]\<rparr>) \<and>
     (startsWith message ''CONNECT:'' \<and> remoteSocket s = None \<and>
      doh cfg \<and> \<not> net_isIP cfg (host a) \<longrightarrow>
        \<not> isClosed s1 \<and> remoteSocket s1 = None \<and>
        (\<not> startsWith (toString d b) ''CONNECT:'' \<and> toString d b \<noteq> ''CLOSE'' \<longrightarrow>
           handle cfg (Message d b) s1 = s1)) \<and>
     (startsWith message ''CONNECT:'' \<and> \<not> (doh cfg \<and> \<not> net_isIP cfg (host a)) \<and>
      connectThrows cfg (host a) (port a) = None \<longrightarrow>
        (startsWith (toString d b) ''DATA:'' \<longrightarrow>
           handle cfg (Message d b) s1
             = s1\<lparr>trace := trace s1 @
                   [SockWrite (length (sockets s)) (substringFrom (toString d b) 5)]\<rparr>) \<and>
        (\<not> startsWith (toString d True) ''CONNECT:'' \<and> \<not> startsWith (toString d True) ''DATA:'' \<and>
         toString d True \<noteq> ''CLOSE'' \<longrightarrow>
           handle cfg (Message d True) s1
             = s1\<lparr>trace := trace s1 @ [SockWrite (length (sockets s)) d]\<rparr>))"
proof (intro conjI impI)
  note o = \<open>\<not> isClosed s\<close>
  {
    assume "remoteSocket s = None \<and> \<not> startsWith (toString d b) ''CONNECT:'' \<and>
      toString d b \<noteq> ''CLOSE''"
    with onMessage_no_socket [OF o, of d b cfg]
    show "handle cfg (Message d b) s = s" by (simp add: handle_message)
  next
    assume h: "remoteSocket s = Some k \<and> socketOpen s k \<and> startsWith (toString d b) ''DATA:''"
    then have y: "startsWith (toString d b) ''DATA:''" by simp
    from onMessage_data [OF o y, of cfg] h
    show "handle cfg (Message d b) s
        = s\<lparr>trace := trace s @ [SockWrite k (substringFrom (toString d b) 5)]\<rparr>"
      by (simp add: handle_message emit_def)
  next
    assume "remoteSocket s = Some k \<and> socketOpen s k \<and>
      \<not> startsWith (toString d True) ''CONNECT:'' \<and> \<not> startsWith (toString d True) ''DATA:'' \<and>
      toString d True \<noteq> ''CLOSE''"
    with onMessage_other [OF o, of d True cfg]
    show "handle cfg (Message d True) s = s\<lparr>trace := trace s @ [SockWrite k d]\<rparr>"
      by (simp add: handle_message emit_def)
  }
  {
    assume h: "startsWith message ''CONNECT:'' \<and> remoteSocket s = None \<and>
      doh cfg \<and> \<not> net_isIP cfg (host a)"
    then have "startsWith (toString c cb) ''CONNECT:''" by (simp add: message_def)
    from onMessage_connect [OF o this, of cfg] h
    have c1: "\<not> isClosed s1 \<and> remoteSocket s1 = None"
      unfolding s1_def handle_message a_def
      using o by (simp add: dial_starts_resolution afterDial_def setStage_def)
    then show "\<not> isClosed s1" and "remoteSocket s1 = None" by simp_all
    assume "\<not> startsWith (toString d b) ''CONNECT:'' \<and> toString d b \<noteq> ''CLOSE''"
    with onMessage_no_socket [of s1 d b cfg] c1
    show "handle cfg (Message d b) s1 = s1" by (simp add: handle_message)
  }
  {
    assume h: "startsWith message ''CONNECT:'' \<and> \<not> (doh cfg \<and> \<not> net_isIP cfg (host a)) \<and>
      connectThrows cfg (host a) (port a) = None"
    then have "startsWith (toString c cb) ''CONNECT:''" by (simp add: message_def)
    from onMessage_connect [OF o this, of cfg] h
    have c1: "\<not> isClosed s1 \<and> remoteSocket s1 = Some (length (sockets s)) \<and>
        socketOpen s1 (length (sockets s))"
      unfolding s1_def handle_message a_def
      using o by (simp add: dial_starts_connect afterDial_def setStage_def socketOpen_def)
    {
      assume y: "startsWith (toString d b) ''DATA:''"
      from c1 onMessage_data [OF _ y, of s1 cfg]
      show "handle cfg (Message d b) s1
          = s1\<lparr>trace := trace s1 @
                [SockWrite (length (sockets s)) (substringFrom (toString d b) 5)]\<rparr>"
        by (simp add: handle_message emit_def)
    next
      assume "\<not> startsWith (toString d True) ''CONNECT:'' \<and> \<not> startsWith (toString d True) ''DATA:'' \<and>
        toString d True \<noteq> ''CLOSE''"
      with c1 onMessage_other [of s1 d True cfg]
      show "handle cfg (Message d True) s1
          = s1\<lparr>trace := trace s1 @ [SockWrite (length (sockets s)) d]\<rparr>"
        by (simp add: handle_message emit_def)
    }
  }
qed

theorem data_while_connecting_witness:
  "\<not> isClosed resolvingExample \<and> remoteSocket resolvingExample = None \<and>
   \<not> startsWith (toString ''DATA:x'' False) ''CONNECT:'' \<and> toString ''DATA:x'' False \<noteq> ''CLOSE'' \<and>
   handle (exampleConfig True [] True) (Message ''DATA:x'' False) resolvingExample
     = resolvingExample \<and>
   \<not> isClosed initialSession \<and>
   startsWith (toString ''CONNECT:93.184.216.34:80|hello'' False) ''CONNECT:'' \<and>
   connectThrows (exampleConfig False [] True) ''93.184.216.34'' (Some 80) = None \<and>
   startsWith (toString ''DATA:x'' False) ''DATA:'' \<and>
   handle (exampleConfig False [] True) (Message ''DATA:x'' False)
     (handle (exampleConfig False [] True) (Message ''CONNECT:93.184.216.34:80|hello'' False)
        initialSession)
     = (handle (exampleConfig False [] True) (Message ''CONNECT:93.184.216.34:80|hello'' False)
          initialSession)
         \<lparr>trace :=
            trace (handle (exampleConfig False [] True)
                     (Message ''CONNECT:93.184.216.34:80|hello'' False) initialSession)
            @ [SockWrite 0 ''x'']\<rparr>"
proof -
  let ?cfg2 = "exampleConfig True [] True" and ?cfg1 = "exampleConfig False [] True"
  let ?c = "''CONNECT:93.184.216.34:80|hello''"
  have a: "\<not> isClosed resolvingExample" "remoteSocket resolvingExample = None"
    by (simp_all add: resolvingExample_value)
  have i: "\<not> isClosed initialSession" "length (sockets initialSession) = 0"
    by (simp_all add: initialSession_def)
  have t: "toString ''DATA:x'' False = ''DATA:x''" "toString ?c False = ?c"
    by (simp_all add: toString_def)
  have n: "\<not> startsWith (toString ''DATA:x'' False) ''CONNECT:''"
    "toString ''DATA:x'' False \<noteq> ''CLOSE''"
    "startsWith (toString ''DATA:x'' False) ''DATA:''"
    "startsWith (toString ?c False) ''CONNECT:''"
    unfolding t by (simp_all add: startsWith_def)
  have p: "parseAddress (substring (toString ?c False) 8 (indexOf (toString ?c False) CHR ''|'' 8))
      = \<lparr>host = ''93.184.216.34'', port = Some 80\<rparr>"
    by code_simp
  have q: "\<not> (doh ?cfg1 \<and> \<not> net_isIP ?cfg1 ''93.184.216.34'')"
    "connectThrows ?cfg1 ''93.184.216.34'' (Some 80) = None"
    by (simp_all add: exampleConfig_def)
  have r: "substringFrom (toString ''DATA:x'' False) 5 = ''x''" by code_simp
  note one = data_while_connecting
    [where s = resolvingExample and cfg = ?cfg2 and d = "''DATA:x''" and b = False,
     OF a(1), THEN conjunct1]
  note two = data_while_connecting
    [where s = initialSession and cfg = ?cfg1 and c = ?c and cb = False
       and d = "''DATA:x''" and b = False,
     OF i(1), THEN conjunct2, THEN conjunct2, THEN conjunct2, THEN conjunct2,
     unfolded p r i(2) address.simps]
  from one two a i(1) n q show ?thesis by blast
qed

text \<open>
  The claim as stated (such data is queued or explicitly rejected, never silently
  dropped) fails in the second variant: a \<open>DATA:x\<close> frame that arrives during the
  resolution leaves the state unchanged, and after the connection is established the
  trace holds the first frame only.
\<close>

theorem data_while_connecting_counterexample:
  "handle (exampleConfig True [] True) (Message ''DATA:x'' False)
     (handle (exampleConfig True [] True) (Message ''CONNECT:example.com:80|hello'' False)
        initialSession)
   = handle (exampleConfig True [] True) (Message ''CONNECT:example.com:80|hello'' False)
        initialSession \<and>
   trace (run (exampleConfig True [] True)
      [Message ''CONNECT:example.com:80|hello'' False, Message ''DATA:x'' False,
       ResolveSettled 0 (ResolvedTo ''93.184.216.34''), SocketConnect 0]
      initialSession)
     = [Resolve ''example.com'', NetConnect ''93.184.216.34'' (Some 80),
        SockWrite 0 ''hello'', WsSend ''CONNECTED'']"
  by code_simp

text \<open>
  Claim C4, as amended. The code does not limit a session to one outstanding connect
  attempt: it keeps no record of a dial in progress, and a Connect-request received
  while the session is not closed starts a dial whatever the state of the session,
  connecting and streaming included. Let \<open>a\<close> be the address and \<open>first\<close> the first frame
  that the handler cuts out of the request. In the second variant, when the host of \<open>a\<close>
  is not a literal IP, the handler calls the resolver and suspends, and nothing else
  changes. Otherwise it calls \<open>net.connect\<close>. When that call does not raise, the handler
  stores the new socket in \<open>remoteSocket\<close> and suspends, and nothing else changes: no
  frame is sent to the client, the session is not closed, and the socket held before is
  not destroyed. When the call raises, \<open>remoteSocket\<close> still holds the socket held
  before, and the \<open>catch\<close> block destroys that socket; then, when the error is of the
  retryable class and a fallback is configured, the dial goes on with the first
  fallback, and when not, the handler sends \<open>ERROR:\<close> with the error's message and
  closes the session.

  As long as the session has handled a single Connect-request it keeps at most one
  connection: whatever the events, every socket the session has made is destroyed,
  except the one held in \<open>remoteSocket\<close>.
\<close>

theorem connect_request_unguarded:
  fixes cfg :: config and s :: session and d :: string and b :: bool
  defines "message \<equiv> toString d b"
    and "a \<equiv> parseAddress (substring (toString d b) 8 (indexOf (toString d b) CHR ''|'' 8))"
    and "first \<equiv> substringFrom (toString d b) (indexOf (toString d b) CHR ''|'' 8 + 1)"
  shows
    "(\<not> isClosed s \<and> startsWith message ''CONNECT:'' \<and>
      doh cfg \<and> \<not> net_isIP cfg (host a) \<longrightarrow>
        handle cfg (Message d b) s =
          s\<lparr>tasks := tasks s @
               [\<lparr>t_address = a, t_first = first, t_index = 0, t_stage = AwaitResolve\<rparr>],
            trace := trace s @ [Resolve (host a)]\<rparr>) \<and>
     (\<not> isClosed s \<and> startsWith message ''CONNECT:'' \<and>
      \<not> (doh cfg \<and> \<not> net_isIP cfg (host a)) \<and> connectThrows cfg (host a) (port a) = None \<longrightarrow>
        handle cfg (Message d b) s =
          s\<lparr>tasks := tasks s @
               [\<lparr>t_address = a, t_first = first, t_index = 0,
                 t_stage = AwaitConnect (length (sockets s))\<rparr>],
            sockets := sockets s @
               [\<lparr>peer_host = host a, peer_port = port a, destroyed = False, pumps = 0\<rparr>],
            remoteSocket := Some (length (sockets s)),
            trace := trace s @ [NetConnect (host a) (port a)]\<rparr>) \<and>
     (\<not> isClosed s \<and> startsWith message ''CONNECT:'' \<and>
      \<not> (doh cfg \<and> \<not> net_isIP cfg (host a)) \<and> connectThrows cfg (host a) (port a) = Some e \<and>
      isCFError e \<and> CF_FALLBACK_IPS cfg \<noteq> [] \<longrightarrow>
        handle cfg (Message d b) s =
          afterDial cfg (length (tasks s))
            (dial cfg noneSettled a first 1 Top
               (releaseRemote
                  (s\<lparr>tasks := tasks s @
                        [\<lparr>t_address = a, t_first = first, t_index = 0, t_stage = Finished\<rparr>],
                     trace := trace s @ [NetConnect (host a) (port a)]\<rparr>)))) \<and>
     (\<not> isClosed s \<and> startsWith message ''CONNECT:'' \<and>
      \<not> (doh cfg \<and> \<not> net_isIP cfg (host a)) \<and> connectThrows cfg (host a) (port a) = Some e \<and>
      (\<not> isCFError e \<or> CF_FALLBACK_IPS cfg = []) \<longrightarrow>
        handle cfg (Message d b) s =
          messageCatch cfg e
            (releaseRemote
               (s\<lparr>tasks := tasks s @
                     [\<lparr>t_address = a, t_first = first, t_index = 0, t_stage = Finished\<rparr>],
                  trace := trace s @ [NetConnect (host a) (port a)]\<rparr>))) \<and>
     (\<not> isClosed s \<and> startsWith message ''CONNECT:'' \<and>
      \<not> (doh cfg \<and> \<not> net_isIP cfg (host a)) \<and> connectThrows cfg (host a) (port a) = Some e \<and>
      (\<not> isCFError e \<or> CF_FALLBACK_IPS cfg = []) \<and>
      remoteSocket s = Some k \<and> readyState s = OPEN \<longrightarrow>
        handle cfg (Message d b) s =
          s\<lparr>isClosed := True, remoteSocket := None,
            sockets := (sockets s)[k := (sockets s ! k)\<lparr>destroyed := True\<rparr>],
            readyState := CLOSING,
            tasks := tasks s @
               [\<lparr>t_address = a, t_first = first, t_index = 0, t_stage = Finished\<rparr>],
            trace := trace s @
               [NetConnect (host a) (port a), SockDestroy k, WsSend (''ERROR:'' @ e),
                MarkClosed, WsClose]\<rparr>) \<and>
     (length (tasks (run cfg evs initialSession)) \<le> 1 \<longrightarrow>
        othersDestroyed 0 (run cfg evs initialSession))"
proof (intro conjI impI)
  assume h: "\<not> isClosed s \<and> startsWith message ''CONNECT:'' \<and>
      doh cfg \<and> \<not> net_isIP cfg (host a)"
  then have "\<not> isClosed s" "startsWith (toString d b) ''CONNECT:''"
    by (simp_all add: message_def)
  from onMessage_connect [OF this, of cfg] h
  show "handle cfg (Message d b) s =
          s\<lparr>tasks := tasks s @
               [\<lparr>t_address = a, t_first = first, t_index = 0, t_stage = AwaitResolve\<rparr>],
            trace := trace s @ [Resolve (host a)]\<rparr>"
    unfolding handle_message a_def first_def
    by (simp add: dial_starts_resolution afterDial_def setStage_def emit_def)
next
  assume h: "\<not> isClosed s \<and> startsWith message ''CONNECT:'' \<and>
      \<not> (doh cfg \<and> \<not> net_isIP cfg (host a)) \<and> connectThrows cfg (host a) (port a) = None"
  then have "\<not> isClosed s" "startsWith (toString d b) ''CONNECT:''"
    by (simp_all add: message_def)
  from onMessage_connect [OF this, of cfg] h
  show "handle cfg (Message d b) s =
          s\<lparr>tasks := tasks s @
               [\<lparr>t_address = a, t_first = first, t_index = 0,
                 t_stage = AwaitConnect (length (sockets s))\<rparr>],
            sockets := sockets s @
               [\<lparr>peer_host = host a, peer_port = port a, destroyed = False, pumps = 0\<rparr>],
            remoteSocket := Some (length (sockets s)),
            trace := trace s @ [NetConnect (host a) (port a)]\<rparr>"
    unfolding handle_message a_def first_def
    by (simp add: dial_starts_connect afterDial_def setStage_def)
next
  assume h: "\<not> isClosed s \<and> startsWith message ''CONNECT:'' \<and>
      \<not> (doh cfg \<and> \<not> net_isIP cfg (host a)) \<and> connectThrows cfg (host a) (port a) = Some e \<and>
      isCFError e \<and> CF_FALLBACK_IPS cfg \<noteq> []"
  then have "\<not> isClosed s" "startsWith (toString d b) ''CONNECT:''"
    by (simp_all add: message_def)
  from onMessage_connect [OF this, of cfg] h
  show "handle cfg (Message d b) s =
          afterDial cfg (length (tasks s))
            (dial cfg noneSettled a first 1 Top
               (releaseRemote
                  (s\<lparr>tasks := tasks s @
                        [\<lparr>t_address = a, t_first = first, t_index = 0, t_stage = Finished\<rparr>],
                     trace := trace s @ [NetConnect (host a) (port a)]\<rparr>)))"
    unfolding handle_message a_def first_def
    by (simp add: dial_connect_throws dial_caught_retry emit_def)
next
  assume h: "\<not> isClosed s \<and> startsWith message ''CONNECT:'' \<and>
      \<not> (doh cfg \<and> \<not> net_isIP cfg (host a)) \<and> connectThrows cfg (host a) (port a) = Some e \<and>
      (\<not> isCFError e \<or> CF_FALLBACK_IPS cfg = [])"
  then have o: "\<not> isClosed s" "startsWith (toString d b) ''CONNECT:''"
    by (simp_all add: message_def)
  from h have l: "\<not> isCFError e \<or> CF_FALLBACK_IPS cfg = []" by simp
  let ?s2 = "s\<lparr>tasks := tasks s @
                [\<lparr>t_address = a, t_first = first, t_index = 0, t_stage = Finished\<rparr>],
              trace := trace s @ [NetConnect (host a) (port a)]\<rparr>"
  have e: "emit (NetConnect (host a) (port a))
      (s\<lparr>tasks := tasks s @
           [\<lparr>t_address = a, t_first = first, t_index = 0, t_stage = Finished\<rparr>]\<rparr>) = ?s2"
    by (simp add: emit_def)
  have st: "setStage (length (tasks s)) 0 Finished (releaseRemote ?s2) = releaseRemote ?s2"
    using setStage_same [of "length (tasks s)" "releaseRemote ?s2" Finished] by simp
  from onMessage_connect [OF o, of cfg] h
  have "handle cfg (Message d b) s = afterDial cfg (length (tasks s)) (Threw e, releaseRemote ?s2)"
    unfolding handle_message a_def first_def
    by (simp add: dial_connect_throws dial_caught_last [OF l] emit_def)
  then show "handle cfg (Message d b) s = messageCatch cfg e (releaseRemote ?s2)"
    by (simp add: afterDial_def st)
next
  assume h: "\<not> isClosed s \<and> startsWith message ''CONNECT:'' \<and>
      \<not> (doh cfg \<and> \<not> net_isIP cfg (host a)) \<and> connectThrows cfg (host a) (port a) = Some e \<and>
      (\<not> isCFError e \<or> CF_FALLBACK_IPS cfg = []) \<and>
      remoteSocket s = Some k \<and> readyState s = OPEN"
  then have o: "\<not> isClosed s" "startsWith (toString d b) ''CONNECT:''"
    by (simp_all add: message_def)
  from h have l: "\<not> isCFError e \<or> CF_FALLBACK_IPS cfg = []" by simp
  from onMessage_connect [OF o, of cfg] h
  show "handle cfg (Message d b) s =
          s\<lparr>isClosed := True, remoteSocket := None,
            sockets := (sockets s)[k := (sockets s ! k)\<lparr>destroyed := True\<rparr>],
            readyState := CLOSING,
            tasks := tasks s @
               [\<lparr>t_address = a, t_first = first, t_index = 0, t_stage = Finished\<rparr>],
            trace := trace s @
               [NetConnect (host a) (port a), SockDestroy k, WsSend (''ERROR:'' @ e),
                MarkClosed, WsClose]\<rparr>"
    unfolding handle_message a_def first_def
    by (simp add: dial_connect_throws dial_caught_last [OF l] afterDial_def setStage_def
        messageCatch_def wsSend_def cleanup_def releaseRemote_def markDestroyed_def emit_def
        safeCloseWebSocket_def)
next
  assume "length (tasks (run cfg evs initialSession)) \<le> 1"
  then have "singleDial (run cfg evs initialSession)" by (rule singleDial_run)
  then show "othersDestroyed 0 (run cfg evs initialSession)" by (simp add: singleDial_def)
qed

theorem connect_request_unguarded_witness:
  "\<not> isClosed streamingExample \<and> remoteSocket streamingExample = Some 0 \<and>
   readyState streamingExample = OPEN \<and>
   startsWith (toString ''CONNECT:203.0.113.5:81|two'' False) ''CONNECT:'' \<and>
   connectThrows (exampleConfig False [] True) ''203.0.113.5'' (Some 81) = None \<and>
   handle (exampleConfig False [] True) (Message ''CONNECT:203.0.113.5:81|two'' False)
      streamingExample
     = streamingExample
        \<lparr>tasks := tasks streamingExample @
           [\<lparr>t_address = \<lparr>host = ''203.0.113.5'', port = Some 81\<rparr>, t_first = ''two'',
             t_index = 0, t_stage = AwaitConnect 1\<rparr>],
         sockets := sockets streamingExample @
           [\<lparr>peer_host = ''203.0.113.5'', peer_port = Some 81, destroyed = False, pumps = 0\<rparr>],
         remoteSocket := Some 1,
         trace := trace streamingExample @ [NetConnect ''203.0.113.5'' (Some 81)]\<rparr> \<and>
   startsWith (toString ''CONNECT:203.0.113.5:99999|two'' False) ''CONNECT:'' \<and>
   connectThrows portCheckedConfig ''203.0.113.5'' (Some 99999)
     = Some ''Port should be >= 0 and < 65536'' \<and>
   CF_FALLBACK_IPS portCheckedConfig = [] \<and>
   handle portCheckedConfig (Message ''CONNECT:203.0.113.5:99999|two'' False) streamingExample
     = streamingExample
        \<lparr>isClosed := True, remoteSocket := None,
         sockets :=
           [\<lparr>peer_host = ''93.184.216.34'', peer_port = Some 80, destroyed = True, pumps = 1\<rparr>],
         readyState := CLOSING,
         tasks := tasks streamingExample @
           [\<lparr>t_address = \<lparr>host = ''203.0.113.5'', port = Some 99999\<rparr>, t_first = ''two'',
             t_index = 0, t_stage = Finished\<rparr>],
         trace := trace streamingExample @
           [NetConnect ''203.0.113.5'' (Some 99999), SockDestroy 0,
            WsSend ''ERROR:Port should be >= 0 and < 65536'', MarkClosed, WsClose]\<rparr> \<and>
   length (tasks (run (exampleConfig False [''203.0.113.5''] True)
      [Message ''CONNECT:93.184.216.34:80|one'' False, SocketError 0 ''connect ETIMEDOUT'',
       SocketConnect 1] initialSession)) \<le> 1 \<and>
   othersDestroyed 0 (run (exampleConfig False [''203.0.113.5''] True)
      [Message ''CONNECT:93.184.216.34:80|one'' False, SocketError 0 ''connect ETIMEDOUT'',
       SocketConnect 1] initialSession) \<and>
   sockets (run (exampleConfig False [''203.0.113.5''] True)
      [Message ''CONNECT:93.184.216.34:80|one'' False, SocketError 0 ''connect ETIMEDOUT'',
       SocketConnect 1] initialSession)
     = [\<lparr>peer_host = ''93.184.216.34'', peer_port = Some 80, destroyed = True, pumps = 0\<rparr>,
        \<lparr>peer_host = ''203.0.113.5'', peer_port = Some 80, destroyed = False, pumps = 1\<rparr>]"
proof -
  let ?cfg = "exampleConfig False [] True"
  let ?c1 = "''CONNECT:203.0.113.5:81|two''" and ?c2 = "''CONNECT:203.0.113.5:99999|two''"
  let ?evs = "[Message ''CONNECT:93.184.216.34:80|one'' False,
     SocketError 0 ''connect ETIMEDOUT'', SocketConnect 1]"
  have a: "\<not> isClosed streamingExample" "remoteSocket streamingExample = Some 0"
    "readyState streamingExample = OPEN" "length (sockets streamingExample) = 1"
    "(sockets streamingExample)[0 := (sockets streamingExample ! 0)\<lparr>destroyed := True\<rparr>]
       = [\<lparr>peer_host = ''93.184.216.34'', peer_port = Some 80, destroyed = True, pumps = 1\<rparr>]"
    by (simp_all add: streamingExample_value)
  have y: "startsWith (toString ?c1 False) ''CONNECT:''" "startsWith (toString ?c2 False) ''CONNECT:''"
    by (simp_all add: toString_def startsWith_def)
  have p1: "parseAddress (substring (toString ?c1 False) 8 (indexOf (toString ?c1 False) CHR ''|'' 8))
      = \<lparr>host = ''203.0.113.5'', port = Some 81\<rparr>"
    by code_simp
  have f1: "substringFrom (toString ?c1 False) (indexOf (toString ?c1 False) CHR ''|'' 8 + 1) = ''two''"
    by code_simp
  have p2: "parseAddress (substring (toString ?c2 False) 8 (indexOf (toString ?c2 False) CHR ''|'' 8))
      = \<lparr>host = ''203.0.113.5'', port = Some 99999\<rparr>"
    by code_simp
  have f2: "substringFrom (toString ?c2 False) (indexOf (toString ?c2 False) CHR ''|'' 8 + 1) = ''two''"
    by code_simp
  have c1: "\<not> (doh ?cfg \<and> \<not> net_isIP ?cfg ''203.0.113.5'')"
    "connectThrows ?cfg ''203.0.113.5'' (Some 81) = None"
    by (simp_all add: exampleConfig_def)
  have c2: "\<not> (doh portCheckedConfig \<and> \<not> net_isIP portCheckedConfig ''203.0.113.5'')"
    "connectThrows portCheckedConfig ''203.0.113.5'' (Some 99999)
       = Some ''Port should be >= 0 and < 65536''"
    "CF_FALLBACK_IPS portCheckedConfig = []"
    by (simp_all add: portCheckedConfig_def)
  have l: "length (tasks (run (exampleConfig False [''203.0.113.5''] True) ?evs initialSession)) \<le> 1"
    by code_simp
  have s: "sockets (run (exampleConfig False [''203.0.113.5''] True) ?evs initialSession)
     = [\<lparr>peer_host = ''93.184.216.34'', peer_port = Some 80, destroyed = True, pumps = 0\<rparr>,
        \<lparr>peer_host = ''203.0.113.5'', peer_port = Some 80, destroyed = False, pumps = 1\<rparr>]"
    by code_simp
  note step = connect_request_unguarded
    [where s = streamingExample and cfg = ?cfg and d = ?c1 and b = False,
     THEN conjunct2, THEN conjunct1, unfolded p1 f1 a(4) address.simps]
  note raise = connect_request_unguarded
    [where s = streamingExample and cfg = portCheckedConfig and d = ?c2 and b = False
       and e = "''Port should be >= 0 and < 65536''" and k = 0,
     THEN conjunct2, THEN conjunct2, THEN conjunct2, THEN conjunct2, THEN conjunct1,
     unfolded p2 f2 a(5) address.simps]
  note kept = connect_request_unguarded
    [where cfg = "exampleConfig False [''203.0.113.5''] True" and evs = ?evs,
     THEN conjunct2, THEN conjunct2, THEN conjunct2, THEN conjunct2, THEN conjunct2, THEN mp, OF l]
  from step raise kept a(1-3) y c1 c2 l s show ?thesis by simp
qed

text \<open>
  The claim as stated (a second Connect-request is rejected or closes the session, so
  that one connection is kept per session and every other socket is destroyed) fails in
  both states. A Connect-request received while streaming starts a second dial, and
  once it connects the session holds two open sockets, nothing was destroyed and
  nothing was reported to the client. A Connect-request received while connecting
  starts a second dial too: when the first socket then connects, the first run writes
  its first frame to the second socket, and the first socket stays open, is held
  nowhere and is never destroyed.
\<close>

theorem connect_request_unguarded_counterexample:
  "run (exampleConfig False [] True)
     [Message ''CONNECT:93.184.216.34:80|one'' False, SocketConnect 0,
      Message ''CONNECT:203.0.113.5:81|two'' False, SocketConnect 1]
     initialSession
   = \<lparr>isClosed = False, remoteSocket = Some 1,
      sockets =
        [\<lparr>peer_host = ''93.184.216.34'', peer_port = Some 80, destroyed = False, pumps = 1\<rparr>,
         \<lparr>peer_host = ''203.0.113.5'', peer_port = Some 81, destroyed = False, pumps = 1\<rparr>],
      readyState = OPEN,
      tasks =
        [\<lparr>t_address = \<lparr>host = ''93.184.216.34'', port = Some 80\<rparr>, t_first = ''one'',
          t_index = 0, t_stage = Finished\<rparr>,
         \<lparr>t_address = \<lparr>host = ''203.0.113.5'', port = Some 81\<rparr>, t_first = ''two'',
          t_index = 0, t_stage = Finished\<rparr>],
      trace =
        [NetConnect ''93.184.216.34'' (Some 80), SockWrite 0 ''one'', WsSend ''CONNECTED'',
         NetConnect ''203.0.113.5'' (Some 81), SockWrite 1 ''two'', WsSend ''CONNECTED'']\<rparr> \<and>
   run (exampleConfig False [] True)
     [Message ''CONNECT:93.184.216.34:80|one'' False,
      Message ''CONNECT:203.0.113.5:81|two'' False, SocketConnect 0, SocketConnect 1,
      ClientClose]
     initialSession
   = \<lparr>isClosed = True, remoteSocket = None,
      sockets =
        [\<lparr>peer_host = ''93.184.216.34'', peer_port = Some 80, destroyed = False, pumps = 0\<rparr>,
         \<lparr>peer_host = ''203.0.113.5'', peer_port = Some 81, destroyed = True, pumps = 2\<rparr>],
      readyState = CLOSED,
      tasks =
        [\<lparr>t_address = \<lparr>host = ''93.184.216.34'', port = Some 80\<rparr>, t_first = ''one'',
          t_index = 0, t_stage = Finished\<rparr>,
         \<lparr>t_address = \<lparr>host = ''203.0.113.5'', port = Some 81\<rparr>, t_first = ''two'',
          t_index = 0, t_stage = Finished\<rparr>],
      trace =
        [NetConnect ''93.184.216.34'' (Some 80), NetConnect ''203.0.113.5'' (Some 81),
         SockWrite 1 ''one'', WsSend ''CONNECTED'', SockWrite 1 ''two'', WsSend ''CONNECTED'',
         MarkClosed, SockDestroy 1]\<rparr>"
  by code_simp

text \<open>
  Claim C1 (no write or send once the closed flag is set) does not hold of the code.
  In the second variant, let the client's connection close while the resolver's answer
  for a Connect-request is awaited: \<open>cleanup\<close> sets \<open>isClosed\<close> and finds no socket. When
  the answer arrives, \<open>connectToRemote\<close> goes on without looking at \<open>isClosed\<close>: it calls
  \<open>net.connect\<close>, and on \<open>connect\<close> writes the first frame to the new socket and calls
  \<open>send('CONNECTED')\<close> on the closed WebSocket. Where \<open>send\<close> drops the data the socket is
  pumped, stays open and is never destroyed; where \<open>send\<close> raises, the socket is
  destroyed and a second \<open>send\<close> follows for the \<open>ERROR:\<close> notice.
\<close>

theorem teardown_late_dial:
  "isClosed (run (exampleConfig True [] False)
      [Message ''CONNECT:example.com:80|hello'' False, ClientClose] initialSession) \<and>
   run (exampleConfig True [] False)
     [Message ''CONNECT:example.com:80|hello'' False, ClientClose,
      ResolveSettled 0 (ResolvedTo ''93.184.216.34''), SocketConnect 0]
     initialSession
   = \<lparr>isClosed = True, remoteSocket = Some 0,
      sockets =
        [\<lparr>peer_host = ''93.184.216.34'', peer_port = Some 80, destroyed = False, pumps = 1\<rparr>],
      readyState = CLOSED,
      tasks =
        [\<lparr>t_address = \<lparr>host = ''example.com'', port = Some 80\<rparr>, t_first = ''hello'',
          t_index = 0, t_stage = Finished\<rparr>],
      trace =
        [Resolve ''example.com'', MarkClosed, NetConnect ''93.184.216.34'' (Some 80),
         SockWrite 0 ''hello'', WsSend ''CONNECTED'']\<rparr> \<and>
   afterClosed (trace (run (exampleConfig True [] True)
     [Message ''CONNECT:example.com:80|hello'' False, ClientClose,
      ResolveSettled 0 (ResolvedTo ''93.184.216.34''), SocketConnect 0]
     initialSession))
   = [NetConnect ''93.184.216.34'' (Some 80), SockWrite 0 ''hello'', WsSend ''CONNECTED'',
      SockDestroy 0, WsSend ''ERROR:WebSocket is not open: readyState 3 (CLOSED)'']"
  by code_simp

section \<open>Teardown\<close>

lemma cleanup_closed: "isClosed s \<Longrightarrow> cleanup s = s"
  by (simp add: cleanup_def)

lemma isClosed_safeClose [simp]: "isClosed (safeCloseWebSocket s) = isClosed s"
  by (simp add: safeCloseWebSocket_def)

lemma cleanup_closes: "isClosed (cleanup s)"
  by (simp add: cleanup_def)

lemma funpow_fixed: "f s = s \<Longrightarrow> (f ^^ n) s = s"
  by (induction n) simp_all

text \<open>
  What holds of teardown, first part. Teardown is idempotent: \<open>cleanup\<close> sets
  the closed flag, and once the flag is set \<open>cleanup\<close> and the handler of every close
  trigger leave the session as it is: the client's \<open>error\<close>, every message (the \<open>CLOSE\<close>
  command included), a socket's \<open>end\<close> and \<open>data\<close>, and a socket's \<open>error\<close> when no dial
  awaits that socket. The client's \<open>close\<close> only records the state of the WebSocket, and
  a socket's \<open>error\<close> only what Node did to the socket.
\<close>

theorem teardown_idempotent:
  "isClosed (cleanup s) \<and> cleanup (cleanup s) = cleanup s \<and>
   (isClosed s \<longrightarrow>
      cleanup s = s \<and>
      handle cfg ClientError s = s \<and>
      handle cfg ClientClose s = s\<lparr>readyState := CLOSED\<rparr> \<and>
      handle cfg (Message d b) s = s \<and>
      handle cfg (SocketEnd k) s = s \<and>
      handle cfg (SocketData k d) s = s \<and>
      (awaitingConnect s k = [] \<longrightarrow> handle cfg (SocketError k m) s = markDestroyed k s))"
proof (intro conjI impI)
  show "isClosed (cleanup s)" by (rule cleanup_closes)
  then show "cleanup (cleanup s) = cleanup s" by (rule cleanup_closed)
next
  assume c: "isClosed s"
  then show "cleanup s = s" by (rule cleanup_closed)
  from c show "handle cfg ClientError s = s" by (simp add: handle_def cleanup_closed)
  from c show "handle cfg ClientClose s = s\<lparr>readyState := CLOSED\<rparr>"
    by (simp add: handle_def cleanup_closed)
  from c show "handle cfg (Message d b) s = s" by (simp add: handle_def onMessage_def)
  from c have "onSocketEnd cfg s = s" by (simp add: onSocketEnd_def)
  then show "handle cfg (SocketEnd k) s = s" by (simp add: handle_def funpow_fixed)
  from c have "onSocketData cfg d s = s" by (simp add: onSocketData_def)
  then show "handle cfg (SocketData k d) s = s" by (simp add: handle_def funpow_fixed)
  assume a: "awaitingConnect s k = []"
  from c have "cleanup (markDestroyed k s) = markDestroyed k s" by (simp add: cleanup_closed)
  then have f: "(cleanup ^^ n) (markDestroyed k s) = markDestroyed k s" for n
    by (rule funpow_fixed)
  have "awaitingConnect (markDestroyed k s) k = awaitingConnect s k"
    by (simp add: awaitingConnect_def)
  with a f show "handle cfg (SocketError k m) s = markDestroyed k s"
    by (simp add: handle_def Let_def)
qed

theorem teardown_idempotent_witness:
  "isClosed (cleanup streamingExample) \<and>
   cleanup (cleanup streamingExample) = cleanup streamingExample \<and>
   handle (exampleConfig False [] True) ClientError (cleanup streamingExample)
     = cleanup streamingExample \<and>
   handle (exampleConfig False [] True) (Message ''CLOSE'' False) (cleanup streamingExample)
     = cleanup streamingExample \<and>
   handle (exampleConfig False [] True) (SocketEnd 0) (cleanup streamingExample)
     = cleanup streamingExample \<and>
   handle (exampleConfig False [] True) (SocketData 0 ''late'') (cleanup streamingExample)
     = cleanup streamingExample"
  using cleanup_closes [of streamingExample]
    teardown_idempotent
    [where s = "cleanup streamingExample" and cfg = "exampleConfig False [] True"
       and d = "''CLOSE''" and b = False and k = 0 and m = "''reset''"]
    teardown_idempotent
    [where s = "cleanup streamingExample" and cfg = "exampleConfig False [] True"
       and d = "''late''" and b = False and k = 0 and m = "''reset''"]
  by blast

lemma destroys_append [simp]: "destroys (xs @ ys) = destroys xs @ destroys ys"
  by (induction xs rule: destroys.induct) simp_all

lemma accounted_emit:
  "destroys [e] = [] \<Longrightarrow> socketsAccounted (emit e s) = socketsAccounted s"
  by (simp add: socketsAccounted_def)

lemma accounted_markDestroyed [simp]:
  "socketsAccounted (markDestroyed k s) = socketsAccounted s"
  by (simp add: socketsAccounted_def)

lemma accounted_releaseRemote:
  "socketsAccounted s \<Longrightarrow> socketsAccounted (releaseRemote s)"
  by (auto simp: socketsAccounted_def releaseRemote_def split: option.splits)

lemma accounted_safeClose:
  "socketsAccounted s \<Longrightarrow> socketsAccounted (safeCloseWebSocket s)"
  by (simp add: socketsAccounted_def safeCloseWebSocket_def)

lemma accounted_cleanup:
  "socketsAccounted s \<Longrightarrow> socketsAccounted (cleanup s)"
proof -
  assume a: "socketsAccounted s"
  then have "socketsAccounted (emit MarkClosed (s\<lparr>isClosed := True\<rparr>))"
    by (simp add: socketsAccounted_def)
  then show ?thesis
    by (simp add: cleanup_def a accounted_releaseRemote accounted_safeClose)
qed

lemma accounted_wsSend:
  "socketsAccounted s \<Longrightarrow> socketsAccounted (snd (wsSend cfg d s))"
  by (simp add: wsSend_def accounted_emit)

lemma accounted_connectedPath:
  "socketsAccounted s \<Longrightarrow> socketsAccounted (snd (connectedPath cfg first s))"
  by (auto simp: socketsAccounted_def connectedPath_def remoteWrite_def wsSend_def
      pumpRemoteToWebSocket_def emit_def split: option.splits prod.splits if_splits)

lemma accounted_dial:
  "socketsAccounted s \<Longrightarrow> socketsAccounted (snd (dial cfg env a first i p s))"
proof (induction cfg env a first i p s rule: dial.induct)
  case (1 cfg env a first i s)
  then show ?case
    by (subst dial.simps(1)) (auto simp: Let_def accounted_emit split: awaited.splits)
next
  case (2 cfg env a first i r s)
  then show ?case by (subst dial.simps(2)) (simp add: Let_def)
next
  case (3 cfg env a first i resolvedHost s)
  let ?s1 = "emit (NetConnect resolvedHost (port a)) s"
  let ?s2 = "?s1\<lparr>sockets := sockets ?s1 @
                     [\<lparr>peer_host = resolvedHost, peer_port = port a, destroyed = False, pumps = 0\<rparr>],
                   remoteSocket := Some (length (sockets ?s1))\<rparr>"
  have a1: "socketsAccounted ?s1" using "3.prems" by (simp add: accounted_emit)
  have a2: "socketsAccounted ?s2"
    using "3.prems" by (auto simp: socketsAccounted_def)
  show ?case
  proof (cases "connectThrows cfg resolvedHost (port a)")
    case (Some m)
    with "3.IH"(2) [OF Some a1] show ?thesis by (subst dial.simps(3)) simp
  next
    case None
    show ?thesis
    proof (cases "connection_of env i")
      case Pending
      with None a2 show ?thesis by (subst dial.simps(3)) (simp add: Let_def)
    next
      case (Settled c)
      with "3.IH"(1) [OF None refl refl refl Settled a2] None show ?thesis
        by (subst dial.simps(3)) (simp add: Let_def)
    qed
  qed
next
  case (4 cfg env a first i sid s)
  show ?case
  proof (cases "connectedPath cfg first s")
    case (Pair r s1)
    have a1: "socketsAccounted s1"
      using accounted_connectedPath [OF "4.prems", of cfg first] Pair by simp
    show ?thesis
    proof (cases r)
      case None
      with Pair a1 show ?thesis by (subst dial.simps(4)) simp
    next
      case (Some m)
      with "4.IH" Pair a1
      have "socketsAccounted (snd (dial cfg env a first i (Caught m) s1))" by simp
      with Some Pair show ?thesis by (subst dial.simps(4)) simp
    qed
  qed
next
  case (5 cfg env a first i sid m s)
  then show ?case by (subst dial.simps(5)) simp
next
  case (6 cfg env a first i m s)
  have o: "socketsAccounted (releaseRemote s)"
    using "6.prems" by (rule accounted_releaseRemote)
  show ?case
  proof (cases "\<not> isCFError m \<or> i = length (attempts cfg) - 1")
    case True
    with o show ?thesis by (subst dial.simps(6)) (simp del: attempts_length)
  next
    case False
    with "6.IH" [OF False o] show ?thesis by (subst dial.simps(6)) (simp del: attempts_length)
  qed
qed

lemma accounted_tasks [simp]: "socketsAccounted (s\<lparr>tasks := ts\<rparr>) = socketsAccounted s"
  by (simp add: socketsAccounted_def)

lemma accounted_setStage [simp]: "socketsAccounted (setStage tid i st s) = socketsAccounted s"
  by (simp add: setStage_def)

lemma accounted_messageCatch:
  "socketsAccounted s \<Longrightarrow> socketsAccounted (messageCatch cfg m s)"
  by (simp add: messageCatch_def accounted_cleanup accounted_wsSend)

lemma accounted_afterDial:
  "socketsAccounted (snd rs) \<Longrightarrow> socketsAccounted (afterDial cfg tid rs)"
proof (cases rs)
  case (Pair r s)
  assume "socketsAccounted (snd rs)"
  with Pair show ?thesis
    by (cases r) (simp_all add: afterDial_def accounted_messageCatch)
qed

lemma accounted_resume:
  "socketsAccounted s \<Longrightarrow> socketsAccounted (resume cfg tid p s)"
  by (simp add: resume_def Let_def accounted_afterDial accounted_dial)

lemma accounted_onMessage:
  "socketsAccounted s \<Longrightarrow> socketsAccounted (onMessage cfg d b s)"
  by (auto simp: onMessage_def Let_def connectToRemote_def accounted_afterDial accounted_dial
      accounted_emit accounted_cleanup split: option.splits)

lemma accounted_onSocketData:
  "socketsAccounted s \<Longrightarrow> socketsAccounted (onSocketData cfg d s)"
  using accounted_wsSend [of s cfg d]
  by (auto simp: onSocketData_def accounted_cleanup split: prod.splits option.splits)

lemma accounted_onSocketEnd:
  "socketsAccounted s \<Longrightarrow> socketsAccounted (onSocketEnd cfg s)"
  by (simp add: onSocketEnd_def accounted_cleanup accounted_wsSend)

lemma accounted_funpow:
  "(\<And>x. socketsAccounted x \<Longrightarrow> socketsAccounted (f x)) \<Longrightarrow>
   socketsAccounted s \<Longrightarrow> socketsAccounted ((f ^^ n) s)"
  by (induction n) simp_all

lemma accounted_readyState [simp]:
  "socketsAccounted (s\<lparr>readyState := rs\<rparr>) = socketsAccounted s"
  by (simp add: socketsAccounted_def)

lemma accounted_handle:
  assumes "socketsAccounted s"
  shows "socketsAccounted (handle cfg ev s)"
proof (cases ev)
  case (Message d b)
  with assms show ?thesis by (simp add: handle_def accounted_onMessage)
next
  case ClientClose
  with assms show ?thesis by (simp add: handle_def accounted_cleanup)
next
  case ClientError
  with assms show ?thesis by (simp add: handle_def accounted_cleanup)
next
  case (ResolveSettled tid r)
  with assms show ?thesis by (simp add: handle_def accounted_resume)
next
  case (SocketConnect sid)
  with assms show ?thesis
    by (simp add: handle_def accounted_resume split: list.splits)
next
  case (SocketError sid m)
  have "socketsAccounted ((cleanup ^^ listeners s sid) (markDestroyed sid s))"
    using assms by (intro accounted_funpow) (simp_all add: accounted_cleanup)
  with SocketError show ?thesis
    by (simp add: handle_def Let_def accounted_resume split: list.splits)
next
  case (SocketData sid d)
  have "socketsAccounted ((onSocketData cfg d ^^ listeners s sid) s)"
    using assms by (intro accounted_funpow) (simp_all add: accounted_onSocketData)
  with SocketData show ?thesis by (simp add: handle_def)
next
  case (SocketEnd sid)
  have "socketsAccounted ((onSocketEnd cfg ^^ listeners s sid) s)"
    using assms by (intro accounted_funpow) (simp_all add: accounted_onSocketEnd)
  with SocketEnd show ?thesis by (simp add: handle_def)
next
  case (SocketClosed sid)
  with assms show ?thesis by (simp add: handle_def)
qed

lemma accounted_run:
  "socketsAccounted s \<Longrightarrow> socketsAccounted (run cfg evs s)"
  unfolding run_def by (induction evs arbitrary: s) (simp_all add: accounted_handle)

text \<open>
  What holds of teardown, second part. In every run of a session, under any
  sequence of events and in both variants, \<open>destroy\<close> is called at most once on each
  socket: the code calls it on \<open>remoteSocket\<close> only and sets the variable to \<open>null\<close> right
  after.
\<close>

theorem destroy_at_most_once:
  "distinct (destroys (trace (run cfg evs initialSession)))"
proof -
  have "socketsAccounted initialSession"
    by (simp add: socketsAccounted_def initialSession_def)
  then have "socketsAccounted (run cfg evs initialSession)" by (rule accounted_run)
  then show ?thesis by (simp add: socketsAccounted_def)
qed

end
